(* ===== verification/Prelude.thy ===== *)
theory Prelude
  imports Main "HOL-Library.Word" "HOL-Library.Sublist" "HOL-Library.Char_ord"
    "HOL-Library.List_Lexorder"
begin

text \<open>
  Shared vocabulary of the development: what the Go code uses of the packages
  \<open>strings\<close>, \<open>strconv\<close> and \<open>time\<close>, on the types the other theories
  share, with the generic lemmas the component proofs rest on.

  A Go string is a sequence of bytes, and so is a HOL \<^typ>\<open>string\<close> (a list of 8-bit
  characters). The case and space functions are those of Go on ASCII bytes; bytes from
  128 on are left as they are, so Unicode case folding is outside the model; that includes the two characters
  (U+017F, U+212A) which \<open>strings.EqualFold\<close> counts as the ASCII letters s and k.
  A Go \<open>time.Time\<close> is the number of nanoseconds since Go's zero time (1 January of
  year 1), so \<open>IsZero\<close> is \<open>t = 0\<close>. A \<open>time.Duration\<close> and every \<open>int64\<close> on which
  arithmetic can overflow is a 64-bit word, read by \<^const>\<open>sint\<close>.
\<close>

named_theorems str_simps \<open>equations of the string functions that proofs unfold\<close>
named_theorems inv_intros \<open>preservation lemmas of component invariants\<close>

section \<open>Names of types\<close>

type_synonym i64 = "64 word"
type_synonym go_time = int
type_synonym duration = i64

text \<open>A Go function that returns a value or an error; the error is on the left.\<close>

type_synonym ('e, 'a) result = "'e + 'a"

abbreviation Err :: "'e \<Rightarrow> ('e, 'a) result" where "Err \<equiv> Inl"
abbreviation Ok :: "'a \<Rightarrow> ('e, 'a) result" where "Ok \<equiv> Inr"

abbreviation byte :: "char \<Rightarrow> nat" where "byte c \<equiv> of_char c"

section \<open>Package strings\<close>

definition lower_char :: "char \<Rightarrow> char" where
  "lower_char c = (if 65 \<le> byte c \<and> byte c \<le> 90 then char_of (byte c + 32) else c)"

definition ToLower :: "string \<Rightarrow> string" where
  "ToLower s = map lower_char s"

definition is_space :: "char \<Rightarrow> bool" where
  "is_space c \<longleftrightarrow> byte c = 32 \<or> (9 \<le> byte c \<and> byte c \<le> 13)"

definition TrimSpace :: "string \<Rightarrow> string" where
  "TrimSpace s = rev (dropWhile is_space (rev (dropWhile is_space s)))"

definition HasPrefix :: "string \<Rightarrow> string \<Rightarrow> bool" where
  "HasPrefix s p \<longleftrightarrow> take (length p) s = p"

definition HasSuffix :: "string \<Rightarrow> string \<Rightarrow> bool" where
  "HasSuffix s p \<longleftrightarrow> HasPrefix (rev s) (rev p)"

definition TrimPrefix :: "string \<Rightarrow> string \<Rightarrow> string" where
  "TrimPrefix s p = (if HasPrefix s p then drop (length p) s else s)"

definition TrimSuffix :: "string \<Rightarrow> string \<Rightarrow> string" where
  "TrimSuffix s p = (if HasSuffix s p then take (length s - length p) s else s)"

text \<open>\<open>strings.Trim\<close> removes the bytes of a cutset from both ends.\<close>

definition Trim :: "string \<Rightarrow> string \<Rightarrow> string" where
  "Trim s cutset = rev (dropWhile (\<lambda>c. c \<in> set cutset) (rev (dropWhile (\<lambda>c. c \<in> set cutset) s)))"

text \<open>\<open>strings.Split\<close> with a separator of one byte; the result is never empty.\<close>

fun Split :: "string \<Rightarrow> char \<Rightarrow> string list" where
  "Split [] sep = [[]]"
| "Split (c # s) sep =
     (if c = sep then [] # Split s sep
      else (case Split s sep of [] \<Rightarrow> [[c]] | f # fs \<Rightarrow> (c # f) # fs))"

fun Join :: "string list \<Rightarrow> string \<Rightarrow> string" where
  "Join [] sep = []"
| "Join [x] sep = x"
| "Join (x # y # xs) sep = x @ sep @ Join (y # xs) sep"

text \<open>\<open>strings.Cut\<close>: the text before and after the first separator, and whether there is one.\<close>

fun Cut :: "string \<Rightarrow> string \<Rightarrow> string \<times> string \<times> bool" where
  "Cut [] sep = (if sep = [] then ([], [], True) else ([], [], False))"
| "Cut (c # s) sep =
     (if HasPrefix (c # s) sep then ([], drop (length sep) (c # s), True)
      else (case Cut s sep of (before, after, found) \<Rightarrow>
        if found then (c # before, after, True) else (c # s, [], False)))"

fun Contains :: "string \<Rightarrow> string \<Rightarrow> bool" where
  "Contains [] sub \<longleftrightarrow> sub = []"
| "Contains (c # s) sub \<longleftrightarrow> HasPrefix (c # s) sub \<or> Contains s sub"

definition ContainsAny :: "string \<Rightarrow> string \<Rightarrow> bool" where
  "ContainsAny s chars \<longleftrightarrow> list_ex (\<lambda>c. c \<in> set chars) s"

definition EqualFold :: "string \<Rightarrow> string \<Rightarrow> bool" where
  "EqualFold s t \<longleftrightarrow> ToLower s = ToLower t"

text \<open>\<open>strings.LastIndexByte\<close> and \<open>strings.IndexByte\<close>, with \<open>None\<close> for -1.\<close>

fun IndexByte :: "string \<Rightarrow> char \<Rightarrow> nat option" where
  "IndexByte [] b = None"
| "IndexByte (c # s) b = (if c = b then Some 0 else map_option Suc (IndexByte s b))"

fun LastIndexByte :: "string \<Rightarrow> char \<Rightarrow> nat option" where
  "LastIndexByte [] b = None"
| "LastIndexByte (c # s) b =
     (case LastIndexByte s b of Some i \<Rightarrow> Some (Suc i) | None \<Rightarrow> if c = b then Some 0 else None)"

text \<open>\<open>strings.Fields\<close>: the maximal runs of bytes that are not spaces.\<close>

fun fields_aux :: "string \<Rightarrow> string \<Rightarrow> string list" where
  "fields_aux acc [] = (if acc = [] then [] else [rev acc])"
| "fields_aux acc (c # s) =
     (if is_space c then (if acc = [] then fields_aux [] s else rev acc # fields_aux [] s)
      else fields_aux (c # acc) s)"

definition Fields :: "string \<Rightarrow> string list" where
  "Fields s = fields_aux [] s"

section \<open>Package strconv\<close>

definition is_digit :: "char \<Rightarrow> bool" where
  "is_digit c \<longleftrightarrow> 48 \<le> byte c \<and> byte c \<le> 57"

definition digits_value :: "string \<Rightarrow> int" where
  "digits_value s = foldl (\<lambda>n c. n * 10 + (int (byte c) - 48)) 0 s"

definition max_int64 :: int where "max_int64 = 9223372036854775807"
definition min_int64 :: int where "min_int64 = -9223372036854775808"

text \<open>
  \<open>strconv.ParseInt(s, 10, 64)\<close>, which is also \<open>strconv.Atoi\<close> where \<open>int\<close> has 64 bits:
  an optional sign, at least one digit, nothing else, and a value that fits; \<open>None\<close> is an error.
\<close>

definition parse_digits :: "string \<Rightarrow> int option" where
  "parse_digits s = (if s \<noteq> [] \<and> list_all is_digit s then Some (digits_value s) else None)"

definition ParseInt :: "string \<Rightarrow> int option" where
  "ParseInt s =
     (let (neg, ds) = (case s of [] \<Rightarrow> (False, [])
        | c # r \<Rightarrow> if c = CHR ''-'' then (True, r) else if c = CHR ''+'' then (False, r) else (False, s))
      in case parse_digits ds of None \<Rightarrow> None
         | Some n \<Rightarrow>
             let v = (if neg then - n else n)
             in if min_int64 \<le> v \<and> v \<le> max_int64 then Some v else None)"

abbreviation Atoi :: "string \<Rightarrow> int option" where "Atoi \<equiv> ParseInt"

function dec_string :: "int \<Rightarrow> string" where
  "dec_string n =
     (if n < 10 then [char_of (48 + nat n)] else dec_string (n div 10) @ [char_of (48 + nat (n mod 10))])"
  by pat_completeness auto
termination
  by (relation "measure nat") auto

declare dec_string.simps [simp del]

definition FormatInt :: "int \<Rightarrow> string" where
  "FormatInt i = (if i < 0 then CHR ''-'' # dec_string (- i) else dec_string i)"

section \<open>Package time\<close>

definition second_ns :: int where "second_ns = 1000000000"

text \<open>\<open>t.Add(d)\<close>; the instants of the program stay far inside Go's range of years.\<close>

definition time_add :: "go_time \<Rightarrow> duration \<Rightarrow> go_time" where
  "time_add t d = t + sint d"

text \<open>\<open>t.Sub(u)\<close> saturates at the largest and smallest duration.\<close>

definition time_sub :: "go_time \<Rightarrow> go_time \<Rightarrow> duration" where
  "time_sub t u = word_of_int (max min_int64 (min max_int64 (t - u)))"

text \<open>Go's integer division truncates towards zero.\<close>

definition trunc_div :: "int \<Rightarrow> int \<Rightarrow> int" where
  "trunc_div a b = sgn a * sgn b * (\<bar>a\<bar> div \<bar>b\<bar>)"


section \<open>Lemmas on strings\<close>

lemma HasPrefix_iff: "HasPrefix s p \<longleftrightarrow> (\<exists>r. s = p @ r)"
  by (auto simp: HasPrefix_def) (metis append_take_drop_id)

lemma HasPrefix_Nil [simp]: "HasPrefix s []"
  by (simp add: HasPrefix_def)

lemma HasPrefix_append [simp]: "HasPrefix (p @ r) p"
  by (auto simp: HasPrefix_iff)

lemma HasSuffix_iff: "HasSuffix s p \<longleftrightarrow> (\<exists>r. s = r @ p)"
  by (auto simp: HasSuffix_def HasPrefix_iff) (metis rev_append rev_rev_ident)

lemma HasPrefix_trans: "HasPrefix s q \<Longrightarrow> HasPrefix q p \<Longrightarrow> HasPrefix s p"
  by (auto simp: HasPrefix_iff)

lemma Contains_iff: "Contains s sub \<longleftrightarrow> (\<exists>a b. s = a @ sub @ b)"
proof (induction s)
  case Nil
  then show ?case by auto
next
  case (Cons c s)
  show ?case
  proof
    assume "Contains (c # s) sub"
    then show "\<exists>a b. c # s = a @ sub @ b"
      using Cons by (auto simp: HasPrefix_iff) (metis append_Cons append_Nil)+
  next
    assume "\<exists>a b. c # s = a @ sub @ b"
    then obtain a b where ab: "c # s = a @ sub @ b" by blast
    show "Contains (c # s) sub"
    proof (cases a)
      case Nil
      with ab have "HasPrefix (c # s) sub" by (auto simp: HasPrefix_iff)
      then show ?thesis by simp
    next
      case (Cons d a')
      with ab have "s = a' @ sub @ b" by simp
      with local.Cons.IH show ?thesis by auto
    qed
  qed
qed

lemma ContainsAny_iff: "ContainsAny s cs \<longleftrightarrow> (\<exists>c \<in> set s. c \<in> set cs)"
  by (auto simp: ContainsAny_def list_ex_iff)

lemma lower_char_idem [simp]: "lower_char (lower_char c) = lower_char c"
  by (simp add: lower_char_def)

lemma ToLower_idem [simp]: "ToLower (ToLower s) = ToLower s"
  by (simp add: ToLower_def o_def)

lemma ToLower_Nil [simp]: "ToLower [] = []"
  by (simp add: ToLower_def)

lemma ToLower_append: "ToLower (s @ t) = ToLower s @ ToLower t"
  by (simp add: ToLower_def)

lemma ToLower_rev: "ToLower (rev s) = rev (ToLower s)"
  by (simp add: ToLower_def rev_map)

lemma length_ToLower [simp]: "length (ToLower s) = length s"
  by (simp add: ToLower_def)

lemma byte_lower_char: "byte (lower_char c) = (if 65 \<le> byte c \<and> byte c \<le> 90 then byte c + 32 else byte c)"
  by (simp add: lower_char_def)

lemma lower_char_eq_iff:
  "\<not> (65 \<le> byte b \<and> byte b \<le> 90) \<Longrightarrow> \<not> (97 \<le> byte b \<and> byte b \<le> 122) \<Longrightarrow>
   lower_char c = b \<longleftrightarrow> c = b"
  using byte_lower_char [of c] by (cases "65 \<le> byte c \<and> byte c \<le> 90") (auto simp: lower_char_def)

lemma set_ToLower_iff:
  "\<not> (65 \<le> byte b \<and> byte b \<le> 90) \<Longrightarrow> \<not> (97 \<le> byte b \<and> byte b \<le> 122) \<Longrightarrow>
   b \<in> set (ToLower s) \<longleftrightarrow> b \<in> set s"
proof -
  assume "\<not> (65 \<le> byte b \<and> byte b \<le> 90)" "\<not> (97 \<le> byte b \<and> byte b \<le> 122)"
  then have "\<And>c. b = lower_char c \<longleftrightarrow> b = c"
    using lower_char_eq_iff by metis
  then show ?thesis by (simp add: ToLower_def image_iff)
qed

lemma is_space_lower_char [simp]: "is_space (lower_char c) = is_space c"
  by (simp add: is_space_def byte_lower_char)

lemma dropWhile_space_ToLower: "dropWhile is_space (ToLower s) = ToLower (dropWhile is_space s)"
  by (induction s) (auto simp: ToLower_def)

lemma TrimSpace_ToLower: "TrimSpace (ToLower s) = ToLower (TrimSpace s)"
  by (simp add: TrimSpace_def dropWhile_space_ToLower flip: ToLower_rev)

text \<open>A string is fixed by \<open>TrimSpace\<close> when it is empty or has no space at either end.\<close>

definition trimmed :: "string \<Rightarrow> bool" where
  "trimmed s \<longleftrightarrow> s = [] \<or> (\<not> is_space (hd s) \<and> \<not> is_space (last s))"

lemma TrimSpace_trimmed: "trimmed s \<Longrightarrow> TrimSpace s = s"
proof (cases "s = []")
  case True
  then show ?thesis by (simp add: TrimSpace_def)
next
  case False
  moreover assume "trimmed s"
  ultimately have "dropWhile is_space s = s" "dropWhile is_space (rev s) = rev s"
    by (auto simp: trimmed_def dropWhile_eq_self_iff hd_rev)
  then show ?thesis by (simp add: TrimSpace_def)
qed

lemma trimmed_TrimSpace: "trimmed (TrimSpace s)"
proof -
  define t where "t = dropWhile is_space s"
  have hd: "t \<noteq> [] \<Longrightarrow> \<not> is_space (hd t)"
    using hd_dropWhile [of is_space s] by (simp add: t_def)
  have rv: "TrimSpace s = rev (dropWhile is_space (rev t))"
    by (simp add: TrimSpace_def t_def)
  show ?thesis
  proof (cases "dropWhile is_space (rev t) = []")
    case True
    then show ?thesis by (simp add: rv trimmed_def)
  next
    case False
    let ?u = "dropWhile is_space (rev t)"
    have l: "\<not> is_space (hd ?u)" using False by (rule hd_dropWhile)
    have "last ?u = last (rev t)"
      using False by (metis last_appendR takeWhile_dropWhile_id)
    also have "\<dots> = hd t" by (simp add: last_rev)
    finally have "last ?u = hd t" .
    moreover have "t \<noteq> []" using False by auto
    ultimately have "\<not> is_space (last ?u)" using hd by simp
    with l False show ?thesis by (simp add: rv trimmed_def hd_rev last_rev)
  qed
qed

lemma TrimSpace_idem [simp]: "TrimSpace (TrimSpace s) = TrimSpace s"
  by (rule TrimSpace_trimmed [OF trimmed_TrimSpace])

lemma set_dropWhile_subset: "set (dropWhile P s) \<subseteq> set s"
  using set_dropWhileD by fastforce

lemma set_TrimSpace: "set (TrimSpace s) \<subseteq> set s"
  unfolding TrimSpace_def using set_dropWhile_subset
  by (metis (no_types, lifting) order_trans set_rev)

lemma set_TrimSuffix: "set (TrimSuffix s p) \<subseteq> set s"
  by (simp add: TrimSuffix_def set_take_subset)

lemma TrimSuffix_append [simp]: "TrimSuffix (s @ p) p = s"
  by (simp add: TrimSuffix_def HasSuffix_iff)

lemma TrimSuffix_cases: "TrimSuffix s p = s \<and> \<not> HasSuffix s p \<or> s = TrimSuffix s p @ p"
  by (auto simp: TrimSuffix_def HasSuffix_iff)

lemma Split_ne [simp]: "Split s sep \<noteq> []"
  by (cases s) (auto split: list.splits)

lemma Join_Split: "Join (Split s sep) [sep] = s"
proof (induction s)
  case Nil
  then show ?case by simp
next
  case (Cons c s)
  obtain f fs where "Split s sep = f # fs" by (cases "Split s sep") auto
  with Cons show ?case by (cases fs) auto
qed

lemma Split_no_sep: "sep \<notin> set s \<Longrightarrow> Split s sep = [s]"
  by (induction s) auto

lemma Split_sep_notin: "f \<in> set (Split s sep) \<Longrightarrow> sep \<notin> set f"
proof (induction s arbitrary: f)
  case Nil
  then show ?case by simp
next
  case (Cons c s)
  obtain g gs where "Split s sep = g # gs" by (cases "Split s sep") auto
  with Cons show ?case by (auto split: if_splits)
qed

lemma Split_append_sep: "sep \<notin> set f \<Longrightarrow> Split (f @ sep # s) sep = f # Split s sep"
  by (induction f) auto

lemma set_Split: "(\<Union>f \<in> set (Split s sep). set f) \<union> {sep} = set s \<union> {sep}"
proof (induction s)
  case Nil
  then show ?case by simp
next
  case (Cons c s)
  obtain g gs where "Split s sep = g # gs" by (cases "Split s sep") auto
  with Cons show ?case by auto
qed

lemma Split_char: "c \<in> set s \<Longrightarrow> c \<noteq> sep \<Longrightarrow> \<exists>f \<in> set (Split s sep). c \<in> set f"
  using set_Split [of s sep] by blast

lemma Cut_found: "Cut s sep = (b, a, True) \<Longrightarrow> s = b @ sep @ a"
proof (induction s arbitrary: b a)
  case Nil
  then show ?case by (auto split: if_splits)
next
  case (Cons c s)
  then show ?case
    by (auto simp: HasPrefix_iff split: if_splits prod.splits)
qed

lemma Cut_not_found: "Cut s sep = (b, a, False) \<Longrightarrow> b = s \<and> a = [] \<and> \<not> Contains s sep"
proof (induction s arbitrary: b a)
  case Nil
  then show ?case by (auto split: if_splits)
next
  case (Cons c s)
  then show ?case by (auto split: if_splits prod.splits)
qed

lemma LastIndexByte_None: "LastIndexByte s b = None \<longleftrightarrow> b \<notin> set s"
  by (induction s) (auto split: option.splits)

lemma LastIndexByte_Some:
  "LastIndexByte s b = Some i \<Longrightarrow> i < length s \<and> s = take i s @ b # drop (Suc i) s \<and> b \<notin> set (drop (Suc i) s)"
proof (induction s arbitrary: i)
  case Nil
  then show ?case by simp
next
  case (Cons c s)
  then show ?case
    by (auto split: option.splits if_splits simp: LastIndexByte_None)
qed

lemma LastIndexByte_append: "b \<notin> set t \<Longrightarrow> LastIndexByte (s @ b # t) b = Some (length s)"
  by (induction s) (auto simp: LastIndexByte_None split: option.splits)

lemma IndexByte_None: "IndexByte s b = None \<longleftrightarrow> b \<notin> set s"
  by (induction s) auto

lemma IndexByte_append: "b \<notin> set s \<Longrightarrow> IndexByte (s @ b # t) b = Some (length s)"
  by (induction s) auto

section \<open>Lemmas on integers\<close>

lemma ParseInt_bounds: "ParseInt s = Some v \<Longrightarrow> min_int64 \<le> v \<and> v \<le> max_int64"
  by (auto simp: ParseInt_def Let_def split: option.splits if_splits prod.splits)

lemma dec_string_ne: "dec_string n \<noteq> []"
  by (subst dec_string.simps) simp

lemma byte_digit: "0 \<le> n \<Longrightarrow> n < 10 \<Longrightarrow> byte (char_of (48 + nat n)) = 48 + nat n"
  by simp

lemma dec_string_digits: "0 \<le> n \<Longrightarrow> list_all is_digit (dec_string n)"
proof (induction n rule: dec_string.induct)
  case (1 n)
  have "is_digit (char_of (48 + nat (n mod 10)))" by (simp add: is_digit_def nat_less_iff)
  with 1 show ?case
    by (cases "n < 10") (simp_all add: dec_string.simps [of n] is_digit_def [of "char_of _"])
qed

lemma digits_value_snoc: "digits_value (s @ [c]) = digits_value s * 10 + (int (byte c) - 48)"
  by (simp add: digits_value_def)

lemma digits_value_dec_string: "0 \<le> n \<Longrightarrow> digits_value (dec_string n) = n"
proof (induction n rule: dec_string.induct)
  case (1 n)
  show ?case
  proof (cases "n < 10")
    case True
    with 1 show ?thesis by (subst dec_string.simps) (simp add: digits_value_def)
  next
    case False
    have "int (byte (char_of (48 + nat (n mod 10)))) - 48 = n mod 10"
      using byte_digit [of "n mod 10"] by simp
    with False 1 show ?thesis
      by (subst dec_string.simps) (simp add: digits_value_snoc)
  qed
qed

lemma parse_digits_dec_string: "0 \<le> n \<Longrightarrow> parse_digits (dec_string n) = Some n"
  by (simp add: parse_digits_def dec_string_ne dec_string_digits digits_value_dec_string)

lemma digits_value_nonneg: "list_all is_digit s \<Longrightarrow> 0 \<le> digits_value s"
  by (induction s rule: rev_induct) (auto simp: digits_value_snoc is_digit_def, simp add: digits_value_def)

lemma ParseInt_dec_string: "0 \<le> n \<Longrightarrow> n \<le> max_int64 \<Longrightarrow> ParseInt (dec_string n) = Some n"
proof -
  assume le: "0 \<le> n" "n \<le> max_int64"
  obtain c r where s: "dec_string n = c # r" using dec_string_ne by (cases "dec_string n") auto
  then have "is_digit c" using dec_string_digits [of n] le by simp
  then have "c \<noteq> CHR ''-'' \<and> c \<noteq> CHR ''+''" by (auto simp: is_digit_def)
  with s le show ?thesis
    using parse_digits_dec_string [of n] by (simp add: ParseInt_def min_int64_def)
qed

lemma ParseInt_FormatInt:
  assumes "min_int64 \<le> i" "i \<le> max_int64"
  shows "ParseInt (FormatInt i) = Some i"
proof (cases "i < 0")
  case True
  with assms show ?thesis
    by (simp add: FormatInt_def ParseInt_def parse_digits_dec_string max_int64_def)
next
  case False
  with assms show ?thesis
    using ParseInt_dec_string [of i] by (simp add: FormatInt_def)
qed

lemma sint_word_of_int_64:
  "min_int64 \<le> i \<Longrightarrow> i \<le> max_int64 \<Longrightarrow> sint (word_of_int i :: i64) = i"
  by (simp add: sint_word_ariths min_int64_def max_int64_def signed_of_int signed_take_bit_int_eq_self)

section \<open>Evaluation\<close>

text \<open>
  \<open>str_simps\<close> unfolds the functions above on closed texts; \<open>simp add: str_simps\<close>
  then evaluates them.
\<close>

lemma replicate_numeral [str_simps]: "replicate (numeral k) x = x # replicate (pred_numeral k) x"
  by (simp add: numeral_eq_Suc)

declare ToLower_def [str_simps] lower_char_def [str_simps] is_space_def [str_simps]
  TrimSpace_def [str_simps] HasPrefix_def [str_simps] HasSuffix_def [str_simps]
  TrimPrefix_def [str_simps] TrimSuffix_def [str_simps] Trim_def [str_simps]
  ContainsAny_def [str_simps] EqualFold_def [str_simps] is_digit_def [str_simps]
  digits_value_def [str_simps] parse_digits_def [str_simps] ParseInt_def [str_simps]
  dec_string.simps [str_simps] FormatInt_def [str_simps] max_int64_def [str_simps] min_int64_def [str_simps] Fields_def [str_simps]

section \<open>Lemmas on lists\<close>

lemma find_None_all: "List.find P xs = None \<longleftrightarrow> (\<forall>x \<in> set xs. \<not> P x)"
  by (auto simp: find_None_iff)

text \<open>A loop that returns an error at the first bad element, then goes on with \<open>k\<close>.\<close>

lemma find_case_None:
  "(case List.find P xs of None \<Rightarrow> k | Some x \<Rightarrow> Some (f x)) = None
     \<longleftrightarrow> (\<forall>x \<in> set xs. \<not> P x) \<and> k = None"
  using find_None_all [of P xs] by (auto split: option.split)

lemma distinct_concat_drop_nth:
  assumes "distinct (concat (xs @ y # ys))"
  shows "distinct (concat (xs @ ys))"
  using assms by auto

lemma concat_remove_nth:
  assumes "i < length xss" "distinct (concat xss)"
  shows "distinct (concat (take i xss @ drop (Suc i) xss))"
  using assms by (metis distinct_concat_drop_nth id_take_nth_drop)

section \<open>Counting the elements of a list\<close>

lemma length_filter_update:
  "i < length xs \<Longrightarrow> length (filter P (xs[i := y])) + (if P (xs ! i) then 1 else 0) =
     length (filter P xs) + (if P y then 1 else 0)"
proof (induction xs arbitrary: i)
  case (Cons x xs)
  show ?case
  proof (cases i)
    case (Suc j)
    then show ?thesis using Cons.IH [of j] Cons.prems by (auto split: if_splits)
  qed simp
qed simp

lemma length_filter_pos: "i < length xs \<Longrightarrow> P (xs ! i) \<Longrightarrow> 0 < length (filter P xs)"
  by (metis length_greater_0_conv filter_empty_conv nth_mem)

lemma length_filter_two:
  assumes "i < length xs" "j < length xs" "i \<noteq> j" "P (xs ! i)" "P (xs ! j)"
  shows "2 \<le> length (filter P xs)"
proof -
  have "{i, j} \<subseteq> {k. k < length xs \<and> P (xs ! k)}" using assms by auto
  then have "card {i, j} \<le> card {k. k < length xs \<and> P (xs ! k)}" by (intro card_mono) auto
  then show ?thesis using assms(3) by (simp add: length_filter_conv_card)
qed

lemma sum_list_map_update:
  assumes "i < length xs"
  shows "sum_list (map f (xs[i := y])) + f (xs ! i) = sum_list (map f xs) + (f y :: nat)"
proof -
  have "f (xs ! i) \<le> sum_list (map f xs)" using assms by (metis length_map nth_map elem_le_sum_list)
  then show ?thesis using assms by (simp add: map_update sum_list_update)
qed

end
