(* ===== verification/GoNet.thy ===== *)
theory GoNet
  imports Prelude
begin

unbundle bit_operations_syntax

text \<open>
  What the program uses of the packages \<open>net\<close> and \<open>net/url\<close>: splitting and joining
  \<open>host:port\<close> texts, parsing and classifying IP addresses, and the host name of a URL.
  An address is a \<open>net.IP\<close> of 16 bytes, an IPv4 address in its IPv4-mapped form, which is
  what \<open>net.ParseIP\<close> returns. The last section proves the facts the configuration and the
  router need: an IP literal never splits as \<open>host:port\<close>.
\<close>

type_synonym ip = "8 word list"

section \<open>SplitHostPort and JoinHostPort\<close>

datatype addr_error = MissingPort | TooManyColons | MissingBracket | UnexpectedOpen | UnexpectedClose

definition split_tail :: "string \<Rightarrow> nat \<Rightarrow> nat \<Rightarrow> nat \<Rightarrow> string \<Rightarrow> (addr_error, string \<times> string) result" where
  "split_tail hp j k i host =
     (if CHR ''['' \<in> set (drop j hp) then Err UnexpectedOpen
      else if CHR '']'' \<in> set (drop k hp) then Err UnexpectedClose
      else Ok (host, drop (Suc i) hp))"

definition SplitHostPort :: "string \<Rightarrow> (addr_error, string \<times> string) result" where
  "SplitHostPort hp =
     (case LastIndexByte hp (CHR '':'') of
        None \<Rightarrow> Err MissingPort
      | Some i \<Rightarrow>
          if hd hp = CHR ''['' then
            (case IndexByte hp (CHR '']'') of
               None \<Rightarrow> Err MissingBracket
             | Some e \<Rightarrow>
                 if Suc e = length hp then Err MissingPort
                 else if Suc e = i then split_tail hp 1 (Suc e) i (take (e - 1) (drop 1 hp))
                 else if hp ! Suc e = CHR '':'' then Err TooManyColons
                 else Err MissingPort)
          else if CHR '':'' \<in> set (take i hp) then Err TooManyColons
          else split_tail hp 0 0 i (take i hp))"

definition JoinHostPort :: "string \<Rightarrow> string \<Rightarrow> string" where
  "JoinHostPort host port =
     (if CHR '':'' \<in> set host then ''['' @ host @ '']:'' @ port else host @ '':'' @ port)"

section \<open>ParseIP\<close>

definition is_hex :: "char \<Rightarrow> bool" where
  "is_hex c \<longleftrightarrow> is_digit c \<or> (97 \<le> byte c \<and> byte c \<le> 102) \<or> (65 \<le> byte c \<and> byte c \<le> 70)"

definition hex_value :: "char \<Rightarrow> nat" where
  "hex_value c = (if is_digit c then byte c - 48 else if 97 \<le> byte c then byte c - 87 else byte c - 55)"

definition hex_number :: "string \<Rightarrow> nat" where
  "hex_number s = foldl (\<lambda>n c. n * 16 + hex_value c) 0 s"

definition parse_octet :: "string \<Rightarrow> 8 word option" where
  "parse_octet s =
     (if s = [] \<or> \<not> list_all is_digit s \<or> (1 < length s \<and> hd s = CHR ''0'') \<or> 255 < digits_value s
      then None else Some (word_of_int (digits_value s)))"

definition parse_ipv4 :: "string \<Rightarrow> ip option" where
  "parse_ipv4 s =
     (case map parse_octet (Split s (CHR ''.'')) of
        [Some a, Some b, Some c, Some d] \<Rightarrow> Some [a, b, c, d]
      | _ \<Rightarrow> None)"

definition v4_in_v6 :: "ip \<Rightarrow> ip" where
  "v4_in_v6 q = replicate 10 0 @ [255, 255] @ q"

text \<open>
  The group loop of \<open>netip.parseIPv6\<close>: the bytes read so far, the position of \<open>::\<close> if
  there was one, and the rest of the text, which every round shortens.
\<close>

lemma length_dropWhile_less: "takeWhile P s \<noteq> [] \<Longrightarrow> length (dropWhile P s) < length s"
  by (cases s) (auto simp: le_imp_less_Suc length_dropWhile_le split: if_splits)

function parse_groups :: "ip \<Rightarrow> nat option \<Rightarrow> string \<Rightarrow> (ip \<times> nat option \<times> string) option" where
  "parse_groups acc el s =
     (if 16 \<le> length acc then Some (acc, el, s)
      else let h = takeWhile is_hex s; r = dropWhile is_hex s
      in if h = [] \<or> 4 < length h then None
         else if r \<noteq> [] \<and> hd r = CHR ''.'' then
           (if el = None \<and> length acc \<noteq> 12 then None
            else if 16 < length acc + 4 then None
            else (case parse_ipv4 s of None \<Rightarrow> None | Some q \<Rightarrow> Some (acc @ q, el, [])))
         else
           let v = hex_number h; acc' = acc @ [of_nat (v div 256), of_nat (v mod 256)]
           in if r = [] then Some (acc', el, [])
              else if hd r \<noteq> CHR '':'' \<or> tl r = [] then None
              else if hd (tl r) = CHR '':'' then
                (if el \<noteq> None then None
                 else if tl (tl r) = [] then Some (acc', Some (length acc'), [])
                 else parse_groups acc' (Some (length acc')) (tl (tl r)))
              else parse_groups acc' el (tl r))"
  by pat_completeness auto
termination
  by (relation "measure (\<lambda>(acc, el, s). length s)") (auto simp del: takeWhile_eq_Nil_iff dest!: length_dropWhile_less)

declare parse_groups.simps [simp del]

definition finish_groups :: "ip \<times> nat option \<times> string \<Rightarrow> ip option" where
  "finish_groups x = (case x of (acc, el, s) \<Rightarrow>
     if s \<noteq> [] then None
     else if length acc < 16 then
       (case el of None \<Rightarrow> None
        | Some k \<Rightarrow> Some (take k acc @ replicate (16 - length acc) 0 @ drop k acc))
     else if el \<noteq> None then None
     else Some acc)"

definition parse_ipv6 :: "string \<Rightarrow> ip option" where
  "parse_ipv6 s =
     (if HasPrefix s ''::'' then
        (if length s = 2 then Some (replicate 16 0)
         else Option.bind (parse_groups [] (Some 0) (drop 2 s)) finish_groups)
      else Option.bind (parse_groups [] None s) finish_groups)"

text \<open>
  \<open>netip.ParseAddr\<close> decides by the first of the bytes \<open>.\<close> \<open>:\<close> \<open>%\<close>; \<open>net.ParseIP\<close>
  refuses an address with a zone, so every text with a \<open>%\<close> is refused.
\<close>

definition ParseIP :: "string \<Rightarrow> ip option" where
  "ParseIP s =
     (if CHR ''%'' \<in> set s then None
      else (case dropWhile (\<lambda>c. c \<noteq> CHR ''.'' \<and> c \<noteq> CHR '':'') s of
          [] \<Rightarrow> None
        | c # _ \<Rightarrow> if c = CHR ''.'' then map_option v4_in_v6 (parse_ipv4 s) else parse_ipv6 s))"

section \<open>Classes of addresses\<close>

definition To4 :: "ip \<Rightarrow> ip option" where
  "To4 a = (if length a = 16 \<and> take 12 a = replicate 10 0 @ [255, 255] then Some (drop 12 a) else None)"

definition IsUnspecified :: "ip \<Rightarrow> bool" where
  "IsUnspecified a \<longleftrightarrow> a = v4_in_v6 [0, 0, 0, 0] \<or> a = replicate 16 0"

definition IsLoopback :: "ip \<Rightarrow> bool" where
  "IsLoopback a = (case To4 a of Some q \<Rightarrow> q ! 0 = 127 | None \<Rightarrow> a = replicate 15 0 @ [1])"

definition IsLinkLocalUnicast :: "ip \<Rightarrow> bool" where
  "IsLinkLocalUnicast a = (case To4 a of Some q \<Rightarrow> q ! 0 = 169 \<and> q ! 1 = 254
     | None \<Rightarrow> length a = 16 \<and> a ! 0 = 254 \<and> a ! 1 AND 192 = 128)"

definition IsLinkLocalMulticast :: "ip \<Rightarrow> bool" where
  "IsLinkLocalMulticast a = (case To4 a of Some q \<Rightarrow> q ! 0 = 224 \<and> q ! 1 = 0 \<and> q ! 2 = 0
     | None \<Rightarrow> length a = 16 \<and> a ! 0 = 255 \<and> a ! 1 AND 15 = 2)"

definition IsInterfaceLocalMulticast :: "ip \<Rightarrow> bool" where
  "IsInterfaceLocalMulticast a \<longleftrightarrow> length a = 16 \<and> a ! 0 = 255 \<and> a ! 1 AND 15 = 1"

definition IsMulticast :: "ip \<Rightarrow> bool" where
  "IsMulticast a = (case To4 a of Some q \<Rightarrow> q ! 0 AND 240 = 224
     | None \<Rightarrow> length a = 16 \<and> a ! 0 = 255)"

section \<open>The text of an address\<close>

definition hex_digit :: "nat \<Rightarrow> char" where
  "hex_digit d = (if d < 10 then char_of (48 + d) else char_of (87 + d))"

text \<open>\<open>hex.EncodeToString\<close>.\<close>

definition hex_encode :: "nat list \<Rightarrow> string" where
  "hex_encode bs = concat (map (\<lambda>b. [hex_digit (b div 16), hex_digit (b mod 16)]) bs)"

definition hex_group :: "nat \<Rightarrow> string" where
  "hex_group v =
     (if v < 16 then [hex_digit v]
      else if v < 256 then [hex_digit (v div 16), hex_digit (v mod 16)]
      else if v < 4096 then [hex_digit (v div 256), hex_digit (v div 16 mod 16), hex_digit (v mod 16)]
      else [hex_digit (v div 4096), hex_digit (v div 256 mod 16), hex_digit (v div 16 mod 16), hex_digit (v mod 16)])"

fun groups_of :: "ip \<Rightarrow> nat list" where
  "groups_of (a # b # r) = (unat a * 256 + unat b) # groups_of r"
| "groups_of _ = []"

text \<open>The first longest run of at least two zero groups, as \<open>(start, length)\<close>.\<close>

definition zero_run :: "nat list \<Rightarrow> nat \<times> nat" where
  "zero_run gs = foldl (\<lambda>(st, len) i.
     let l = length (takeWhile (\<lambda>g. g = 0) (drop i gs))
     in if 2 \<le> l \<and> len < l then (i, l) else (st, len)) (length gs, 0) [0..<length gs]"

definition ip_string :: "ip \<Rightarrow> string" where
  "ip_string a =
     (case To4 a of
        Some q \<Rightarrow> Join (map (\<lambda>b. dec_string (uint b)) q) ''.''
      | None \<Rightarrow>
          let gs = groups_of a; (st, len) = zero_run gs
          in if len = 0 then Join (map hex_group gs) '':''
             else Join (map hex_group (take st gs)) '':'' @ ''::'' @ Join (map hex_group (drop (st + len) gs)) '':'')"

section \<open>Host names of URLs\<close>

text \<open>\<open>url.URL.Hostname\<close>: the host without a port of digits and without brackets.\<close>

definition url_hostname :: "string \<Rightarrow> string" where
  "url_hostname hp =
     (let host = (case LastIndexByte hp (CHR '':'') of
           Some i \<Rightarrow> if list_all is_digit (drop (Suc i) hp) then take i hp else hp
         | None \<Rightarrow> hp)
      in if HasPrefix host ''['' \<and> HasSuffix host '']'' then take (length host - 2) (drop 1 host) else host)"

text \<open>\<open>url.URL.Port\<close>, and the address \<open>net/http\<close> dials for a scheme and the host of a URL (\<open>canonicalAddr\<close>), for ASCII names.\<close>

definition url_port :: "string \<Rightarrow> string" where
  "url_port hp =
     (case LastIndexByte hp (CHR '':'') of
        Some i \<Rightarrow> if list_all is_digit (drop (Suc i) hp) then drop (Suc i) hp else []
      | None \<Rightarrow> [])"

definition scheme_port :: "string \<Rightarrow> string" where
  "scheme_port scheme = (if scheme = ''https'' then ''443'' else ''80'')"

definition canonicalAddr :: "string \<Rightarrow> string \<Rightarrow> string" where
  "canonicalAddr scheme hp = JoinHostPort (url_hostname hp) (if url_port hp = [] then scheme_port scheme else url_port hp)"


declare split_tail_def [str_simps] SplitHostPort_def [str_simps] JoinHostPort_def [str_simps]
  is_hex_def [str_simps] hex_value_def [str_simps] hex_number_def [str_simps]
  parse_octet_def [str_simps] parse_ipv4_def [str_simps] v4_in_v6_def [str_simps]
  finish_groups_def [str_simps] parse_ipv6_def [str_simps] ParseIP_def [str_simps]
  parse_groups.simps [str_simps] To4_def [str_simps] IsUnspecified_def [str_simps]
  IsLoopback_def [str_simps] IsLinkLocalUnicast_def [str_simps]
  IsLinkLocalMulticast_def [str_simps] IsInterfaceLocalMulticast_def [str_simps]
  IsMulticast_def [str_simps] url_hostname_def [str_simps] hex_digit_def [str_simps]
  hex_group_def [str_simps] zero_run_def [str_simps] ip_string_def [str_simps]

section \<open>Facts about addresses\<close>

lemma SplitHostPort_no_colon: "CHR '':'' \<notin> set s \<Longrightarrow> SplitHostPort s = Err MissingPort"
  using LastIndexByte_None [of s "CHR '':''"] by (simp add: SplitHostPort_def)

lemma SplitHostPort_plain:
  assumes "CHR '':'' \<notin> set h" "CHR ''['' \<notin> set h" "CHR '']'' \<notin> set h"
    "CHR '':'' \<notin> set p" "CHR ''['' \<notin> set p" "CHR '']'' \<notin> set p"
  shows "SplitHostPort (h @ '':'' @ p) = Ok (h, p)"
proof -
  have "hd (h @ '':'' @ p) \<noteq> CHR ''[''" using assms by (cases h) auto
  then show ?thesis
    using assms by (simp add: SplitHostPort_def LastIndexByte_append split_tail_def)
qed

text \<open>Two colons without brackets are never a \<open>host:port\<close>.\<close>

lemma SplitHostPort_chars:
  assumes "SplitHostPort s = Ok (h, p)"
  shows "CHR ''['' \<notin> set h \<and> CHR '']'' \<notin> set h \<and> CHR '':'' \<notin> set p \<and> CHR ''['' \<notin> set p \<and> CHR '']'' \<notin> set p"
proof -
  obtain i where i: "LastIndexByte s (CHR '':'') = Some i"
    using assms by (cases "LastIndexByte s (CHR '':'')") (auto simp: SplitHostPort_def)
  have tail: "CHR '':'' \<notin> set (drop (Suc i) s)" using LastIndexByte_Some [OF i] by auto
  show ?thesis
  proof (cases "hd s = CHR ''[''")
    case True
    then obtain e where e: "IndexByte s (CHR '']'') = Some e" "Suc e = i"
      and sp: "split_tail s 1 (Suc e) i (take (e - 1) (drop 1 s)) = Ok (h, p)"
      using assms i by (auto simp: SplitHostPort_def split: option.splits if_splits)
    have no: "CHR '']'' \<notin> set (take e s)"
      using e(1) by (induction s arbitrary: e) (auto split: if_splits)
    have hp: "h = take (e - 1) (drop 1 s)" "p = drop (Suc i) s"
      "CHR ''['' \<notin> set (drop 1 s)" "CHR '']'' \<notin> set (drop i s)"
      using sp e(2) by (auto simp: split_tail_def split: if_splits)
    have eqs: "h = drop 1 (take e s)" "p = drop i (drop 1 s)" "p = drop 1 (drop i s)"
      using hp(1,2) by (simp_all add: drop_take)
    have "CHR ''['' \<notin> set h" using hp(1,3) by (meson in_set_takeD)
    moreover have "CHR '']'' \<notin> set h" using eqs(1) no by (meson in_set_dropD)
    moreover have "CHR ''['' \<notin> set p" using eqs(2) hp(3) by (meson in_set_dropD)
    moreover have "CHR '']'' \<notin> set p" using eqs(3) hp(4) by (meson in_set_dropD)
    ultimately show ?thesis using tail hp(2) by simp
  next
    case False
    then have "h = take i s" "p = drop (Suc i) s" "CHR ''['' \<notin> set s" "CHR '']'' \<notin> set s"
      using assms i by (auto simp: SplitHostPort_def split_tail_def split: if_splits)
    with tail show ?thesis by (auto dest: in_set_takeD in_set_dropD)
  qed
qed

lemma SplitHostPort_Join:
  assumes "CHR ''['' \<notin> set h" "CHR '']'' \<notin> set h"
    "CHR '':'' \<notin> set p" "CHR ''['' \<notin> set p" "CHR '']'' \<notin> set p"
  shows "SplitHostPort (JoinHostPort h p) = Ok (h, p)"
proof (cases "CHR '':'' \<in> set h")
  case False
  with assms show ?thesis by (simp add: JoinHostPort_def SplitHostPort_plain [simplified])
next
  case True
  have l: "LastIndexByte (''['' @ h @ '']:'' @ p) (CHR '':'') = Some (length h + 2)"
    using LastIndexByte_append [of "CHR '':''" p "''['' @ h @ '']''"] assms by simp
  have r: "IndexByte (''['' @ h @ '']:'' @ p) (CHR '']'') = Some (length h + 1)"
    using IndexByte_append [of "CHR '']''" "''['' @ h" "'':'' @ p"] assms by simp
  from l r True assms show ?thesis
    by (simp add: JoinHostPort_def SplitHostPort_def split_tail_def)
qed

lemma url_plain:
  assumes "CHR '':'' \<notin> set n" "CHR ''['' \<notin> set n"
  shows "url_hostname n = n" "url_port n = []"
proof -
  have "\<not> HasPrefix n ''[''" using assms(2) by (auto simp: HasPrefix_iff)
  then show "url_hostname n = n" "url_port n = []"
    using assms LastIndexByte_None [of n "CHR '':''"] by (simp_all add: url_hostname_def url_port_def)
qed

lemma url_Join:
  assumes "CHR ''['' \<notin> set n" "list_all is_digit p"
  shows "url_hostname (JoinHostPort n p) = n" "url_port (JoinHostPort n p) = p"
proof -
  have p: "CHR '':'' \<notin> set p" using assms(2) by (auto simp: list_all_iff is_digit_def)
  have plain: "\<not> HasPrefix n ''[''" using assms(1) by (auto simp: HasPrefix_iff)
  have "HasPrefix (CHR ''['' # n @ '']'') ''[''" "HasSuffix (CHR ''['' # n @ '']'') '']''"
    unfolding HasPrefix_iff HasSuffix_iff by (rule exI [of _ "n @ '']''"], simp) (rule exI [of _ "CHR ''['' # n"], simp)
  moreover have "LastIndexByte (n @ CHR '':'' # p) (CHR '':'') = Some (length n)"
    "LastIndexByte ((CHR ''['' # n @ '']'') @ CHR '':'' # p) (CHR '':'') = Some (length (CHR ''['' # n @ '']''))"
    using p by (rule LastIndexByte_append)+
  ultimately show "url_hostname (JoinHostPort n p) = n" "url_port (JoinHostPort n p) = p"
    using assms(2) plain by (simp_all add: JoinHostPort_def url_hostname_def url_port_def)
qed

text \<open>The address of a host and port is the one dialled for its URL form, and for the bare host if that is not an IPv6 literal.\<close>

lemma canonicalAddr_Join:
  "CHR ''['' \<notin> set n \<Longrightarrow> list_all is_digit p \<Longrightarrow> p \<noteq> [] \<Longrightarrow> canonicalAddr scheme (JoinHostPort n p) = JoinHostPort n p"
  by (simp add: canonicalAddr_def url_Join)

lemma canonicalAddr_plain:
  "CHR ''['' \<notin> set n \<Longrightarrow> CHR '':'' \<notin> set n \<Longrightarrow> canonicalAddr scheme n = JoinHostPort n (scheme_port scheme)"
  by (simp add: canonicalAddr_def url_plain)

lemma SplitHostPort_two_colons:
  assumes "2 \<le> count_list s (CHR '':'')" "hd s \<noteq> CHR ''[''"
  shows "SplitHostPort s = Err TooManyColons"
proof -
  have "CHR '':'' \<in> set s" using assms(1) count_notin by fastforce
  then obtain i where i: "LastIndexByte s (CHR '':'') = Some i"
    using LastIndexByte_None [of s "CHR '':''"] by auto
  have "s = take i s @ CHR '':'' # drop (Suc i) s" "CHR '':'' \<notin> set (drop (Suc i) s)"
    using LastIndexByte_Some [OF i] by auto
  then have "count_list s (CHR '':'') = count_list (take i s) (CHR '':'') + 1"
    by (metis count_list_append count_list.simps(2) count_notin add.commute add_0)
  with assms(1) have "count_list (take i s) (CHR '':'') \<noteq> 0" by linarith
  then have "CHR '':'' \<in> set (take i s)" by (metis count_notin)
  with assms(2) i show ?thesis by (simp add: SplitHostPort_def)
qed

lemma parse_octet_chars: "parse_octet s = Some w \<Longrightarrow> list_all is_digit s"
  by (auto simp: parse_octet_def split: if_splits)

lemma parse_ipv4_shape:
  assumes "parse_ipv4 s = Some q"
  shows "length q = 4 \<and> (\<forall>c \<in> set s. is_digit c \<or> c = CHR ''.'')"
proof -
  from assms obtain a b c d where sp: "map parse_octet (Split s (CHR ''.'')) = [Some a, Some b, Some c, Some d]"
    and q: "q = [a, b, c, d]"
    by (auto simp: parse_ipv4_def split: list.splits option.splits)
  from sp have "\<forall>f \<in> set (Split s (CHR ''.'')). list_all is_digit f"
    by (auto simp: map_eq_Cons_conv dest: parse_octet_chars)
  then have "\<forall>c \<in> set s. is_digit c \<or> c = CHR ''.''"
    using set_Split [of s "CHR ''.''"] by (auto simp: list_all_iff)
  with q show ?thesis by simp
qed

lemma count_list_takeWhile_hex: "count_list (takeWhile is_hex s) (CHR '':'') = 0"
proof -
  have "CHR '':'' \<notin> set (takeWhile is_hex s)"
    by (auto dest!: set_takeWhileD simp: is_hex_def is_digit_def)
  then show ?thesis by (simp add: count_notin)
qed

lemma count_colon_hex:
  "count_list s (CHR '':'') = count_list (dropWhile is_hex s) (CHR '':'')"
  by (metis add_0 count_list_append count_list_takeWhile_hex takeWhile_dropWhile_id)

text \<open>
  Without a \<open>::\<close>, the groups read are bounded by the colons of the text; a \<open>::\<close> that the
  loop finds accounts for two colons itself.
\<close>

lemma parse_groups_colons:
  "parse_groups acc el s = Some (acc', el', []) \<Longrightarrow> length acc \<le> 16 \<Longrightarrow>
   (el' = el \<and> length acc' \<le> length acc + 2 * count_list s (CHR '':'') + 4)
   \<or> (el = None \<and> 2 \<le> count_list s (CHR '':''))"
proof (induction acc el s rule: parse_groups.induct)
  case (1 acc el s)
  let ?r = "dropWhile is_hex s"
  let ?v = "hex_number (takeWhile is_hex s)"
  let ?acc = "acc @ [of_nat (?v div 256), of_nat (?v mod 256)]"
  note unf = parse_groups.simps [of acc el s]
  show ?case
  proof (cases "16 \<le> length acc \<or> ?r = [] \<or> hd ?r = CHR ''.''")
    case True
    with "1.prems" show ?thesis
      by (subst (asm) unf) (auto simp: Let_def dest: parse_ipv4_shape split: if_splits option.splits)
  next
    case False
    with "1.prems" obtain r where r: "?r = CHR '':'' # r" "r \<noteq> []"
      and ok: "\<not> (takeWhile is_hex s = [] \<or> 4 < length (takeWhile is_hex s))"
      by (subst (asm) unf) (cases ?r; auto simp: Let_def split: if_splits)
    have cnt: "count_list s (CHR '':'') = Suc (count_list r (CHR '':''))"
      using r by (simp add: count_colon_hex [of s])
    show ?thesis
    proof (cases "hd r = CHR '':''")
      case True
      with r have "2 \<le> count_list s (CHR '':'')"
        using cnt by (cases r) auto
      moreover have "el = None"
        using "1.prems" False r ok True by (subst (asm) unf) (auto simp: Let_def split: if_splits)
      ultimately show ?thesis by simp
    next
      case nodbl: False
      have rec: "parse_groups ?acc el r = Some (acc', el', [])"
        using "1.prems" False r ok nodbl by (subst (asm) unf) (auto simp: Let_def split: if_splits)
      have "length ?acc \<le> 16 \<or> 16 < length ?acc" by linarith
      then show ?thesis
      proof
        assume le: "length ?acc \<le> 16"
        have "(el' = el \<and> length acc' \<le> length ?acc + 2 * count_list r (CHR '':'') + 4)
          \<or> (el = None \<and> 2 \<le> count_list r (CHR '':''))"
          using "1.IH"(2) [OF _ refl refl _ _ refl refl] False r ok nodbl rec le by auto
        then show ?thesis using cnt by auto
      next
        assume "16 < length ?acc"
        then have "acc' = ?acc \<and> el' = el"
          using rec by (subst (asm) parse_groups.simps) auto
        then show ?thesis using cnt by auto
      qed
    qed
  qed
qed

lemma parse_groups_hd:
  assumes "parse_groups [] el s = Some x"
  shows "s \<noteq> [] \<and> hd s \<noteq> CHR ''[''"
proof -
  have "takeWhile is_hex s \<noteq> []"
  proof
    assume "takeWhile is_hex s = []"
    then have "parse_groups [] el s = None" by (simp add: parse_groups.simps del: takeWhile_eq_Nil_iff)
    with assms show False by simp
  qed
  then show ?thesis by (cases s) (auto simp: is_hex_def is_digit_def split: if_splits)
qed

lemma parse_ipv6_colons:
  assumes "parse_ipv6 s = Some a"
  shows "2 \<le> count_list s (CHR '':'') \<and> hd s \<noteq> CHR ''[''"
proof (cases "HasPrefix s ''::''")
  case True
  then show ?thesis by (auto simp: HasPrefix_iff)
next
  case False
  with assms obtain x where x: "parse_groups [] None s = Some x" "finish_groups x = Some a"
    by (auto simp: parse_ipv6_def Option.bind_eq_Some_conv)
  obtain acc el r where xs: "x = (acc, el, r)" by (cases x) auto
  with x have "r = []" by (auto simp: finish_groups_def split: if_splits)
  moreover have "el = None \<Longrightarrow> 16 \<le> length acc"
    using x(2) xs by (auto simp: finish_groups_def split: if_splits)
  ultimately have "2 \<le> count_list s (CHR '':'')"
    using parse_groups_colons [of "[]" None s acc el] x(1) xs by auto
  then show ?thesis using parse_groups_hd [OF x(1)] by simp
qed

lemma ParseIP_SplitHostPort:
  assumes "ParseIP s = Some a"
  shows "\<exists>e. SplitHostPort s = Err e"
proof -
  obtain c r where c: "dropWhile (\<lambda>c. c \<noteq> CHR ''.'' \<and> c \<noteq> CHR '':'') s = c # r"
    using assms by (auto simp: ParseIP_def split: if_splits list.splits)
  show ?thesis
  proof (cases "c = CHR ''.''")
    case True
    with assms c obtain q where "parse_ipv4 s = Some q"
      by (auto simp: ParseIP_def split: if_splits)
    then have "\<forall>c \<in> set s. is_digit c \<or> c = CHR ''.''" using parse_ipv4_shape by blast
    then have "CHR '':'' \<notin> set s" by (auto simp: is_digit_def)
    then show ?thesis using SplitHostPort_no_colon by blast
  next
    case False
    with assms c have "parse_ipv6 s = Some a" by (auto simp: ParseIP_def split: if_splits)
    then show ?thesis using parse_ipv6_colons SplitHostPort_two_colons by blast
  qed
qed

end
