(* ===== verification/GoHttp.thy ===== *)
theory GoHttp
  imports GoNet
begin

text \<open>
  What the program uses of \<open>net/http\<close>: header maps with canonical keys, requests and
  responses. A header is an association list from canonical keys to value lists, because the
  code ranges over its keys; \<open>Get\<close> reads the first value only, as Go's does.
\<close>

section \<open>Headers\<close>

type_synonym header = "(string \<times> string list) list"

definition is_token :: "char \<Rightarrow> bool" where
  "is_token c \<longleftrightarrow> is_digit c \<or> (65 \<le> byte c \<and> byte c \<le> 90) \<or> (97 \<le> byte c \<and> byte c \<le> 122)
     \<or> c \<in> set ''!#$%&*+-.^_`|~'' \<or> byte c = 39"

definition upper_char :: "char \<Rightarrow> char" where
  "upper_char c = (if 97 \<le> byte c \<and> byte c \<le> 122 then char_of (byte c - 32) else c)"

fun canon_from :: "bool \<Rightarrow> string \<Rightarrow> string" where
  "canon_from up [] = []"
| "canon_from up (c # s) = (if up then upper_char c else lower_char c) # canon_from (c = CHR ''-'') s"

text \<open>\<open>textproto.CanonicalMIMEHeaderKey\<close>: a name that is not a token is left unchanged.\<close>

definition CanonicalKey :: "string \<Rightarrow> string" where
  "CanonicalKey s = (if list_all is_token s then canon_from True s else s)"

definition hvalues :: "header \<Rightarrow> string \<Rightarrow> string list" where
  "hvalues h k = (case map_of h (CanonicalKey k) of None \<Rightarrow> [] | Some vs \<Rightarrow> vs)"

definition hget :: "header \<Rightarrow> string \<Rightarrow> string" where
  "hget h k = (case hvalues h k of [] \<Rightarrow> [] | v # _ \<Rightarrow> v)"

definition hdel :: "header \<Rightarrow> string \<Rightarrow> header" where
  "hdel h k = filter (\<lambda>(n, _). n \<noteq> CanonicalKey k) h"

definition hset :: "header \<Rightarrow> string \<Rightarrow> string \<Rightarrow> header" where
  "hset h k v = (CanonicalKey k, [v]) # hdel h k"

declare is_token_def [str_simps] upper_char_def [str_simps] CanonicalKey_def [str_simps]
  hvalues_def [str_simps] hget_def [str_simps] hdel_def [str_simps] hset_def [str_simps]

lemma map_of_hdel: "map_of (hdel h k) n = (if n = CanonicalKey k then None else map_of h n)"
  by (induction h) (auto simp: hdel_def)

lemma hvalues_hset: "hvalues (hset h k v) n = (if CanonicalKey n = CanonicalKey k then [v] else hvalues h n)"
  by (simp add: hvalues_def hset_def map_of_hdel)

lemma hget_hset: "hget (hset h k v) n = (if CanonicalKey n = CanonicalKey k then v else hget h n)"
  by (simp add: hget_def hvalues_hset)

lemma hvalues_hdel: "hvalues (hdel h k) n = (if CanonicalKey n = CanonicalKey k then [] else hvalues h n)"
  by (simp add: hvalues_def map_of_hdel)

lemma hget_hdel: "hget (hdel h k) n = (if CanonicalKey n = CanonicalKey k then [] else hget h n)"
  by (simp add: hget_def hvalues_hdel)

section \<open>Requests and responses\<close>

text \<open>
  A URL keeps the parts the program reads; \<open>url_user\<close> tells whether it carries credentials,
  and the query and fragment are only copied.
\<close>

record url =
  url_scheme :: string
  url_user :: bool
  url_host :: string
  url_path :: string
  url_query :: string
  url_fragment :: string

record request =
  req_method :: string
  req_url :: "url option"
  req_host :: string
  req_header :: header

text \<open>The body of a response, when there is one, is the list of chunks its reads return.\<close>

record response =
  resp_status :: string
  resp_code :: int
  resp_proto :: string
  resp_proto_major :: int
  resp_proto_minor :: int
  resp_header :: header
  resp_body :: "string list option"
  resp_length :: int

end
