(* ===== verification/CachePolicy.thy ===== *)
theory CachePolicy
  imports GoHttp
begin

text \<open>
  The decisions of \<open>internal/cache/cache.go\<close>: which requests may be answered from the cache,
  which responses may be stored and until when, and under which key. Durations are 64-bit words,
  because the code multiplies header values by \<open>time.Second\<close>. \<open>http.ParseTime\<close>, the printed URL
  and SHA-256 are parameters.
\<close>

section \<open>Cache-Control\<close>

definition quote_char :: char where "quote_char = CHR 0x22"

text \<open>One directive of a \<open>Cache-Control\<close> value: its key and its value, empty without an equals sign.\<close>

definition parse_directive :: "string \<Rightarrow> (string \<times> string) option" where
  "parse_directive part =
     (case Cut (TrimSpace part) ''='' of (k, raw, found) \<Rightarrow>
        let key = ToLower (TrimSpace k)
        in if key = [] then None
           else Some (key, if found then Trim (TrimSpace raw) [quote_char] else []))"

text \<open>A later directive overwrites an earlier one of the same name, so the list is read from its end.\<close>

definition parseCacheControl :: "string \<Rightarrow> (string \<times> string) list" where
  "parseCacheControl value = rev (List.map_filter parse_directive (Split value (CHR '','')))"

definition directive :: "(string \<times> string) list \<Rightarrow> string \<Rightarrow> string option" where
  "directive ds key = map_of ds key"

section \<open>Requests\<close>

definition credentialHeaders :: "string list" where
  "credentialHeaders = [''authorization'', ''proxy-authorization'', ''cookie'', ''metadata'',
     ''metadata-flavor'', ''x-jfrog-art-api'']"

definition credentialHeaderParts :: "string list" where
  "credentialHeaderParts = [''auth'', ''token'', ''api-key'', ''apikey'', ''api_key'', ''secret'',
     ''password'', ''credential'', ''session'', ''signature'']"

fun hasCredentialHeader :: "header \<Rightarrow> bool" where
  "hasCredentialHeader [] = False"
| "hasCredentialHeader ((name, _) # h) =
     (let lower = ToLower name
      in if lower \<in> set credentialHeaders then True
         else if list_ex (\<lambda>part. Contains lower part) credentialHeaderParts then True
         else hasCredentialHeader h)"

definition privateDestination :: "string \<Rightarrow> bool" where
  "privateDestination h =
     (let host = TrimSuffix (ToLower h) ''.''
      in if host = ''metadata.google.internal'' \<or> host = ''metadata.goog'' then True
         else case ParseIP host of
           None \<Rightarrow> False
         | Some ip \<Rightarrow> IsLinkLocalUnicast ip \<or> Some ip = ParseIP ''fd00:ec2::254'' \<or> Some ip = ParseIP ''100.100.100.200'')"

definition cacheableRequest :: "request \<Rightarrow> bool" where
  "cacheableRequest r =
     (if req_method r \<noteq> ''GET'' then False
      else case req_url r of
        None \<Rightarrow> False
      | Some u \<Rightarrow>
          if url_user u then False
          else if hget (req_header r) ''Range'' \<noteq> [] \<or> hasCredentialHeader (req_header r)
               \<or> privateDestination (url_hostname (url_host u)) then False
          else
            let ds = parseCacheControl (hget (req_header r) ''Cache-Control'')
            in directive ds ''no-store'' = None \<and> directive ds ''no-cache'' = None)"

text \<open>
  The text under which a response is stored is hashed; \<open>url_string\<close> is \<open>URL.String\<close> and
  \<open>digest\<close> is SHA-256 in hexadecimal.
\<close>

definition key_text :: "(url \<Rightarrow> string) \<Rightarrow> request \<Rightarrow> url \<Rightarrow> string" where
  "key_text url_string r u =
     req_method r @ [CHR 0x0A] @ url_string u @ [CHR 0x0A] @ ''accept-encoding:'' @
     Join (hvalues (req_header r) ''Accept-Encoding'') [CHR 0x00] @ [CHR 0x0A] @ ''origin:'' @
     Join (hvalues (req_header r) ''Origin'') [CHR 0x00]"

definition cacheKey :: "(string \<Rightarrow> string) \<Rightarrow> (url \<Rightarrow> string) \<Rightarrow> request \<Rightarrow> url \<Rightarrow> string" where
  "cacheKey digest url_string r u = digest (key_text url_string r u)"

section \<open>Responses\<close>

record expiration =
  ex_freshUntil :: go_time
  ex_staleUntil :: go_time

definition vary_field_ok :: "string \<Rightarrow> bool" where
  "vary_field_ok field \<longleftrightarrow> ToLower (TrimSpace field) \<in> {[], ''accept-encoding'', ''origin''}"

definition supportedVary :: "string list \<Rightarrow> bool" where
  "supportedVary values = list_all (\<lambda>v. list_all vary_field_ok (Split v (CHR '',''))) values"

text \<open>\<open>None\<close> is the error; an absent header is age 0.\<close>

definition responseAge :: "header \<Rightarrow> int option" where
  "responseAge h =
     (let raw = hget h ''Age''
      in if raw = [] then Some 0
         else case ParseInt raw of
           None \<Rightarrow> None
         | Some age \<Rightarrow> if age < 0 then None else Some age)"

definition seconds_duration :: "int \<Rightarrow> duration" where
  "seconds_duration n = word_of_int n * word_of_int second_ns"

definition fresh_until ::
  "(string \<Rightarrow> go_time option) \<Rightarrow> header \<Rightarrow> (string \<times> string) list \<Rightarrow> go_time \<Rightarrow> duration \<Rightarrow> go_time option" where
  "fresh_until parse_time h ds now defaultTTL =
     (case directive ds ''max-age'' of
        Some raw \<Rightarrow>
          (case ParseInt raw of
             None \<Rightarrow> None
           | Some seconds \<Rightarrow>
               if seconds < 0 then None
               else (case responseAge h of
                 None \<Rightarrow> None
               | Some age \<Rightarrow> Some (time_add now (seconds_duration (seconds - age)))))
      | None \<Rightarrow>
          if hget h ''Expires'' \<noteq> [] then
            (case parse_time (hget h ''Expires'') of
               None \<Rightarrow> None
             | Some t \<Rightarrow> if \<not> now < t then None else Some t)
          else if hget h ''ETag'' \<noteq> [] \<or> hget h ''Last-Modified'' \<noteq> [] then Some (time_add now defaultTTL)
          else None)"

definition responseExpiration ::
  "(string \<Rightarrow> go_time option) \<Rightarrow> response \<Rightarrow> go_time \<Rightarrow> duration \<Rightarrow> expiration option" where
  "responseExpiration parse_time r now defaultTTL =
     (let h = resp_header r
      in if resp_code r \<noteq> 200 \<or> hget h ''Set-Cookie'' \<noteq> [] \<or> \<not> supportedVary (hvalues h ''Vary'')
            \<or> hget h ''Content-Range'' \<noteq> [] then None
         else
           let ds = parseCacheControl (hget h ''Cache-Control'')
           in if directive ds ''no-store'' \<noteq> None \<or> directive ds ''no-cache'' \<noteq> None
                 \<or> directive ds ''private'' \<noteq> None then None
              else case fresh_until parse_time h ds now defaultTTL of
                None \<Rightarrow> None
              | Some freshUntil \<Rightarrow>
                  (case directive ds ''stale-while-revalidate'' of
                     None \<Rightarrow>
                       if now < freshUntil then Some \<lparr>ex_freshUntil = freshUntil, ex_staleUntil = freshUntil\<rparr> else None
                   | Some raw \<Rightarrow>
                       (case ParseInt raw of
                          None \<Rightarrow> None
                        | Some seconds \<Rightarrow>
                            if seconds < 0 then None
                            else
                              let staleUntil = time_add freshUntil (seconds_duration seconds)
                              in if now < staleUntil
                                 then Some \<lparr>ex_freshUntil = freshUntil, ex_staleUntil = staleUntil\<rparr> else None)))"

section \<open>Lemmas\<close>

lemma seconds_duration_exact:
  assumes "-9223372036 \<le> n" "n \<le> 9223372036"
  shows "sint (seconds_duration n) = n * 1000000000"
proof -
  have "seconds_duration n = word_of_int (n * 1000000000)"
    by (simp add: seconds_duration_def second_ns_def of_int_mult)
  moreover have "sint (word_of_int (n * 1000000000) :: i64) = n * 1000000000"
    using assms by (intro sint_word_of_int_64) (auto simp: min_int64_def max_int64_def)
  ultimately show ?thesis by simp
qed

lemma hasCredentialHeader_iff:
  "hasCredentialHeader h \<longleftrightarrow> (\<exists>name \<in> fst ` set h. ToLower name \<in> set credentialHeaders \<or>
     (\<exists>part \<in> set credentialHeaderParts. Contains (ToLower name) part))"
  by (induction h rule: hasCredentialHeader.induct) (auto simp: Let_def list_ex_iff)

section \<open>Keys\<close>

lemma append_sep_inject:
  assumes "a @ c # s = b @ c # t" "c \<notin> set a" "c \<notin> set b"
  shows "a = b \<and> s = t"
  using assms
proof (induction a arbitrary: b)
  case Nil
  then show ?case by (cases b) auto
next
  case (Cons x a)
  then show ?case by (cases b) auto
qed

lemma set_Join: "set (Join xs sep) \<subseteq> \<Union> (set ` set xs) \<union> set sep"
  by (induction xs sep rule: Join.induct) auto

section \<open>Properties\<close>

text \<open>
  Two requests that share a cache entry ask for the same thing: if the digest does not collide
  on their key texts and no line break is in methods, printed URLs and Accept-Encoding values, equal
  keys mean the same method, URL, Accept-Encoding and Origin (the values of a header joined).
\<close>

theorem cacheKey_separates:
  assumes same: "cacheKey digest url_string r u = cacheKey digest url_string r' u'"
    and inj: "inj_on digest {key_text url_string r u, key_text url_string r' u'}"
    and clean: "CHR 0x0A \<notin> set (req_method r)" "CHR 0x0A \<notin> set (req_method r')"
      "\<forall>v \<in> set (hvalues (req_header r) ''Accept-Encoding''). CHR 0x0A \<notin> set v"
      "\<forall>v \<in> set (hvalues (req_header r') ''Accept-Encoding''). CHR 0x0A \<notin> set v"
      "CHR 0x0A \<notin> set (url_string u)" "CHR 0x0A \<notin> set (url_string u')"
  shows "req_method r = req_method r' \<and> url_string u = url_string u' \<and>
    Join (hvalues (req_header r) ''Accept-Encoding'') [CHR 0x00] = Join (hvalues (req_header r') ''Accept-Encoding'') [CHR 0x00] \<and>
    Join (hvalues (req_header r) ''Origin'') [CHR 0x00] = Join (hvalues (req_header r') ''Origin'') [CHR 0x00]"
proof -
  let ?e = "\<lambda>q. Join (hvalues (req_header q) ''Accept-Encoding'') [CHR 0x00]"
  let ?t = "\<lambda>q. ''origin:'' @ Join (hvalues (req_header q) ''Origin'') [CHR 0x00]"
  let ?w = "\<lambda>q. ''accept-encoding:'' @ ?e q"
  have key_split: "key_text url_string q v = req_method q @ CHR 0x0A # url_string v @ CHR 0x0A # ?w q @ CHR 0x0A # ?t q" for q v
    by (simp add: key_text_def)
  have "key_text url_string r u = key_text url_string r' u'"
    using same inj by (auto simp: cacheKey_def dest: inj_onD)
  note eq1 = append_sep_inject [OF this [unfolded key_split] clean(1,2)]
  note eq2 = append_sep_inject [OF conjunct2 [OF eq1] clean(5,6)]
  have "CHR 0x0A \<notin> set (?w r)" "CHR 0x0A \<notin> set (?w r')"
    using clean(3,4) set_Join [of "hvalues (req_header r) ''Accept-Encoding''" "[CHR 0x00]"]
      set_Join [of "hvalues (req_header r') ''Accept-Encoding''" "[CHR 0x00]"] by auto
  note eq3 = append_sep_inject [OF conjunct2 [OF eq2] this]
  from eq1 eq2 eq3 show ?thesis by simp
qed

definition example_get :: "string \<Rightarrow> request" where
  "example_get encoding = \<lparr>req_method = ''GET'', req_url = None, req_host = ''a.test'', req_header = [(''Accept-Encoding'', [encoding])]\<rparr>"

definition example_url :: url where
  "example_url = \<lparr>url_scheme = ''http'', url_user = False, url_host = ''a'', url_path = ''/x'', url_query = [], url_fragment = []\<rparr>"

lemma cacheKey_separates_witness:
  "cacheKey (\<lambda>s. s) url_path (example_get ''gzip'') example_url \<noteq> cacheKey (\<lambda>s. s) url_path (example_get ''br'') example_url"
proof
  assume "cacheKey (\<lambda>s. s) url_path (example_get ''gzip'') example_url = cacheKey (\<lambda>s. s) url_path (example_get ''br'') example_url"
  from cacheKey_separates [OF this] have "''gzip'' = ''br''"
    by (simp add: example_get_def example_url_def str_simps inj_on_def)
  then show False by simp
qed

text \<open>What the code computes on durations is exact while they stay below \<open>2^63\<close> nanoseconds, about 292 years.\<close>

definition durations_fit :: "header \<Rightarrow> (string \<times> string) list \<Rightarrow> bool" where
  "durations_fit h ds \<longleftrightarrow>
     (case (Option.bind (directive ds ''max-age'') ParseInt, responseAge h) of
        (Some maxage, Some age) \<Rightarrow> -9223372036 \<le> maxage - age \<and> maxage - age \<le> 9223372036
      | _ \<Rightarrow> True) \<and>
     (case Option.bind (directive ds ''stale-while-revalidate'') ParseInt of
        Some n \<Rightarrow> n \<le> 9223372036
      | None \<Rightarrow> True)"

lemma fresh_until_fit:
  assumes "durations_fit h ds"
  shows "fresh_until parse_time h ds now defaultTTL = Some t \<longleftrightarrow>
    (case directive ds ''max-age'' of
       Some raw \<Rightarrow> (\<exists>maxage age. ParseInt raw = Some maxage \<and> 0 \<le> maxage \<and> responseAge h = Some age \<and> t = now + (maxage - age) * 1000000000)
     | None \<Rightarrow>
         if hget h ''Expires'' \<noteq> [] then parse_time (hget h ''Expires'') = Some t \<and> now < t
         else (hget h ''ETag'' \<noteq> [] \<or> hget h ''Last-Modified'' \<noteq> []) \<and> t = now + sint defaultTTL)"
  using assms by (auto simp: fresh_until_def durations_fit_def time_add_def seconds_duration_exact split: option.splits if_splits)

text \<open>
  C24: A response is stored only when its status, cookies, ranges, Vary and the first Cache-Control line allow sharing it (200; none;
  none; nothing but Accept-Encoding and Origin; no no-store, no-cache or private), and only until a time that is not yet over. Within the
  64-bit range of durations this is exact: it is stored if and only if its freshness can be read, it is fresh for max-age less Age,
  else until Expires, else, with a validator, for the default time; and it may be served stale for as long as
  stale-while-revalidate says, no longer. Further Cache-Control lines are not read (\<open>second_cache_control_ignored\<close>), and beyond
  the range durations wrap (\<open>age_overflow\<close>).
\<close>

theorem responseExpiration_sound:
  assumes "h = resp_header r" "ds = parseCacheControl (hget h ''Cache-Control'')"
    "shareable \<longleftrightarrow> resp_code r = 200 \<and> hget h ''Set-Cookie'' = [] \<and> hget h ''Content-Range'' = [] \<and>
       list_all (\<lambda>v. list_all (\<lambda>f. ToLower (TrimSpace f) \<in> {[], ''accept-encoding'', ''origin''}) (Split v (CHR '','')))
         (hvalues h ''Vary'') \<and>
       list_all (\<lambda>d. directive ds d = None) [''no-store'', ''no-cache'', ''private'']"
  shows "(responseExpiration parse_time r now defaultTTL = Some e \<longrightarrow> shareable \<and> now < ex_staleUntil e) \<and>
    (durations_fit h ds \<longrightarrow>
       (responseExpiration parse_time r now defaultTTL = Some e \<longleftrightarrow> shareable \<and> now < ex_staleUntil e \<and>
          (case directive ds ''max-age'' of
             Some raw \<Rightarrow> (\<exists>maxage age. ParseInt raw = Some maxage \<and> 0 \<le> maxage \<and> responseAge h = Some age \<and>
               ex_freshUntil e = now + (maxage - age) * 1000000000)
           | None \<Rightarrow>
               if hget h ''Expires'' \<noteq> [] then parse_time (hget h ''Expires'') = Some (ex_freshUntil e) \<and> now < ex_freshUntil e
               else (hget h ''ETag'' \<noteq> [] \<or> hget h ''Last-Modified'' \<noteq> []) \<and> ex_freshUntil e = now + sint defaultTTL) \<and>
          (case directive ds ''stale-while-revalidate'' of
             None \<Rightarrow> ex_staleUntil e = ex_freshUntil e
           | Some raw \<Rightarrow> (\<exists>n. ParseInt raw = Some n \<and> 0 \<le> n \<and> ex_staleUntil e = ex_freshUntil e + n * 1000000000))))"
proof -
  have vary: "supportedVary (hvalues h ''Vary'') \<longleftrightarrow>
      list_all (\<lambda>v. list_all (\<lambda>f. ToLower (TrimSpace f) \<in> {[], ''accept-encoding'', ''origin''}) (Split v (CHR '',''))) (hvalues h ''Vary'')"
    unfolding supportedVary_def vary_field_ok_def [abs_def] ..
  define stale where "stale t = (case directive ds ''stale-while-revalidate'' of
      None \<Rightarrow> Some t
    | Some raw \<Rightarrow> (case ParseInt raw of
        None \<Rightarrow> None
      | Some n \<Rightarrow> if n < 0 then None else Some (time_add t (seconds_duration n))))" for t
  have run: "responseExpiration parse_time r now defaultTTL = Some e \<longleftrightarrow>
      shareable \<and> fresh_until parse_time h ds now defaultTTL = Some (ex_freshUntil e) \<and>
      stale (ex_freshUntil e) = Some (ex_staleUntil e) \<and> now < ex_staleUntil e"
    unfolding assms(3) vary [symmetric] responseExpiration_def Let_def assms(1,2) [symmetric] stale_def
    by (cases e) (auto split: option.splits if_splits)
  have "stale t = Some t' \<longleftrightarrow>
      (case directive ds ''stale-while-revalidate'' of
         None \<Rightarrow> t' = t
       | Some raw \<Rightarrow> (\<exists>n. ParseInt raw = Some n \<and> 0 \<le> n \<and> t' = t + n * 1000000000))" if "durations_fit h ds" for t t'
    using that by (auto simp: stale_def durations_fit_def time_add_def seconds_duration_exact split: option.splits)
  then show ?thesis using run fresh_until_fit [of h ds parse_time now defaultTTL "ex_freshUntil e"] by blast
qed

definition example_response :: "header \<Rightarrow> response" where
  "example_response h = \<lparr>resp_status = ''200 OK'', resp_code = 200, resp_proto = ''HTTP/1.1'', resp_proto_major = 1,
     resp_proto_minor = 1, resp_header = h, resp_body = Some [''hi''], resp_length = 2\<rparr>"

lemma responseExpiration_sound_witness:
  "responseExpiration (\<lambda>_. None) (example_response [(''Cache-Control'', [''public, max-age=60, stale-while-revalidate=7'']), (''Age'', [''10''])]) 5 0
     = Some \<lparr>ex_freshUntil = 50000000005, ex_staleUntil = 57000000005\<rparr>"
proof -
  let ?h = "[(''Cache-Control'', [''public, max-age=60, stale-while-revalidate=7'']), (''Age'', [''10''])]"
  have ds: "parseCacheControl (hget ?h ''Cache-Control'') = [(''stale-while-revalidate'', ''7''), (''max-age'', ''60''), (''public'', [])]"
    and vals: "ParseInt ''60'' = Some 60" "ParseInt ''7'' = Some 7" "responseAge ?h = Some 10" "hget ?h ''Set-Cookie'' = []"
      "hget ?h ''Content-Range'' = []" "hvalues ?h ''Vary'' = []"
    by code_simp+
  have r: "resp_header (example_response ?h) = ?h" "resp_code (example_response ?h) = 200" by (simp_all add: example_response_def)
  show ?thesis
    using responseExpiration_sound [OF refl refl refl, of "\<lambda>_. None" "example_response ?h" 5 0 "\<lparr>ex_freshUntil = 50000000005, ex_staleUntil = 57000000005\<rparr>"]
    unfolding r ds by (simp add: durations_fit_def directive_def vals del: hget_def)
qed

section \<open>What the code does at the edges\<close>

text \<open>
  \<open>time.Duration(seconds-age) * time.Second\<close> wraps: a response that is 292 years past its
  max-age becomes fresh for 292 years, and one with a longer max-age is not stored at all.
\<close>

lemma age_overflow:
  "responseExpiration (\<lambda>_. None) (example_response [(''Cache-Control'', [''max-age=0'']), (''Age'', [''9223372037''])]) 0 0
     = Some \<lparr>ex_freshUntil = 9223372036709551616, ex_staleUntil = 9223372036709551616\<rparr>"
  by code_simp

lemma max_age_overflow:
  "responseExpiration (\<lambda>_. None) (example_response [(''Cache-Control'', [''max-age=9223372037''])]) 0 0 = None"
  by code_simp

text \<open>Only the first Cache-Control field is read, so a second one that forbids storing is not seen.\<close>

lemma second_cache_control_ignored:
  "responseExpiration (\<lambda>_. None) (example_response [(''Cache-Control'', [''max-age=60'', ''private, no-store''])]) 0 0
     = Some \<lparr>ex_freshUntil = 60000000000, ex_staleUntil = 60000000000\<rparr>"
  by code_simp

text \<open>An address with a zone is not parsed as an address, so a link-local host with one is not private.\<close>

lemma zoned_link_local_cacheable: "\<not> privateDestination ''fe80::1%eth0''"
  by (simp add: privateDestination_def str_simps Let_def)

end
