(* ===== verification/CacheStore.thy ===== *)
theory CacheStore
  imports CachePolicy "HOL-Library.AList"
begin

text \<open>
  The store of \<open>internal/cache/cache.go\<close>: the directory with a metadata and a body file for each
  key, the index of entries by recency with its byte total, and the operations on them (scan at
  start, load, commit, removal, eviction). Every system call that can fail is decided by an
  argument: \<open>deny\<close> says which names \<open>os.Remove\<close> fails on, and the \<open>_io\<close> records say which
  other calls fail and at what time they are made. JSON printing and parsing of the metadata are
  the parameters \<open>marshal\<close> and \<open>unmarshal\<close>. The byte counters of the store are integers: they count files
  and buffered bytes, and do not reach \<open>2^63\<close>.
\<close>

section \<open>Data\<close>

definition maxMetadataBytes :: nat where "maxMetadataBytes = 65536"

definition staleTemporaryAge :: duration where "staleTemporaryAge = word_of_int (3600 * second_ns)"

definition statusHeader :: string where "statusHeader = ''X-Hamsterd-Cache''"

text \<open>The zero value of \<open>time.Time\<close>: all times count from it.\<close>

definition zero_time :: go_time where "zero_time = 0"

record metadata =
  md_status :: string
  md_code :: int
  md_proto :: string
  md_proto_major :: int
  md_proto_minor :: int
  md_header :: header
  md_size :: int
  md_storedAt :: go_time
  md_expiresAt :: go_time
  md_staleUntil :: go_time

record cache_file =
  cf_data :: string
  cf_mtime :: go_time
  cf_regular :: bool

type_synonym cache_dir = "string \<Rightarrow> cache_file option"

text \<open>
  An element of the index list is never changed once it is made, so a pointer to it is the record
  itself, and \<open>el_id\<close> is its identity.
\<close>

record element =
  el_id :: nat
  el_key :: string
  el_size :: int

record cache =
  c_maxBytes :: int
  c_maxObjectBytes :: int
  c_defaultTTL :: duration
  c_pending :: int
  c_refreshing :: "string set"
  c_index :: "element list"
  c_entries :: "string \<Rightarrow> element option"
  c_total :: int
  c_next :: nat
  c_dir :: cache_dir

definition metaPath :: "string \<Rightarrow> string" where "metaPath key = key @ ''.json''"
definition bodyPath :: "string \<Rightarrow> string" where "bodyPath key = key @ ''.body''"

section \<open>Files and the index list\<close>

definition Remove :: "(string \<Rightarrow> bool) \<Rightarrow> string \<Rightarrow> cache_dir \<Rightarrow> cache_dir" where
  "Remove deny name d = (if deny name then d else d(name := None))"

text \<open>\<open>container/list\<close>: the front of the list is its head.\<close>

definition list_remove :: "element \<Rightarrow> element list \<Rightarrow> element list" where
  "list_remove e xs = filter (\<lambda>x. el_id x \<noteq> el_id e) xs"

definition MoveToFront :: "element \<Rightarrow> element list \<Rightarrow> element list" where
  "MoveToFront e xs = (if list_ex (\<lambda>x. el_id x = el_id e) xs then e # list_remove e xs else xs)"

definition push_entry :: "string \<Rightarrow> int \<Rightarrow> cache \<Rightarrow> cache" where
  "push_entry key n s =
     (let e = \<lparr>el_id = c_next s, el_key = key, el_size = n\<rparr>
      in s\<lparr>c_index := e # c_index s, c_entries := (c_entries s)(key \<mapsto> e), c_total := c_total s + n,
           c_next := Suc (c_next s)\<rparr>)"

definition touch_entry :: "string \<Rightarrow> cache \<Rightarrow> cache" where
  "touch_entry key s =
     (case c_entries s key of
        None \<Rightarrow> s
      | Some e \<Rightarrow> s\<lparr>c_index := MoveToFront e (c_index s)\<rparr>)"

definition removeLocked :: "(string \<Rightarrow> bool) \<Rightarrow> string \<Rightarrow> cache \<Rightarrow> cache" where
  "removeLocked deny key s =
     (let s1 = s\<lparr>c_dir := Remove deny (bodyPath key) (Remove deny (metaPath key) (c_dir s))\<rparr>
      in case c_entries s1 key of
           None \<Rightarrow> s1
         | Some e \<Rightarrow> s1\<lparr>c_total := c_total s1 - el_size e, c_index := list_remove e (c_index s1),
                         c_entries := (c_entries s1)(key := None)\<rparr>)"

text \<open>
  The loop of \<open>evictLocked\<close> has no bound of its own: with an index whose last key has no map
  entry it would never end, so not returning is the value \<open>None\<close>.
\<close>

partial_function (option) evictLocked :: "(string \<Rightarrow> bool) \<Rightarrow> cache \<Rightarrow> cache option" where
  "evictLocked deny s =
     (if c_total s \<le> c_maxBytes s then Some s
      else case rev (c_index s) of
             [] \<Rightarrow> Some s
           | oldest # _ \<Rightarrow> evictLocked deny (removeLocked deny (el_key oldest) s))"

section \<open>Installing an entry\<close>

text \<open>
  \<open>ri_rename1\<close>, \<open>ri_rename2\<close>: whether the two renames succeed; \<open>ri_remove_error\<close>: whether
  removing the destination fails with an error other than its absence.
\<close>

record replace_io =
  ri_rename1 :: bool
  ri_remove_error :: bool
  ri_rename2 :: bool

definition rename_file :: "string \<Rightarrow> string \<Rightarrow> cache_dir \<Rightarrow> cache_dir" where
  "rename_file source destination d = (d(destination := d source))(source := None)"

definition replace :: "replace_io \<Rightarrow> string \<Rightarrow> string \<Rightarrow> cache_dir \<Rightarrow> bool \<times> cache_dir" where
  "replace io source destination d =
     (if ri_rename1 io then (True, rename_file source destination d)
      else if ri_remove_error io then (False, d)
      else
        let d1 = d(destination := None)
        in if ri_rename2 io then (True, rename_file source destination d1) else (False, d1))"

datatype commit_call = SyncBody | CloseBody | CreateMeta | ChmodMeta | WriteMeta | CloseMeta

datatype commit_error = CallFailed commit_call | MarshalFailed | MetadataTooLarge | InstallBody | InstallMeta

record commit_io =
  ci_fail :: "commit_call option"
  ci_meta_temp :: string
  ci_now :: go_time
  ci_body :: replace_io
  ci_meta :: replace_io
  ci_deny :: "string \<Rightarrow> bool"

text \<open>
  The part of \<open>commit\<close> under the lock. \<open>None\<close> for the whole result: the eviction does not return.
\<close>

definition commit_locked ::
  "commit_io \<Rightarrow> string \<Rightarrow> string \<Rightarrow> int \<Rightarrow> int \<Rightarrow> cache \<Rightarrow> (commit_error option \<times> cache) option" where
  "commit_locked io key temporary bodySize metaSize s =
     (let s1 = removeLocked (ci_deny io) key s
      in case replace (ci_body io) temporary (bodyPath key) (c_dir s1) of
           (False, d) \<Rightarrow> Some (Some InstallBody, s1\<lparr>c_dir := d\<rparr>)
         | (True, d) \<Rightarrow>
             (case replace (ci_meta io) (ci_meta_temp io) (metaPath key) d of
                (False, d') \<Rightarrow> Some (Some InstallMeta, s1\<lparr>c_dir := Remove (ci_deny io) (bodyPath key) d'\<rparr>)
              | (True, d') \<Rightarrow>
                  map_option (Pair None)
                    (evictLocked (ci_deny io) (push_entry key (bodySize + metaSize) (s1\<lparr>c_dir := d'\<rparr>)))))"

definition remove_temp :: "commit_io \<Rightarrow> string \<Rightarrow> cache \<Rightarrow> cache" where
  "remove_temp io name s = s\<lparr>c_dir := Remove (ci_deny io) name (c_dir s)\<rparr>"

text \<open>
  \<open>is_open\<close>: whether the temporary file is still open, which \<open>Sync\<close> needs. The deferred removals
  of the two temporary files run on every return after they are registered.
\<close>

definition commit ::
  "(metadata \<Rightarrow> string option) \<Rightarrow> commit_io \<Rightarrow> string \<Rightarrow> string \<Rightarrow> bool \<Rightarrow> metadata \<Rightarrow> cache
     \<Rightarrow> (commit_error option \<times> cache) option" where
  "commit marshal io key temporary is_open meta s =
     (let cleanup = remove_temp io temporary
      in if \<not> is_open \<or> ci_fail io = Some SyncBody then Some (Some (CallFailed SyncBody), cleanup s)
         else if ci_fail io = Some CloseBody then Some (Some (CallFailed CloseBody), cleanup s)
         else case marshal meta of
           None \<Rightarrow> Some (Some MarshalFailed, cleanup s)
         | Some metaBytes \<Rightarrow>
             if maxMetadataBytes < length metaBytes then Some (Some MetadataTooLarge, cleanup s)
             else if ci_fail io = Some CreateMeta then Some (Some (CallFailed CreateMeta), cleanup s)
             else
               let cleanup2 = cleanup \<circ> remove_temp io (ci_meta_temp io);
                   s1 = s\<lparr>c_dir := (c_dir s)(ci_meta_temp io \<mapsto> \<lparr>cf_data = [], cf_mtime = ci_now io, cf_regular = True\<rparr>)\<rparr>;
                   s2 = s\<lparr>c_dir := (c_dir s)(ci_meta_temp io \<mapsto> \<lparr>cf_data = metaBytes, cf_mtime = ci_now io, cf_regular = True\<rparr>)\<rparr>
               in if ci_fail io = Some ChmodMeta then Some (Some (CallFailed ChmodMeta), cleanup2 s1)
                  else if ci_fail io = Some WriteMeta then Some (Some (CallFailed WriteMeta), cleanup2 s1)
                  else if ci_fail io = Some CloseMeta then Some (Some (CallFailed CloseMeta), cleanup2 s2)
                  else map_option (map_prod id cleanup2)
                         (commit_locked io key temporary (md_size meta) (int (length metaBytes)) s2))"

section \<open>Loading an entry\<close>

record load_io =
  li_now :: go_time
  li_unreadable :: "string \<Rightarrow> bool"
  li_stat_fail :: bool
  li_chtimes_fail :: "string \<Rightarrow> bool"
  li_deny :: "string \<Rightarrow> bool"

definition Open :: "load_io \<Rightarrow> string \<Rightarrow> cache_dir \<Rightarrow> cache_file option" where
  "Open io name d = (if li_unreadable io name then None else d name)"

definition Chtimes :: "load_io \<Rightarrow> string \<Rightarrow> cache_dir \<Rightarrow> cache_dir" where
  "Chtimes io name d =
     (if li_chtimes_fail io name then d
      else d(name := map_option (\<lambda>f. f\<lparr>cf_mtime := li_now io\<rparr>) (d name)))"

definition stale_until :: "metadata \<Rightarrow> go_time" where
  "stale_until meta = (if md_staleUntil meta = zero_time then md_expiresAt meta else md_staleUntil meta)"

definition current_age :: "metadata \<Rightarrow> go_time \<Rightarrow> int" where
  "current_age meta now =
     (let originAge = case responseAge (md_header meta) of None \<Rightarrow> 0 | Some a \<Rightarrow> a
      in max 0 (sint (word_of_int originAge + word_of_int (trunc_div (sint (time_sub now (md_storedAt meta))) second_ns) :: i64)))"

definition cached_response :: "metadata \<Rightarrow> go_time \<Rightarrow> string \<Rightarrow> response" where
  "cached_response meta now content =
     \<lparr>resp_status = md_status meta, resp_code = md_code meta, resp_proto = md_proto meta,
      resp_proto_major = md_proto_major meta, resp_proto_minor = md_proto_minor meta,
      resp_header = hset (hset (md_header meta) statusHeader (if md_expiresAt meta < now then ''STALE'' else ''HIT''))
                      ''Age'' (FormatInt (current_age meta now)),
      resp_body = Some [content], resp_length = md_size meta\<rparr>"

text \<open>The result: the response and whether the caller starts a refresh, or a miss.\<close>

definition load ::
  "(string \<Rightarrow> metadata option) \<Rightarrow> load_io \<Rightarrow> string \<Rightarrow> cache \<Rightarrow> (response \<times> bool) option \<times> cache" where
  "load unmarshal io key s =
     (let gone = (None, removeLocked (li_deny io) key s); now = li_now io
      in case Open io (metaPath key) (c_dir s) of
           None \<Rightarrow> (None, s)
         | Some f \<Rightarrow>
             (case unmarshal (take maxMetadataBytes (cf_data f)) of
                None \<Rightarrow> gone
              | Some meta \<Rightarrow>
                  if stale_until meta < now then gone
                  else case Open io (bodyPath key) (c_dir s) of
                    None \<Rightarrow> gone
                  | Some b \<Rightarrow>
                      if li_stat_fail io \<or> int (length (cf_data b)) \<noteq> md_size meta then gone
                      else
                        let s1 = touch_entry key (s\<lparr>c_dir := Chtimes io (bodyPath key) (Chtimes io (metaPath key) (c_dir s))\<rparr>);
                            refresh = md_expiresAt meta < now \<and> key \<notin> c_refreshing s
                        in (Some (cached_response meta now (cf_data b), refresh),
                            if refresh then s1\<lparr>c_refreshing := insert key (c_refreshing s1)\<rparr> else s1)))"

definition endRefresh :: "string \<Rightarrow> cache \<Rightarrow> cache" where
  "endRefresh key s = s\<lparr>c_refreshing := c_refreshing s - {key}\<rparr>"

section \<open>Starting on a directory\<close>

text \<open>
  One item of \<open>os.ReadDir\<close> in its order; \<open>it_info\<close> is what \<open>item.Info\<close> returns, size and
  modification time, or \<open>None\<close> for its error.
\<close>

record dir_item =
  it_name :: string
  it_regular :: bool
  it_info :: "(int \<times> go_time) option"

record scanned =
  sc_size :: int
  sc_modTime :: go_time
  sc_parts :: nat

definition is_lower_hex :: "char \<Rightarrow> bool" where
  "is_lower_hex c \<longleftrightarrow> is_digit c \<or> (97 \<le> byte c \<and> byte c \<le> 102)"

definition is_key :: "string \<Rightarrow> bool" where
  "is_key k \<longleftrightarrow> length k = 64 \<and> list_all is_lower_hex k"

text \<open>The two regular expressions: the key of an entry file's name, and the temporary names.\<close>

definition entryName :: "string \<Rightarrow> string option" where
  "entryName name =
     (let k = take 64 name
      in if is_key k \<and> drop 64 name \<in> {''.body'', ''.json''} then Some k else None)"

definition temporaryName :: "string \<Rightarrow> bool" where
  "temporaryName name =
     list_ex (\<lambda>p. HasPrefix name p \<and> HasSuffix (drop (length p) name) ''.tmp'' \<and>
                  TrimSuffix (drop (length p) name) ''.tmp'' \<noteq> [] \<and>
                  list_all is_digit (TrimSuffix (drop (length p) name) ''.tmp''))
       [''.cache-'', ''.metadata-'']"

definition new_scanned :: scanned where
  "new_scanned = \<lparr>sc_size = 0, sc_modTime = zero_time, sc_parts = 0\<rparr>"

definition add_file :: "int \<times> go_time \<Rightarrow> scanned \<Rightarrow> scanned" where
  "add_file info e =
     \<lparr>sc_size = sc_size e + fst info, sc_modTime = (if sc_modTime e < snd info then snd info else sc_modTime e),
      sc_parts = Suc (sc_parts e)\<rparr>"

text \<open>
  The loop over the items. \<open>found\<close> is the map \<open>found\<close> of the code as an association list; an
  item that hamsterd did not create ends the scan with its name.
\<close>

fun scan_items ::
  "(string \<Rightarrow> bool) \<Rightarrow> go_time \<Rightarrow> dir_item list \<Rightarrow> (string \<times> scanned) list \<Rightarrow> cache_dir
     \<Rightarrow> (string, (string \<times> scanned) list) result \<times> cache_dir" where
  "scan_items deny now [] found d = (Ok found, d)"
| "scan_items deny now (item # items) found d =
     (let name = it_name item
      in if name = ''.DS_Store'' then scan_items deny now items found d
         else if temporaryName name then
           (case it_info item of
              Some (_, modTime) \<Rightarrow>
                if sint staleTemporaryAge < sint (time_sub now modTime)
                then scan_items deny now items found (Remove deny name d)
                else scan_items deny now items found d
            | None \<Rightarrow> scan_items deny now items found d)
         else case entryName name of
           None \<Rightarrow> (Err name, d)
         | Some key \<Rightarrow>
             if \<not> it_regular item then (Err name, d)
             else case it_info item of
               None \<Rightarrow> scan_items deny now items found d
             | Some info \<Rightarrow>
                 scan_items deny now items
                   (AList.update key (add_file info (case map_of found key of None \<Rightarrow> new_scanned | Some e \<Rightarrow> e)) found) d)"

definition incomplete :: "(string \<times> scanned) list \<Rightarrow> string list" where
  "incomplete found = map fst (filter (\<lambda>(_, e). sc_parts e \<noteq> 2) found)"

definition complete :: "(string \<times> scanned) list \<Rightarrow> (string \<times> scanned) list" where
  "complete found = filter (\<lambda>(_, e). sc_parts e = 2) found"

text \<open>
  \<open>arrange\<close> is \<open>sort.Slice\<close> on the complete entries by modification time, which leaves the order
  of entries with equal times open.
\<close>

definition scan_index ::
  "((string \<times> scanned) list \<Rightarrow> (string \<times> scanned) list) \<Rightarrow> (string \<Rightarrow> bool) \<Rightarrow> (string \<times> scanned) list
     \<Rightarrow> cache \<Rightarrow> cache option" where
  "scan_index arrange deny found s =
     (let s1 = fold (removeLocked deny) (incomplete found) s;
          s2 = fold (\<lambda>(key, e). push_entry key (sc_size e)) (arrange (complete found)) s1
      in evictLocked deny s2)"

record transport_config =
  cc_directory :: string
  cc_maxBytes :: int
  cc_maxObjectBytes :: int
  cc_defaultTTL :: duration

record new_io =
  ni_mkdir_fail :: bool
  ni_items :: "dir_item list option"
  ni_now :: go_time
  ni_deny :: "string \<Rightarrow> bool"
  ni_arrange :: "(string \<times> scanned) list \<Rightarrow> (string \<times> scanned) list"
  ni_chmod_fail :: bool

datatype new_error = EmptyDirectory | InvalidLimits | InvalidTTL | MkdirFailed | ReadDirFailed
  | ForeignFile string | ChmodFailed

definition empty_cache :: "transport_config \<Rightarrow> cache_dir \<Rightarrow> cache" where
  "empty_cache cfg d =
     \<lparr>c_maxBytes = cc_maxBytes cfg, c_maxObjectBytes = cc_maxObjectBytes cfg, c_defaultTTL = cc_defaultTTL cfg,
      c_pending = 0, c_refreshing = {}, c_index = [], c_entries = (\<lambda>_. None), c_total = 0, c_next = 0, c_dir = d\<rparr>"

definition scan ::
  "new_io \<Rightarrow> cache \<Rightarrow> (new_error, cache) result option" where
  "scan io s =
     (case ni_items io of
        None \<Rightarrow> Some (Err ReadDirFailed)
      | Some items \<Rightarrow>
          (case scan_items (ni_deny io) (ni_now io) items [] (c_dir s) of
             (Inl name, _) \<Rightarrow> Some (Err (ForeignFile name))
           | (Inr found, d) \<Rightarrow> map_option Ok (scan_index (ni_arrange io) (ni_deny io) found (s\<lparr>c_dir := d\<rparr>))))"

definition NewTransport :: "new_io \<Rightarrow> transport_config \<Rightarrow> cache_dir \<Rightarrow> (new_error, cache) result option" where
  "NewTransport io cfg d =
     (if cc_directory cfg = [] then Some (Err EmptyDirectory)
      else if cc_maxBytes cfg \<le> 0 \<or> cc_maxObjectBytes cfg \<le> 0 \<or> cc_maxBytes cfg < cc_maxObjectBytes cfg then Some (Err InvalidLimits)
      else if sint (cc_defaultTTL cfg) \<le> 0 then Some (Err InvalidTTL)
      else if ni_mkdir_fail io then Some (Err MkdirFailed)
      else case scan io (empty_cache cfg d) of
        None \<Rightarrow> None
      | Some (Inl e) \<Rightarrow> Some (Err e)
      | Some (Inr s) \<Rightarrow> if ni_chmod_fail io then Some (Err ChmodFailed) else Some (Ok s))"

section \<open>The interface of the index\<close>

text \<open>
  What load, commit and the eviction need of an index of entries by recency: \<open>entry_view\<close> lists keys
  and sizes, most recent first.
\<close>

locale recency_index =
  fixes ok :: "'s \<Rightarrow> bool"
    and entry_view :: "'s \<Rightarrow> (string \<times> int) list"
    and total :: "'s \<Rightarrow> int"
    and remove :: "string \<Rightarrow> 's \<Rightarrow> 's"
    and push :: "string \<Rightarrow> int \<Rightarrow> 's \<Rightarrow> 's"
    and touch :: "string \<Rightarrow> 's \<Rightarrow> 's"
  assumes ok_distinct: "ok s \<Longrightarrow> distinct (map fst (entry_view s))"
    and ok_sizes: "ok s \<Longrightarrow> (k, n) \<in> set (entry_view s) \<Longrightarrow> 0 \<le> n"
    and ok_total: "ok s \<Longrightarrow> total s = sum_list (map snd (entry_view s))"
    and remove_ok: "ok s \<Longrightarrow> ok (remove k s)"
    and remove_view: "ok s \<Longrightarrow> entry_view (remove k s) = filter (\<lambda>e. fst e \<noteq> k) (entry_view s)"
    and push_ok: "ok s \<Longrightarrow> k \<notin> fst ` set (entry_view s) \<Longrightarrow> 0 \<le> n \<Longrightarrow> ok (push k n s)"
    and push_view: "entry_view (push k n s) = (k, n) # entry_view s"
    and touch_ok: "ok s \<Longrightarrow> ok (touch k s)"
    and touch_view: "ok s \<Longrightarrow> entry_view (touch k s) = filter (\<lambda>e. fst e = k) (entry_view s) @ filter (\<lambda>e. fst e \<noteq> k) (entry_view s)"
begin

lemma total_nonneg:
  assumes "ok s"
  shows "0 \<le> total s"
proof -
  have "\<And>n. n \<in> set (map snd (entry_view s)) \<Longrightarrow> 0 \<le> n" using ok_sizes [OF assms] by auto
  then show ?thesis unfolding ok_total [OF assms] by (rule sum_list_nonneg)
qed

lemma victim_view:
  assumes "ok s" "entry_view s \<noteq> []"
  shows "entry_view (remove (fst (last (entry_view s))) s) = butlast (entry_view s)"
proof -
  obtain xs x where v: "entry_view s = xs @ [x]" using assms(2) by (cases "entry_view s" rule: rev_cases) auto
  have "fst x \<notin> fst ` set xs" using ok_distinct [OF assms(1)] by (simp add: v)
  then have "filter (\<lambda>e. fst e \<noteq> fst x) xs = xs" by (simp add: filter_id_conv image_iff) metis
  then show ?thesis by (simp add: remove_view [OF assms(1)] v)
qed

lemma store_ok: "ok s \<Longrightarrow> 0 \<le> n \<Longrightarrow> ok (push k n (remove k s))"
  by (rule push_ok) (auto simp: remove_ok remove_view)

lemma store_view: "ok s \<Longrightarrow> entry_view (push k n (remove k s)) = (k, n) # filter (\<lambda>e. fst e \<noteq> k) (entry_view s)"
  by (simp add: push_view remove_view)

lemma touch_total:
  assumes "ok s"
  shows "total (touch k s) = total s"
proof -
  have "sum_list (map snd (filter P xs)) + sum_list (map snd (filter (\<lambda>e. \<not> P e) xs)) = sum_list (map snd xs)"
    for P and xs :: "(string \<times> int) list"
    by (induction xs) auto
  from this [of "\<lambda>e. fst e = k" "entry_view s"] show ?thesis
    by (simp add: ok_total touch_ok touch_view assms)
qed

lemma remove_total:
  assumes "ok s"
  shows "total (remove k s) \<le> total s"
proof -
  have "sum_list (map snd (filter P xs)) \<le> sum_list (map snd xs)"
    if "\<forall>e \<in> set xs. 0 \<le> snd e" for P and xs :: "(string \<times> int) list"
    using that by (induction xs) auto
  moreover have "\<forall>e \<in> set (entry_view s). 0 \<le> snd e" using ok_sizes [OF assms] by auto
  ultimately show ?thesis by (simp add: ok_total remove_ok remove_view assms)
qed

end

section \<open>The index of the store\<close>

definition entry_view :: "cache \<Rightarrow> (string \<times> int) list" where
  "entry_view s = map (\<lambda>e. (el_key e, el_size e)) (c_index s)"

definition index_ok :: "cache \<Rightarrow> bool" where
  "index_ok s \<longleftrightarrow> distinct (map el_key (c_index s)) \<and> distinct (map el_id (c_index s)) \<and>
     (\<forall>e \<in> set (c_index s). el_id e < c_next s \<and> 0 \<le> el_size e) \<and>
     (\<forall>k e. c_entries s k = Some e \<longleftrightarrow> e \<in> set (c_index s) \<and> el_key e = k) \<and>
     c_total s = sum_list (map el_size (c_index s))"

lemma index_ok_Some: "index_ok s \<Longrightarrow> c_entries s k = Some e \<longleftrightarrow> e \<in> set (c_index s) \<and> el_key e = k"
  by (simp add: index_ok_def)

lemma index_ok_None:
  assumes "index_ok s"
  shows "c_entries s k = None \<longleftrightarrow> (\<forall>e \<in> set (c_index s). el_key e \<noteq> k)"
  using index_ok_Some [OF assms, of k] by (cases "c_entries s k") auto

lemma index_ok_facts:
  assumes "index_ok s"
  shows "distinct (map el_key (c_index s))" "distinct (map el_id (c_index s))"
    "c_total s = sum_list (map el_size (c_index s))"
  using assms by (simp_all add: index_ok_def)

lemma list_remove_by_key:
  assumes "distinct (map el_key xs)" "distinct (map el_id xs)" "e \<in> set xs"
  shows "list_remove e xs = filter (\<lambda>x. el_key x \<noteq> el_key e) xs"
proof -
  have "el_id x = el_id e \<longleftrightarrow> el_key x = el_key e" if "x \<in> set xs" for x
    using assms that by (auto simp: distinct_map inj_on_def)
  then show ?thesis by (auto simp: list_remove_def intro: filter_cong)
qed

lemma sum_list_filter_key:
  assumes "distinct (map el_key xs)" "e \<in> set xs"
  shows "sum_list (map el_size (filter (\<lambda>x. el_key x \<noteq> el_key e) xs)) = sum_list (map el_size xs) - el_size e"
  using assms
proof (induction xs)
  case (Cons x xs)
  show ?case
  proof (cases "x = e")
    case True
    then have "filter (\<lambda>x. el_key x \<noteq> el_key e) xs = xs"
      using Cons.prems(1) by (simp add: filter_id_conv image_iff) metis
    then show ?thesis using True by simp
  next
    case False
    then have "e \<in> set xs" "el_key x \<noteq> el_key e" using Cons.prems by auto
    then show ?thesis using Cons by simp
  qed
qed simp

lemma removeLocked_index:
  assumes "index_ok s"
  shows "c_index (removeLocked deny key s) = filter (\<lambda>e. el_key e \<noteq> key) (c_index s)"
proof (cases "c_entries s key")
  case None
  then have "\<forall>e \<in> set (c_index s). el_key e \<noteq> key" by (simp add: index_ok_None [OF assms])
  then show ?thesis using None by (simp add: removeLocked_def filter_id_conv)
next
  case (Some e)
  then have "e \<in> set (c_index s)" "el_key e = key" by (simp_all add: index_ok_Some [OF assms])
  then show ?thesis
    using Some list_remove_by_key [OF index_ok_facts(1,2) [OF assms], of e] by (simp add: removeLocked_def)
qed

lemma removeLocked_entries: "c_entries (removeLocked deny key s) = (c_entries s)(key := None)"
  by (auto simp: removeLocked_def Let_def split: option.split)

lemma removeLocked_index_ok:
  assumes "index_ok s"
  shows "index_ok (removeLocked deny key s)"
proof -
  let ?t = "removeLocked deny key s"
  have tot: "c_total ?t = sum_list (map el_size (filter (\<lambda>e. el_key e \<noteq> key) (c_index s)))"
  proof (cases "c_entries s key")
    case None
    then have "filter (\<lambda>e. el_key e \<noteq> key) (c_index s) = c_index s"
      by (simp add: index_ok_None [OF assms] filter_id_conv)
    then show ?thesis using None assms by (simp add: removeLocked_def index_ok_def)
  next
    case (Some e)
    then have "e \<in> set (c_index s)" "el_key e = key" by (simp_all add: index_ok_Some [OF assms])
    then show ?thesis
      using Some sum_list_filter_key [OF index_ok_facts(1) [OF assms], of e] index_ok_facts(3) [OF assms]
      by (simp add: removeLocked_def)
  qed
  have nxt: "c_next ?t = c_next s" by (simp add: removeLocked_def Let_def split: option.split)
  show ?thesis
    using assms unfolding index_ok_def tot nxt removeLocked_index [OF assms] removeLocked_entries
    by (auto simp: distinct_map_filter)
qed

lemma push_entry_index_ok:
  assumes "index_ok s" "key \<notin> fst ` set (entry_view s)" "0 \<le> n"
  shows "index_ok (push_entry key n s)"
  using assms by (auto simp: index_ok_def push_entry_def Let_def entry_view_def image_iff)

lemma touch_entry_cases:
  assumes "index_ok s"
  shows "c_index (touch_entry key s) = filter (\<lambda>e. el_key e = key) (c_index s) @ filter (\<lambda>e. el_key e \<noteq> key) (c_index s)"
proof (cases "c_entries s key")
  case None
  then have "\<forall>e \<in> set (c_index s). el_key e \<noteq> key" by (simp add: index_ok_None [OF assms])
  then show ?thesis using None by (simp add: touch_entry_def filter_id_conv filter_empty_conv)
next
  case (Some e)
  then have e: "e \<in> set (c_index s)" "el_key e = key" and d: "distinct (map el_key (c_index s))"
    using index_ok_Some [OF assms] index_ok_facts(1) [OF assms] by auto
  have "filter (\<lambda>x. el_key x = key) xs = [e]" if "e \<in> set xs" "distinct (map el_key xs)" for xs
    using that
  proof (induction xs)
    case (Cons x xs)
    show ?case
    proof (cases "x = e")
      case True
      then have "filter (\<lambda>x. el_key x = key) xs = []"
        using Cons.prems(2) e(2) by (simp add: filter_empty_conv image_iff) metis
      then show ?thesis using True e(2) by simp
    next
      case False
      then have "el_key x \<noteq> key" using Cons.prems e(2) by auto
      then show ?thesis using Cons False by simp
    qed
  qed simp
  from this [OF e(1) d] show ?thesis
    using Some e list_remove_by_key [OF d index_ok_facts(2) [OF assms], of e]
    by (auto simp: touch_entry_def MoveToFront_def list_ex_iff)
qed

lemma touch_entry_index_ok:
  assumes "index_ok s"
  shows "index_ok (touch_entry key s)"
proof -
  have part: "sum_list (map f (filter P xs)) + sum_list (map f (filter (\<lambda>e. \<not> P e) xs)) = sum_list (map f xs)"
    for P and f :: "element \<Rightarrow> int" and xs
    by (induction xs) auto
  have rest: "c_entries (touch_entry key s) = c_entries s" "c_next (touch_entry key s) = c_next s"
    "c_total (touch_entry key s) = c_total s"
    by (auto simp: touch_entry_def split: option.split)
  have dist: "distinct (map f (filter P xs @ filter (\<lambda>e. \<not> P e) xs))" if "distinct (map f xs)"
    for P and f :: "element \<Rightarrow> 'a" and xs
    using that by (induction xs) auto
  show ?thesis
    using assms part [of el_size "\<lambda>e. el_key e = key" "c_index s"]
      dist [of el_key "c_index s" "\<lambda>e. el_key e = key"] dist [of el_id "c_index s" "\<lambda>e. el_key e = key"]
    unfolding index_ok_def rest touch_entry_cases [OF assms] by auto
qed

lemma view_filter: "map (\<lambda>e. (el_key e, el_size e)) (filter (\<lambda>e. P (el_key e)) xs) =
    filter (\<lambda>e. P (fst e)) (map (\<lambda>e. (el_key e, el_size e)) xs)"
  by (induction xs) auto

lemmas view_filters = view_filter [of "\<lambda>k. k = a" for a] view_filter [of "\<lambda>k. k \<noteq> a" for a]

interpretation ri: recency_index index_ok entry_view c_total "removeLocked deny" push_entry touch_entry
  for deny
proof unfold_locales
  fix s :: cache and k n
  show "index_ok s \<Longrightarrow> distinct (map fst (entry_view s))" by (simp add: index_ok_def entry_view_def comp_def)
  show "index_ok s \<Longrightarrow> (k, n) \<in> set (entry_view s) \<Longrightarrow> 0 \<le> n" by (auto simp: index_ok_def entry_view_def)
  show "index_ok s \<Longrightarrow> c_total s = sum_list (map snd (entry_view s))" by (simp add: index_ok_def entry_view_def comp_def)
  show "index_ok s \<Longrightarrow> index_ok (removeLocked deny k s)" by (rule removeLocked_index_ok)
  show "index_ok s \<Longrightarrow> entry_view (removeLocked deny k s) = filter (\<lambda>e. fst e \<noteq> k) (entry_view s)"
    by (simp add: entry_view_def removeLocked_index view_filters)
  show "index_ok s \<Longrightarrow> k \<notin> fst ` set (entry_view s) \<Longrightarrow> 0 \<le> n \<Longrightarrow> index_ok (push_entry k n s)"
    by (rule push_entry_index_ok)
  show "entry_view (push_entry k n s) = (k, n) # entry_view s" by (simp add: entry_view_def push_entry_def Let_def)
  show "index_ok s \<Longrightarrow> index_ok (touch_entry k s)" by (rule touch_entry_index_ok)
  show "index_ok s \<Longrightarrow> entry_view (touch_entry k s) = filter (\<lambda>e. fst e = k) (entry_view s) @ filter (\<lambda>e. fst e \<noteq> k) (entry_view s)"
    by (simp add: entry_view_def touch_entry_cases view_filters)
qed

end
