(* ===== verification/CacheRules.thy ===== *)
theory CacheRules
  imports CacheStore
begin

text \<open>
  Properties of the cache store: the eviction returns and keeps the most recent entries that fit,
  commit and load keep the index consistent and within the budget, a committed body is what the
  next load returns, and loads serve nothing expired.
\<close>

section \<open>Eviction\<close>

text \<open>The reference: the longest run of most recent entries that fits the budget.\<close>

fun keep_recent :: "int \<Rightarrow> (string \<times> int) list \<Rightarrow> (string \<times> int) list" where
  "keep_recent budget [] = []"
| "keep_recent budget ((k, n) # es) = (if n \<le> budget then (k, n) # keep_recent (budget - n) es else [])"

lemma keep_recent_fits:
  assumes "\<forall>e \<in> set es. 0 \<le> snd e" "sum_list (map snd es) \<le> budget"
  shows "keep_recent budget es = es"
  using assms
proof (induction es arbitrary: budget)
  case (Cons e es)
  have "0 \<le> sum_list (map snd es)" using Cons.prems(1) by (intro sum_list_nonneg) auto
  then show ?case using Cons by (cases e) auto
qed simp

lemma keep_recent_sum: "0 \<le> budget \<Longrightarrow> sum_list (map snd (keep_recent budget es)) \<le> budget"
proof (induction budget es rule: keep_recent.induct)
  case (2 budget k n es)
  then show ?case by (cases "n \<le> budget") auto
qed simp

lemma keep_recent_butlast:
  assumes "\<forall>e \<in> set es. 0 \<le> snd e" "budget < sum_list (map snd es)"
  shows "keep_recent budget (butlast es) = keep_recent budget es"
  using assms
proof (induction es arbitrary: budget)
  case (Cons e es)
  obtain k n where e: "e = (k, n)" by (cases e) auto
  show ?case
  proof (cases "es = []")
    case True
    then show ?thesis using Cons.prems e by simp
  next
    case False
    then show ?thesis using Cons e by simp
  qed
qed simp

lemma keep_recent_prefix: "\<exists>n. keep_recent budget es = take n es"
proof (induction budget es rule: keep_recent.induct)
  case (2 budget k n es)
  then show ?case
  proof (cases "n \<le> budget")
    case True
    with 2 obtain m where "keep_recent (budget - n) es = take m es" by auto
    then have "keep_recent budget ((k, n) # es) = take (Suc m) ((k, n) # es)" using True by simp
    then show ?thesis by blast
  next
    case False
    then have "keep_recent budget ((k, n) # es) = take 0 ((k, n) # es)" by simp
    then show ?thesis by blast
  qed
qed simp

lemma set_keep_recent: "set (keep_recent budget es) \<subseteq> set es"
  using keep_recent_prefix [of budget es] by (metis set_take_subset)

text \<open>What an operation on entries leaves alone.\<close>

definition same_limits :: "cache \<Rightarrow> cache \<Rightarrow> bool" where
  "same_limits s t \<longleftrightarrow> c_maxBytes t = c_maxBytes s \<and> c_maxObjectBytes t = c_maxObjectBytes s \<and>
     c_defaultTTL t = c_defaultTTL s \<and> c_pending t = c_pending s"

lemma same_limits_refl [simp]: "same_limits s s" by (simp add: same_limits_def)

lemma same_limits_trans [trans]: "same_limits s t \<Longrightarrow> same_limits t u \<Longrightarrow> same_limits s u"
  by (simp add: same_limits_def)

lemma removeLocked_frame:
  "same_limits s (removeLocked deny k s)" "c_refreshing (removeLocked deny k s) = c_refreshing s"
  "c_dir (removeLocked deny k s) = Remove deny (bodyPath k) (Remove deny (metaPath k) (c_dir s))"
  by (auto simp: same_limits_def removeLocked_def Let_def split: option.split)

lemma view_Nil: "entry_view s = [] \<longleftrightarrow> c_index s = []"
  by (simp add: entry_view_def)

lemma view_last: "c_index s \<noteq> [] \<Longrightarrow> fst (last (entry_view s)) = el_key (last (c_index s))"
  by (simp add: entry_view_def last_map)

lemma evictLocked_stop: "c_total s \<le> c_maxBytes s \<Longrightarrow> evictLocked deny s = Some s"
  by (simp add: evictLocked.simps)

lemma evictLocked_next:
  assumes "c_maxBytes s < c_total s" "c_index s \<noteq> []"
  shows "evictLocked deny s = evictLocked deny (removeLocked deny (el_key (last (c_index s))) s)"
proof -
  obtain xs x where "c_index s = xs @ [x]" using assms(2) by (cases "c_index s" rule: rev_cases) auto
  then show ?thesis using assms by (simp add: evictLocked.simps [of deny s])
qed

lemma evictLocked_returns:
  assumes "index_ok s" "0 \<le> c_maxBytes s"
  shows "\<exists>t. evictLocked deny s = Some t \<and> index_ok t \<and> entry_view t = keep_recent (c_maxBytes s) (entry_view s) \<and>
    same_limits s t \<and> c_refreshing t = c_refreshing s"
  using assms
proof (induction "length (entry_view s)" arbitrary: s rule: less_induct)
  case less
  have nonneg: "\<forall>e \<in> set (entry_view s). 0 \<le> snd e" using ri.ok_sizes [OF less.prems(1)] by auto
  show ?case
  proof (cases "c_total s \<le> c_maxBytes s")
    case True
    then have "keep_recent (c_maxBytes s) (entry_view s) = entry_view s"
      using keep_recent_fits [OF nonneg] ri.ok_total [OF less.prems(1)] by simp
    then show ?thesis using True less.prems(1) by (simp add: evictLocked_stop)
  next
    case False
    then have ne: "entry_view s \<noteq> []" using ri.ok_total [OF less.prems(1)] less.prems(2) by auto
    let ?t = "removeLocked deny (el_key (last (c_index s))) s"
    have v: "entry_view ?t = butlast (entry_view s)"
      using ri.victim_view [OF less.prems(1) ne, of deny] ne by (simp add: view_Nil view_last)
    have lim: "same_limits s ?t" "c_refreshing ?t = c_refreshing s" by (rule removeLocked_frame)+
    have "length (entry_view ?t) < length (entry_view s)" using ne by (simp add: v)
    then obtain u where u: "evictLocked deny ?t = Some u" "index_ok u"
      "entry_view u = keep_recent (c_maxBytes ?t) (entry_view ?t)" "same_limits ?t u" "c_refreshing u = c_refreshing ?t"
      using less.hyps [of ?t] less.prems ri.remove_ok [OF less.prems(1)] lim(1) by (auto simp: same_limits_def)
    have "keep_recent (c_maxBytes s) (butlast (entry_view s)) = keep_recent (c_maxBytes s) (entry_view s)"
      using keep_recent_butlast [OF nonneg] False ri.ok_total [OF less.prems(1)] by simp
    then show ?thesis
      using u v lim evictLocked_next [of s deny] False ne same_limits_trans [OF lim(1) u(4)]
      by (simp add: view_Nil same_limits_def)
  qed
qed

lemma path_simps [simp]:
  "metaPath k = metaPath j \<longleftrightarrow> k = j" "bodyPath k = bodyPath j \<longleftrightarrow> k = j"
  "metaPath k \<noteq> bodyPath j" "bodyPath j \<noteq> metaPath k"
proof -
  have "rev (metaPath k) \<noteq> rev (bodyPath j)" by (simp add: metaPath_def bodyPath_def)
  then show "metaPath k \<noteq> bodyPath j" "bodyPath j \<noteq> metaPath k" by auto
qed (simp_all add: metaPath_def bodyPath_def)

definition keys_of :: "cache \<Rightarrow> string set" where
  "keys_of s = fst ` set (entry_view s)"

lemma keys_of_remove: "index_ok s \<Longrightarrow> keys_of (removeLocked deny k s) = keys_of s - {k}"
  by (auto simp: keys_of_def ri.remove_view image_iff)

lemma keys_of_evict:
  assumes "evictLocked deny s = Some t" "index_ok s" "0 \<le> c_maxBytes s"
  shows "keys_of t \<subseteq> keys_of s"
  using evictLocked_returns [OF assms(2,3), of deny] assms(1) set_keep_recent by (auto simp: keys_of_def)

text \<open>The loop removes the files of the keys that leave the index, and no others.\<close>

lemma evictLocked_dir:
  assumes "evictLocked deny s = Some t" "index_ok s" "0 \<le> c_maxBytes s"
  shows "c_dir t name =
    (if (\<exists>k \<in> keys_of s - keys_of t. name = metaPath k \<or> name = bodyPath k) \<and> \<not> deny name then None else c_dir s name)"
  using assms
proof (induction "length (entry_view s)" arbitrary: s rule: less_induct)
  case less
  show ?case
  proof (cases "c_total s \<le> c_maxBytes s \<or> entry_view s = []")
    case True
    then have "t = s"
    proof
      assume "entry_view s = []"
      then show ?thesis
        using less.prems by (simp add: evictLocked.simps [of deny s] view_Nil split: if_splits)
    qed (use less.prems in \<open>simp add: evictLocked_stop\<close>)
    then show ?thesis by simp
  next
    case False
    let ?k = "el_key (last (c_index s))"
    let ?r = "removeLocked deny ?k s"
    have ev: "evictLocked deny ?r = Some t" using False less.prems(1) by (simp add: evictLocked_next view_Nil)
    have v: "entry_view ?r = butlast (entry_view s)"
      using ri.victim_view [OF less.prems(2), of deny] False by (simp add: view_Nil view_last)
    have ok: "index_ok ?r" "0 \<le> c_maxBytes ?r"
      using ri.remove_ok [OF less.prems(2)] removeLocked_frame(1) [of s deny ?k] less.prems(3)
      by (simp_all add: same_limits_def)
    have "?k \<in> keys_of s"
      using False last_in_set [of "c_index s"] by (auto simp: keys_of_def entry_view_def image_image)
    moreover have "?k \<notin> keys_of t"
      using keys_of_evict [OF ev ok] keys_of_remove [OF less.prems(2)] by auto
    moreover have "c_dir t name =
      (if (\<exists>k \<in> keys_of ?r - keys_of t. name = metaPath k \<or> name = bodyPath k) \<and> \<not> deny name then None else c_dir ?r name)"
      by (rule less.hyps [OF _ ev ok]) (use False v in simp)
    ultimately show ?thesis
      by (auto simp: keys_of_remove [OF less.prems(2)] removeLocked_frame(3) Remove_def)
  qed
qed

section \<open>Commit\<close>

lemma view_dir [simp]: "entry_view (s\<lparr>c_dir := d\<rparr>) = entry_view s" "index_ok (s\<lparr>c_dir := d\<rparr>) = index_ok s"
  "keys_of (s\<lparr>c_dir := d\<rparr>) = keys_of s" "same_limits u (s\<lparr>c_dir := d\<rparr>) = same_limits u s"
  "same_limits (s\<lparr>c_dir := d\<rparr>) u = same_limits s u"
  by (simp_all add: entry_view_def index_ok_def keys_of_def same_limits_def)

lemma push_entry_frame:
  "same_limits s (push_entry k n s)" "c_refreshing (push_entry k n s) = c_refreshing s"
  "c_dir (push_entry k n s) = c_dir s"
  by (simp_all add: same_limits_def push_entry_def Let_def)

text \<open>What the index is after an entry was stored, and after one was dropped.\<close>

definition stored_view :: "string \<Rightarrow> int \<Rightarrow> cache \<Rightarrow> (string \<times> int) list" where
  "stored_view key n s = keep_recent (c_maxBytes s) ((key, n) # filter (\<lambda>e. fst e \<noteq> key) (entry_view s))"

lemma store_entry_returns:
  assumes "index_ok s" "0 \<le> c_maxBytes s" "0 \<le> n"
  shows "\<exists>t. evictLocked deny (push_entry key n ((removeLocked deny key s)\<lparr>c_dir := d\<rparr>)) = Some t \<and> index_ok t \<and>
    entry_view t = stored_view key n s \<and> same_limits s t \<and> c_refreshing t = c_refreshing s"
proof -
  let ?r = "(removeLocked deny key s)\<lparr>c_dir := d\<rparr>"
  let ?p = "push_entry key n ?r"
  have r: "index_ok ?r" "entry_view ?r = filter (\<lambda>e. fst e \<noteq> key) (entry_view s)"
    by (simp_all add: ri.remove_ok [OF assms(1)] ri.remove_view [OF assms(1)])
  have "key \<notin> fst ` set (entry_view ?r)" unfolding r(2) by auto
  from ri.push_ok [OF r(1) this assms(3)] have p: "index_ok ?p" "entry_view ?p = (key, n) # entry_view ?r"
    by (simp_all add: ri.push_view)
  have lim: "same_limits s ?r" "same_limits s ?p"
    using removeLocked_frame(1) [of s deny key] push_entry_frame(1) [of ?r key n]
    by (simp_all add: same_limits_def)
  have "0 \<le> c_maxBytes ?p" using lim assms(2) by (simp add: same_limits_def)
  from evictLocked_returns [OF p(1) this, of deny] show ?thesis
    using lim removeLocked_frame(2) [of deny key s]
    by (auto simp: p(2) ri.remove_view [OF assms(1)] stored_view_def same_limits_def push_entry_frame)
qed

lemma commit_locked_returns:
  assumes "index_ok s" "0 \<le> c_maxBytes s" "0 \<le> n" "0 \<le> m"
  shows "\<exists>err t. commit_locked io key temporary n m s = Some (err, t) \<and> index_ok t \<and> same_limits s t \<and>
    c_refreshing t = c_refreshing s \<and>
    entry_view t = (if err = None then stored_view key (n + m) s else filter (\<lambda>e. fst e \<noteq> key) (entry_view s))"
proof -
  let ?r = "removeLocked (ci_deny io) key s"
  have r: "index_ok ?r" "entry_view ?r = filter (\<lambda>e. fst e \<noteq> key) (entry_view s)" "same_limits s ?r" "c_refreshing ?r = c_refreshing s"
    by (simp_all add: ri.remove_ok [OF assms(1)] ri.remove_view [OF assms(1)] removeLocked_frame)
  have nm: "0 \<le> n + m" using assms(3,4) by simp
  show ?thesis
  proof (cases "replace (ci_body io) temporary (bodyPath key) (c_dir ?r)")
    case b: (Pair okb d)
    show ?thesis
    proof (cases okb)
      case False
      then show ?thesis using b r by (simp add: commit_locked_def Let_def)
    next
      case True
      show ?thesis
      proof (cases "replace (ci_meta io) (ci_meta_temp io) (metaPath key) d")
        case m: (Pair okm d')
        show ?thesis
        proof (cases okm)
          case False
          then show ?thesis using b m r True by (simp add: commit_locked_def Let_def)
        next
          case okm: True
          show ?thesis
            using store_entry_returns [OF assms(1,2) nm, of "ci_deny io" key d'] b m True okm
            by (auto simp: commit_locked_def Let_def)
        qed
      qed
    qed
  qed
qed

lemma remove_temp_simps [simp]:
  "entry_view (remove_temp io name s) = entry_view s" "index_ok (remove_temp io name s) = index_ok s"
  "same_limits u (remove_temp io name s) = same_limits u s" "c_refreshing (remove_temp io name s) = c_refreshing s"
  "keys_of (remove_temp io name s) = keys_of s" "c_total (remove_temp io name s) = c_total s"
  by (simp_all add: remove_temp_def)

text \<open>The two ways through \<open>commit\<close>: it fails before the lock, or it gets there.\<close>

definition commit_start :: "commit_io \<Rightarrow> string \<Rightarrow> cache \<Rightarrow> cache" where
  "commit_start io mb s =
     s\<lparr>c_dir := (c_dir s)(ci_meta_temp io \<mapsto> \<lparr>cf_data = mb, cf_mtime = ci_now io, cf_regular = True\<rparr>)\<rparr>"

definition failed_early :: "commit_io \<Rightarrow> string \<Rightarrow> cache \<Rightarrow> cache_dir \<Rightarrow> bool" where
  "failed_early io temporary s d \<longleftrightarrow>
     (\<forall>name. name \<noteq> temporary \<and> name \<noteq> ci_meta_temp io \<longrightarrow> d name = c_dir s name) \<and>
     (\<not> ci_deny io temporary \<longrightarrow> d temporary = None) \<and>
     (\<not> ci_deny io (ci_meta_temp io) \<and> c_dir s (ci_meta_temp io) = None \<longrightarrow> d (ci_meta_temp io) = None)"

lemma failed_early_intros:
  "failed_early io temporary s (Remove (ci_deny io) temporary (c_dir s))"
  "failed_early io temporary s
     (Remove (ci_deny io) temporary (Remove (ci_deny io) (ci_meta_temp io) ((c_dir s)(ci_meta_temp io \<mapsto> f))))"
  by (auto simp: failed_early_def Remove_def)

lemma commit_cases:
  "(\<exists>e d. commit marshal io key temporary is_open meta s = Some (Some e, s\<lparr>c_dir := d\<rparr>) \<and> failed_early io temporary s d) \<or>
   (\<exists>mb. marshal meta = Some mb \<and> length mb \<le> maxMetadataBytes \<and> is_open \<and> ci_fail io = None \<and>
      commit marshal io key temporary is_open meta s =
        map_option (map_prod id (remove_temp io temporary \<circ> remove_temp io (ci_meta_temp io)))
          (commit_locked io key temporary (md_size meta) (int (length mb)) (commit_start io mb s)))"
proof -
  have e1: "\<exists>e' d. Some (Some e, remove_temp io temporary s) = Some (Some e', s\<lparr>c_dir := d\<rparr>) \<and> failed_early io temporary s d" for e
    using failed_early_intros(1) by (force simp: remove_temp_def)
  have e2: "\<exists>e' d. Some (Some e, remove_temp io temporary (remove_temp io (ci_meta_temp io)
      (s\<lparr>c_dir := (c_dir s)(ci_meta_temp io \<mapsto> f)\<rparr>))) = Some (Some e', s\<lparr>c_dir := d\<rparr>) \<and> failed_early io temporary s d" for e f
    using failed_early_intros(2) by (force simp: remove_temp_def)
  show ?thesis
  proof (cases "\<not> is_open \<or> ci_fail io = Some SyncBody \<or> ci_fail io = Some CloseBody \<or> marshal meta = None")
    case True
    then show ?thesis using e1 by (auto simp: commit_def Let_def split: option.split)
  next
    case False
    then obtain mb where mb: "is_open" "ci_fail io \<noteq> Some SyncBody" "ci_fail io \<noteq> Some CloseBody" "marshal meta = Some mb"
      by auto
    show ?thesis
    proof (cases "maxMetadataBytes < length mb \<or> ci_fail io = Some CreateMeta")
      case True
      then show ?thesis using e1 mb by (auto simp: commit_def Let_def)
    next
      case False
      show ?thesis
      proof (cases "ci_fail io")
        case None
        then show ?thesis using mb False by (simp add: commit_def Let_def commit_start_def)
      next
        case (Some c)
        then have "c = ChmodMeta \<or> c = WriteMeta \<or> c = CloseMeta" using mb False by (cases c) auto
        then show ?thesis using mb False Some e2 by (auto simp: commit_def Let_def)
      qed
    qed
  qed
qed

lemma commit_start_simps [simp]:
  "entry_view (commit_start io mb s) = entry_view s" "index_ok (commit_start io mb s) = index_ok s"
  "same_limits (commit_start io mb s) t = same_limits s t" "c_refreshing (commit_start io mb s) = c_refreshing s"
  "c_maxBytes (commit_start io mb s) = c_maxBytes s" "stored_view key n (commit_start io mb s) = stored_view key n s"
  by (simp_all add: commit_start_def stored_view_def)

lemma commit_outcome:
  assumes "index_ok s" "0 \<le> c_maxBytes s" "0 \<le> md_size meta"
  shows "\<exists>err t. commit marshal io key temporary is_open meta s = Some (err, t) \<and> index_ok t \<and> same_limits s t \<and>
    c_refreshing t = c_refreshing s \<and>
    (case err of
       None \<Rightarrow> \<exists>mb. marshal meta = Some mb \<and> length mb \<le> maxMetadataBytes \<and>
                 entry_view t = stored_view key (md_size meta + int (length mb)) s
     | Some e \<Rightarrow> entry_view t = entry_view s \<or> entry_view t = filter (\<lambda>e. fst e \<noteq> key) (entry_view s))"
  using commit_cases [of marshal io key temporary is_open meta s]
proof
  assume "\<exists>e d. commit marshal io key temporary is_open meta s = Some (Some e, s\<lparr>c_dir := d\<rparr>) \<and> failed_early io temporary s d"
  then show ?thesis using assms(1) by auto
next
  assume "\<exists>mb. marshal meta = Some mb \<and> length mb \<le> maxMetadataBytes \<and> is_open \<and> ci_fail io = None \<and>
      commit marshal io key temporary is_open meta s =
        map_option (map_prod id (remove_temp io temporary \<circ> remove_temp io (ci_meta_temp io)))
          (commit_locked io key temporary (md_size meta) (int (length mb)) (commit_start io mb s))"
  then obtain mb where mb: "marshal meta = Some mb" "length mb \<le> maxMetadataBytes"
    "commit marshal io key temporary is_open meta s =
        map_option (map_prod id (remove_temp io temporary \<circ> remove_temp io (ci_meta_temp io)))
          (commit_locked io key temporary (md_size meta) (int (length mb)) (commit_start io mb s))" by auto
  have "index_ok (commit_start io mb s)" "0 \<le> c_maxBytes (commit_start io mb s)" using assms by simp_all
  from commit_locked_returns [OF this assms(3), of "int (length mb)" io key temporary]
  obtain err t where "commit_locked io key temporary (md_size meta) (int (length mb)) (commit_start io mb s) = Some (err, t)"
    "index_ok t" "same_limits s t" "c_refreshing t = c_refreshing s"
    "entry_view t = (if err = None then stored_view key (md_size meta + int (length mb)) s else filter (\<lambda>e. fst e \<noteq> key) (entry_view s))"
    by auto
  then show ?thesis using mb by (cases err) simp_all
qed

section \<open>Files and index agree\<close>

text \<open>
  Each indexed key has both of its files, with the size the index gives them, and no other key has
  a file. The names of temporary files are never the names of entry files.
\<close>

definition file_size :: "cache_dir \<Rightarrow> string \<Rightarrow> int option" where
  "file_size d k =
     (case (d (metaPath k), d (bodyPath k)) of
        (Some m, Some b) \<Rightarrow> Some (int (length (cf_data m)) + int (length (cf_data b)))
      | _ \<Rightarrow> None)"

definition disk_ok :: "cache \<Rightarrow> bool" where
  "disk_ok s \<longleftrightarrow>
     (\<forall>k. case map_of (entry_view s) k of
            Some n \<Rightarrow> file_size (c_dir s) k = Some n
          | None \<Rightarrow> c_dir s (metaPath k) = None \<and> c_dir s (bodyPath k) = None)"

definition path_free :: "string \<Rightarrow> bool" where
  "path_free name \<longleftrightarrow> (\<forall>k. name \<noteq> metaPath k \<and> name \<noteq> bodyPath k)"

lemma temporaryName_path_free:
  assumes "temporaryName name"
  shows "path_free name"
proof -
  obtain xs where "name = xs @ ''.tmp''"
    using assms by (auto simp: temporaryName_def HasPrefix_iff HasSuffix_iff)
  then have "rev name = rev ''.tmp'' @ rev xs" by simp
  moreover have "rev (metaPath k) = rev ''.json'' @ rev k" "rev (bodyPath k) = rev ''.body'' @ rev k" for k
    by (simp_all add: metaPath_def bodyPath_def)
  ultimately have "rev name \<noteq> rev (metaPath k)" "rev name \<noteq> rev (bodyPath k)" for k by simp_all
  then show ?thesis by (auto simp: path_free_def)
qed

lemma path_freeD: "path_free name \<Longrightarrow> name \<noteq> metaPath k \<and> name \<noteq> bodyPath k \<and> metaPath k \<noteq> name \<and> bodyPath k \<noteq> name"
  by (auto simp: path_free_def)

lemma map_of_filter_key: "map_of (filter (\<lambda>e. fst e \<noteq> k) xs) = (map_of xs)(k := None)"
  by (induction xs) auto

lemma keys_of_map_of: "k \<in> keys_of s \<longleftrightarrow> map_of (entry_view s) k \<noteq> None"
  by (simp add: keys_of_def map_of_eq_None_iff)

lemma map_of_take:
  assumes "distinct (map fst xs)" "k \<in> fst ` set (take n xs)"
  shows "map_of (take n xs) k = map_of xs k"
proof -
  have "map_of xs = map_of (drop n xs) ++ map_of (take n xs)"
    by (metis append_take_drop_id map_of_append)
  moreover have "map_of (take n xs) k \<noteq> None" using assms(2) by (simp add: map_of_eq_None_iff)
  ultimately show ?thesis by (auto simp: map_add_def split: option.split)
qed

abbreviation "no_deny \<equiv> \<lambda>_ :: string. False"

lemma disk_ok_remove:
  assumes "index_ok s" "disk_ok s"
  shows "disk_ok (removeLocked no_deny key s)"
  unfolding disk_ok_def
proof
  fix k
  have "map_of (entry_view (removeLocked no_deny key s)) k = (if k = key then None else map_of (entry_view s) k)"
    by (simp add: ri.remove_view [OF assms(1)] map_of_filter_key)
  then show "case map_of (entry_view (removeLocked no_deny key s)) k of
      Some n \<Rightarrow> file_size (c_dir (removeLocked no_deny key s)) k = Some n
    | None \<Rightarrow> c_dir (removeLocked no_deny key s) (metaPath k) = None \<and> c_dir (removeLocked no_deny key s) (bodyPath k) = None"
    using assms(2) [unfolded disk_ok_def, rule_format, of k]
    by (auto simp: removeLocked_frame(3) Remove_def file_size_def split: option.splits)
qed

lemma disk_ok_evict:
  assumes "evictLocked no_deny s = Some t" "index_ok s" "0 \<le> c_maxBytes s" "disk_ok s"
  shows "disk_ok t"
  unfolding disk_ok_def
proof
  fix k
  have v: "entry_view t = keep_recent (c_maxBytes s) (entry_view s)"
    using evictLocked_returns [OF assms(2,3), of no_deny] assms(1) by auto
  then obtain n where n: "entry_view t = take n (entry_view s)" using keep_recent_prefix by metis
  note d = evictLocked_dir [OF assms(1-3)]
  show "case map_of (entry_view t) k of
      Some n \<Rightarrow> file_size (c_dir t) k = Some n
    | None \<Rightarrow> c_dir t (metaPath k) = None \<and> c_dir t (bodyPath k) = None"
  proof (cases "k \<in> keys_of t")
    case True
    then have "map_of (entry_view t) k = map_of (entry_view s) k"
      using map_of_take [OF ri.ok_distinct [OF assms(2)], of k n] by (simp add: keys_of_def n)
    moreover have "file_size (c_dir t) k = file_size (c_dir s) k"
      using True by (simp add: file_size_def d)
    moreover obtain m where "map_of (entry_view t) k = Some m" using True by (auto simp: keys_of_map_of)
    ultimately show ?thesis
      using assms(4) [unfolded disk_ok_def, rule_format, of k] by (auto split: option.splits)
  next
    case False
    then have none: "map_of (entry_view t) k = None" by (simp add: keys_of_map_of)
    show ?thesis
    proof (cases "k \<in> keys_of s")
      case True
      then show ?thesis using False none by (auto simp: d)
    next
      case ks: False
      then show ?thesis
        using assms(4) [unfolded disk_ok_def, rule_format, of k] none False
        by (auto simp: d keys_of_map_of split: option.splits)
    qed
  qed
qed

lemma replace_cases:
  assumes "replace io source destination d = (ok, d')" "source \<noteq> destination"
  shows "if ok then d' = rename_file source destination d else d' = d \<or> d' = d(destination := None)"
  using assms by (auto simp: replace_def rename_file_def Let_def fun_upd_twist split: if_splits)

lemma disk_ok_cong:
  assumes "disk_ok s" "entry_view t = entry_view s"
    "\<And>k. c_dir t (metaPath k) = c_dir s (metaPath k) \<and> c_dir t (bodyPath k) = c_dir s (bodyPath k)"
  shows "disk_ok t"
proof -
  have "file_size (c_dir t) k = file_size (c_dir s) k" for k by (simp add: file_size_def assms(3))
  then have "case map_of (entry_view s) k of Some n \<Rightarrow> file_size (c_dir t) k = Some n
      | None \<Rightarrow> c_dir t (metaPath k) = None \<and> c_dir t (bodyPath k) = None" for k
    using assms(1) [unfolded disk_ok_def, rule_format, of k] assms(3) [of k]
    by (cases "map_of (entry_view s) k") simp_all
  then show ?thesis by (simp add: disk_ok_def assms(2))
qed

text \<open>The files after a locked commit: either the entry is gone, or both files are the new ones.\<close>

definition installed :: "string \<Rightarrow> cache_file \<Rightarrow> cache_file \<Rightarrow> cache \<Rightarrow> cache \<Rightarrow> bool" where
  "installed key f g s t \<longleftrightarrow>
     (\<forall>k \<in> keys_of t. if k = key then c_dir t (bodyPath k) = Some f \<and> c_dir t (metaPath k) = Some g
        else k \<in> keys_of s \<and> c_dir t (bodyPath k) = c_dir s (bodyPath k) \<and> c_dir t (metaPath k) = c_dir s (metaPath k))"

lemma commit_locked_disk:
  assumes s: "index_ok s" "0 \<le> c_maxBytes s" "disk_ok s" and nd: "ci_deny io = no_deny"
    and names: "path_free temporary" "path_free (ci_meta_temp io)" "temporary \<noteq> ci_meta_temp io"
    and f: "c_dir s temporary = Some f" "int (length (cf_data f)) = n"
    and g: "c_dir s (ci_meta_temp io) = Some g" "int (length (cf_data g)) = m"
    and run: "commit_locked io key temporary n m s = Some (err, t)"
  shows "disk_ok t \<and> (\<forall>name. path_free name \<and> name \<noteq> temporary \<and> name \<noteq> ci_meta_temp io \<longrightarrow> c_dir t name = c_dir s name) \<and>
    installed key f g s t \<and> (err \<noteq> None \<longrightarrow> key \<notin> keys_of t)"
proof -
  let ?r = "removeLocked no_deny key s"
  have r: "index_ok ?r" "disk_ok ?r" "keys_of ?r = keys_of s - {key}" "c_maxBytes ?r = c_maxBytes s"
    "c_dir ?r = (c_dir s)(metaPath key := None, bodyPath key := None)"
    using removeLocked_frame(1) [of s no_deny key]
    by (simp_all add: ri.remove_ok s disk_ok_remove keys_of_remove removeLocked_frame(3) Remove_def same_limits_def)
  note ne = path_freeD [OF names(1)] path_freeD [OF names(2)]
  have same: ?thesis if "c_dir t = c_dir ?r \<or> c_dir t = (c_dir ?r)(temporary := None)" "entry_view t = entry_view ?r"
  proof -
    have "c_dir t name = c_dir ?r name" if "name \<noteq> temporary" for name
      using \<open>c_dir t = c_dir ?r \<or> c_dir t = (c_dir ?r)(temporary := None)\<close> that by auto
    then have t: "c_dir t (metaPath k) = c_dir ?r (metaPath k) \<and> c_dir t (bodyPath k) = c_dir ?r (bodyPath k)"
      "path_free name \<and> name \<noteq> temporary \<Longrightarrow> c_dir t name = c_dir s name" for k name
      using ne path_freeD [of name] by (auto simp: r(5))
    have "keys_of t = keys_of s - {key}" using that(2) r(3) by (simp add: keys_of_def)
    then show ?thesis using disk_ok_cong [OF r(2) that(2)] t by (auto simp: installed_def r(5))
  qed
  obtain okb d where b: "replace (ci_body io) temporary (bodyPath key) (c_dir ?r) = (okb, d)" by (cases "replace (ci_body io) temporary (bodyPath key) (c_dir ?r)")
  note b' = replace_cases [OF b conjunct1 [OF conjunct2 [OF ne(1)]]]
  show ?thesis
  proof (cases okb)
    case False
    then have "t = ?r\<lparr>c_dir := d\<rparr>" using run b nd by (simp add: commit_locked_def Let_def)
    moreover have "d = c_dir ?r" using b' False by (auto simp: r(5))
    ultimately show ?thesis using same by simp
  next
    case okb: True
    then have d: "d = (c_dir ?r)(bodyPath key := Some f, temporary := None)"
      using b' ne f(1) by (simp add: rename_file_def r(5))
    obtain okm d' where m: "replace (ci_meta io) (ci_meta_temp io) (metaPath key) d = (okm, d')"
      by (cases "replace (ci_meta io) (ci_meta_temp io) (metaPath key) d")
    have "ci_meta_temp io \<noteq> metaPath key" using ne(2) by blast
    note m' = replace_cases [OF m this]
    show ?thesis
    proof (cases okm)
      case False
      then have "t = ?r\<lparr>c_dir := d'(bodyPath key := None)\<rparr>"
        using run b m okb nd by (simp add: commit_locked_def Let_def Remove_def)
      moreover have "d'(bodyPath key := None) = (c_dir ?r)(temporary := None)"
        using m' False ne by (auto simp: d r(5) fun_eq_iff)
      ultimately show ?thesis using same by simp
    next
      case True
      have d': "d' = (c_dir ?r)(bodyPath key := Some f, temporary := None, metaPath key := Some g, ci_meta_temp io := None)"
        using m' True ne g(1) names(3) by (simp add: rename_file_def d r(5))
      let ?p = "push_entry key (n + m) (?r\<lparr>c_dir := d'\<rparr>)"
      have ev: "evictLocked no_deny ?p = Some t" "err = None"
        using run b m okb True nd by (auto simp: commit_locked_def Let_def)
      have p: "index_ok ?p" "0 \<le> c_maxBytes ?p" "keys_of ?p = insert key (keys_of s - {key})" "entry_view ?p = (key, n + m) # entry_view ?r"
        using ri.push_ok [of "?r\<lparr>c_dir := d'\<rparr>" key "n + m"] r(1,3) f(2) g(2) s(2) r(4) push_entry_frame(1) [of "?r\<lparr>c_dir := d'\<rparr>" key "n + m"]
        by (auto simp: keys_of_def ri.push_view same_limits_def)
      have pd: "c_dir ?p = (c_dir ?r)(bodyPath key := Some f, temporary := None, metaPath key := Some g, ci_meta_temp io := None)"
        by (simp add: push_entry_frame(3) d')
      have "disk_ok ?p"
        unfolding disk_ok_def p(4) pd
      proof
        fix k
        let ?d = "(c_dir ?r)(bodyPath key := Some f, temporary := None, metaPath key := Some g, ci_meta_temp io := None)"
        show "case map_of ((key, n + m) # entry_view ?r) k of Some j \<Rightarrow> file_size ?d k = Some j
          | None \<Rightarrow> ?d (metaPath k) = None \<and> ?d (bodyPath k) = None"
        proof (cases "k = key")
          case True
          then show ?thesis using ne f(2) g(2) by (simp add: file_size_def)
        next
          case False
          then have e: "?d (metaPath k) = c_dir ?r (metaPath k)" "?d (bodyPath k) = c_dir ?r (bodyPath k)"
            using ne by auto
          show ?thesis using r(2) [unfolded disk_ok_def, rule_format, of k] False
            unfolding file_size_def e by simp
        qed
      qed
      from disk_ok_evict [OF ev(1) p(1,2) this] have "disk_ok t" .
      moreover have kt: "keys_of t \<subseteq> insert key (keys_of s - {key})" using keys_of_evict [OF ev(1) p(1,2)] p(3) by simp
      note td = evictLocked_dir [OF ev(1) p(1,2), unfolded p(3) pd]
      have "installed key f g s t"
        using kt ne by (auto simp: installed_def td r(5))
      moreover have "c_dir t name = c_dir s name" if "path_free name" "name \<noteq> temporary" "name \<noteq> ci_meta_temp io" for name
        using path_freeD [OF that(1)] that(2,3)
        by (auto simp: td r(5))
      ultimately show ?thesis using ev(2) by simp
    qed
  qed
qed

text \<open>Where the entries of a store come from, after a commit of \<open>key\<close> with body file \<open>f\<close>.\<close>

definition entries_from ::
  "(metadata \<Rightarrow> string option) \<Rightarrow> string \<Rightarrow> metadata \<Rightarrow> cache_file \<Rightarrow> bool \<Rightarrow> cache \<Rightarrow> cache \<Rightarrow> bool" where
  "entries_from marshal key meta f new s t \<longleftrightarrow>
     (\<forall>k \<in> keys_of t. if new \<and> k = key
        then c_dir t (bodyPath k) = Some f \<and>
             (\<exists>g. c_dir t (metaPath k) = Some g \<and> marshal meta = Some (cf_data g) \<and> length (cf_data g) \<le> maxMetadataBytes)
        else k \<in> keys_of s \<and> c_dir t (bodyPath k) = c_dir s (bodyPath k) \<and> c_dir t (metaPath k) = c_dir s (metaPath k))"

lemma commit_disk:
  assumes s: "index_ok s" "0 \<le> c_maxBytes s" "disk_ok s" and nd: "ci_deny io = no_deny"
    and names: "path_free temporary" "path_free (ci_meta_temp io)" "temporary \<noteq> ci_meta_temp io"
    and f: "c_dir s temporary = Some f" "int (length (cf_data f)) = md_size meta"
    and g: "c_dir s (ci_meta_temp io) = None"
    and run: "commit marshal io key temporary is_open meta s = Some (err, t)"
  shows "disk_ok t \<and> c_dir t temporary = None \<and>
    (\<forall>name. path_free name \<and> name \<noteq> temporary \<longrightarrow> c_dir t name = c_dir s name) \<and>
    entries_from marshal key meta f (err = None) s t"
  using commit_cases [of marshal io key temporary is_open meta s]
proof
  assume "\<exists>e d. commit marshal io key temporary is_open meta s = Some (Some e, s\<lparr>c_dir := d\<rparr>) \<and> failed_early io temporary s d"
  then obtain e d where t: "err = Some e" "t = s\<lparr>c_dir := d\<rparr>" and d: "failed_early io temporary s d"
    using run by auto
  have paths: "d (metaPath k) = c_dir s (metaPath k) \<and> d (bodyPath k) = c_dir s (bodyPath k)" for k
    using d path_freeD [OF names(1), of k] path_freeD [OF names(2), of k] by (simp add: failed_early_def)
  moreover have "disk_ok t" using disk_ok_cong [OF s(3), of t] paths by (simp add: t)
  moreover have "d name = c_dir s name" if "name \<noteq> temporary" for name
    using d that g nd by (cases "name = ci_meta_temp io") (simp_all add: failed_early_def)
  moreover have "d temporary = None" using d nd by (simp add: failed_early_def)
  ultimately show ?thesis by (simp add: t entries_from_def)
next
  assume "\<exists>mb. marshal meta = Some mb \<and> length mb \<le> maxMetadataBytes \<and> is_open \<and> ci_fail io = None \<and>
      commit marshal io key temporary is_open meta s =
        map_option (map_prod id (remove_temp io temporary \<circ> remove_temp io (ci_meta_temp io)))
          (commit_locked io key temporary (md_size meta) (int (length mb)) (commit_start io mb s))"
  then obtain mb where mb: "marshal meta = Some mb" "length mb \<le> maxMetadataBytes"
    and c: "commit marshal io key temporary is_open meta s =
        map_option (map_prod id (remove_temp io temporary \<circ> remove_temp io (ci_meta_temp io)))
          (commit_locked io key temporary (md_size meta) (int (length mb)) (commit_start io mb s))"
    by auto
  have "map_option (map_prod id (remove_temp io temporary \<circ> remove_temp io (ci_meta_temp io)))
      (commit_locked io key temporary (md_size meta) (int (length mb)) (commit_start io mb s)) = Some (err, t)"
    using c run by simp
  then obtain u where u: "commit_locked io key temporary (md_size meta) (int (length mb)) (commit_start io mb s) = Some (err, u)"
      "t = remove_temp io temporary (remove_temp io (ci_meta_temp io) u)"
    by auto
  let ?g = "\<lparr>cf_data = mb, cf_mtime = ci_now io, cf_regular = True\<rparr>"
  note ne = path_freeD [OF names(1)] path_freeD [OF names(2)]
  have s1: "index_ok (commit_start io mb s)" "0 \<le> c_maxBytes (commit_start io mb s)" "c_dir (commit_start io mb s) temporary = Some f"
    "c_dir (commit_start io mb s) (ci_meta_temp io) = Some ?g" "int (length (cf_data ?g)) = int (length mb)"
    "keys_of (commit_start io mb s) = keys_of s"
    using s f(1) names(3) by (simp_all add: commit_start_def)
  have d1: "c_dir (commit_start io mb s) name = c_dir s name" if "name \<noteq> ci_meta_temp io" for name
    using that by (simp add: commit_start_def)
  have "disk_ok (commit_start io mb s)" by (rule disk_ok_cong [OF s(3)]) (use ne in \<open>simp_all add: commit_start_def\<close>)
  note L = commit_locked_disk [OF s1(1,2) this nd names s1(3) f(2) s1(4,5) u(1)]
  have t: "c_dir t = (c_dir u)(ci_meta_temp io := None, temporary := None)" "entry_view t = entry_view u" "keys_of t = keys_of u"
    using u(2) nd by (auto simp: remove_temp_def Remove_def)
  have "disk_ok t" by (rule disk_ok_cong [of u]) (use L ne in \<open>auto simp: t\<close>)
  moreover have "\<forall>name. path_free name \<and> name \<noteq> temporary \<longrightarrow> c_dir t name = c_dir s name"
    using L g d1 by (auto simp: t(1))
  moreover have "entries_from marshal key meta f (err = None) s t"
    unfolding entries_from_def
  proof
    fix k
    assume "k \<in> keys_of t"
    then have k: "k \<in> keys_of u" by (simp add: t(3))
    have p: "c_dir t (bodyPath k) = c_dir u (bodyPath k)" "c_dir t (metaPath k) = c_dir u (metaPath k)"
      "c_dir (commit_start io mb s) (bodyPath k) = c_dir s (bodyPath k)"
      "c_dir (commit_start io mb s) (metaPath k) = c_dir s (metaPath k)"
      using ne d1 by (simp_all add: t(1))
    have i: "if k = key then c_dir u (bodyPath k) = Some f \<and> c_dir u (metaPath k) = Some ?g
        else k \<in> keys_of s \<and> c_dir u (bodyPath k) = c_dir s (bodyPath k) \<and> c_dir u (metaPath k) = c_dir s (metaPath k)"
      using conjunct1 [OF conjunct2 [OF conjunct2 [OF L]]] k unfolding installed_def s1(6) by (metis p(3,4))
    have "err \<noteq> None \<longrightarrow> k \<noteq> key" using conjunct2 [OF conjunct2 [OF conjunct2 [OF L]]] k by auto
    then show "if err = None \<and> k = key
        then c_dir t (bodyPath k) = Some f \<and>
             (\<exists>g. c_dir t (metaPath k) = Some g \<and> marshal meta = Some (cf_data g) \<and> length (cf_data g) \<le> maxMetadataBytes)
        else k \<in> keys_of s \<and> c_dir t (bodyPath k) = c_dir s (bodyPath k) \<and> c_dir t (metaPath k) = c_dir s (metaPath k)"
      using i mb unfolding p by (auto split: if_splits)
  qed
  ultimately show ?thesis by (simp add: t(1))
qed

text \<open>The invariant of the store.\<close>

definition store_ok :: "cache \<Rightarrow> bool" where
  "store_ok s \<longleftrightarrow> index_ok s \<and> 0 < c_maxBytes s \<and> c_total s \<le> c_maxBytes s \<and> disk_ok s"

lemma stored_view_sum: "0 \<le> c_maxBytes s \<Longrightarrow> sum_list (map snd (stored_view key n s)) \<le> c_maxBytes s"
  unfolding stored_view_def by (rule keep_recent_sum)

lemma commit_total:
  assumes "index_ok s" "0 \<le> c_maxBytes s" "c_total s \<le> c_maxBytes s" "0 \<le> md_size meta"
    and "commit marshal io key temporary is_open meta s = Some (err, t)"
  shows "c_total t \<le> c_maxBytes t"
proof -
  note c = commit_outcome [OF assms(1,2,4), of marshal io key temporary is_open]
  then have t: "index_ok t" "same_limits s t" using assms(5) by auto
  have "entry_view t = entry_view s \<or> entry_view t = filter (\<lambda>e. fst e \<noteq> key) (entry_view s) \<or> (\<exists>n. entry_view t = stored_view key n s)"
    using c assms(5) by (auto split: option.splits)
  then have "sum_list (map snd (entry_view t)) \<le> c_maxBytes s"
    using stored_view_sum [OF assms(2)] ri.remove_total [OF assms(1), of no_deny key] assms(3)
      ri.ok_total [OF assms(1)] ri.ok_total [OF ri.remove_ok [OF assms(1)], of no_deny key]
    by (auto simp: ri.remove_view [OF assms(1)])
  then show ?thesis using t by (simp add: ri.ok_total same_limits_def)
qed

lemma commit_store_ok [inv_intros]:
  assumes "store_ok s" "ci_deny io = no_deny" "path_free temporary" "path_free (ci_meta_temp io)" "temporary \<noteq> ci_meta_temp io"
    "c_dir s temporary = Some f" "int (length (cf_data f)) = md_size meta" "c_dir s (ci_meta_temp io) = None"
    and run: "commit marshal io key temporary is_open meta s = Some (err, t)"
  shows "store_ok t"
proof -
  have s: "index_ok s" "0 \<le> c_maxBytes s" "c_total s \<le> c_maxBytes s" "disk_ok s" "0 < c_maxBytes s"
    using assms(1) by (auto simp: store_ok_def)
  have "0 \<le> md_size meta" using assms(7) by linarith
  from commit_total [OF s(1-3) this run] commit_outcome [OF s(1,2) this, of marshal io key temporary is_open]
    commit_disk [OF s(1,2,4) assms(2-8) run] run s(5)
  show ?thesis by (auto simp: store_ok_def same_limits_def)
qed

section \<open>Load\<close>

definition load_hit ::
  "(string \<Rightarrow> metadata option) \<Rightarrow> load_io \<Rightarrow> string \<Rightarrow> cache \<Rightarrow> metadata \<Rightarrow> cache_file \<Rightarrow> bool" where
  "load_hit unmarshal io key s meta b \<longleftrightarrow>
     (\<exists>f. Open io (metaPath key) (c_dir s) = Some f \<and> unmarshal (take maxMetadataBytes (cf_data f)) = Some meta) \<and>
     li_now io \<le> stale_until meta \<and> Open io (bodyPath key) (c_dir s) = Some b \<and> \<not> li_stat_fail io \<and>
     md_size meta = int (length (cf_data b))"

definition load_touched :: "load_io \<Rightarrow> string \<Rightarrow> cache \<Rightarrow> cache" where
  "load_touched io key s =
     touch_entry key (s\<lparr>c_dir := Chtimes io (bodyPath key) (Chtimes io (metaPath key) (c_dir s))\<rparr>)"

lemma load_hit_result:
  assumes "load_hit unmarshal io key s meta b"
    and "refresh \<longleftrightarrow> md_expiresAt meta < li_now io \<and> key \<notin> c_refreshing s"
  shows "load unmarshal io key s = (Some (cached_response meta (li_now io) (cf_data b), refresh),
    if refresh then (load_touched io key s)\<lparr>c_refreshing := insert key (c_refreshing s)\<rparr> else load_touched io key s)"
proof -
  have "c_refreshing (load_touched io key s) = c_refreshing s"
    by (simp add: load_touched_def touch_entry_def split: option.split)
  then show ?thesis
    using assms by (auto simp: load_hit_def load_def load_touched_def Let_def)
qed

lemma load_cases:
  "load unmarshal io key s = (None, s) \<or> load unmarshal io key s = (None, removeLocked (li_deny io) key s) \<or>
   (\<exists>meta b. load_hit unmarshal io key s meta b)"
proof (cases "Open io (metaPath key) (c_dir s)")
  case None
  then show ?thesis by (simp add: load_def)
next
  case (Some f)
  show ?thesis
  proof (cases "unmarshal (take maxMetadataBytes (cf_data f))")
    case None
    then show ?thesis using Some by (simp add: load_def Let_def)
  next
    case meta: (Some meta)
    show ?thesis
    proof (cases "stale_until meta < li_now io")
      case True
      then show ?thesis using Some meta by (simp add: load_def Let_def)
    next
      case False
      show ?thesis
      proof (cases "Open io (bodyPath key) (c_dir s)")
        case None
        then show ?thesis using Some meta False by (simp add: load_def Let_def)
      next
        case b: (Some b)
        show ?thesis
        proof (cases "li_stat_fail io \<or> int (length (cf_data b)) \<noteq> md_size meta")
          case True
          then show ?thesis using Some meta False b by (simp add: load_def Let_def)
        next
          case ok: False
          then have "load_hit unmarshal io key s meta b" using Some meta False b by (auto simp: load_hit_def)
          then show ?thesis by blast
        qed
      qed
    qed
  qed
qed

lemma load_miss: "fst (load unmarshal io key s) = None \<Longrightarrow> snd (load unmarshal io key s) = s \<or> snd (load unmarshal io key s) = removeLocked (li_deny io) key s"
  using load_cases [of unmarshal io key s] load_hit_result [of unmarshal io key s] by auto

lemma load_touched_simps:
  "c_refreshing (load_touched io key s) = c_refreshing s" "same_limits s (load_touched io key s)"
  "c_total (load_touched io key s) = c_total s"
  "c_dir (load_touched io key s) = Chtimes io (bodyPath key) (Chtimes io (metaPath key) (c_dir s))"
  by (simp_all add: load_touched_def touch_entry_def same_limits_def split: option.split)

lemma Chtimes_data:
  "map_option cf_data (Chtimes io name d n) = map_option cf_data (d n)"
  "name \<noteq> n \<Longrightarrow> Chtimes io name d n = d n"
  by (simp_all add: Chtimes_def option.map_comp comp_def)

lemma file_size_data:
  "file_size d k = (case (map_option cf_data (d (metaPath k)), map_option cf_data (d (bodyPath k))) of
     (Some m, Some b) \<Rightarrow> Some (int (length m) + int (length b)) | _ \<Rightarrow> None)"
  by (simp add: file_size_def split: option.split)

lemma map_option_None_eq: "map_option f x = map_option f y \<Longrightarrow> x = None \<longleftrightarrow> y = None"
  by (cases x; cases y) auto

lemma disk_ok_data_cong:
  assumes "disk_ok s" "\<And>k. map_of (entry_view t) k = map_of (entry_view s) k"
    "\<And>n. map_option cf_data (c_dir t n) = map_option cf_data (c_dir s n)"
  shows "disk_ok t"
proof -
  have z: "file_size (c_dir t) k = file_size (c_dir s) k" for k by (simp add: file_size_data assms(3))
  have "c_dir t n = None \<longleftrightarrow> c_dir s n = None" for n by (rule map_option_None_eq [OF assms(3)])
  then have "case map_of (entry_view s) k of Some n \<Rightarrow> file_size (c_dir t) k = Some n
      | None \<Rightarrow> c_dir t (metaPath k) = None \<and> c_dir t (bodyPath k) = None" for k
    using assms(1) [unfolded disk_ok_def, rule_format, of k] z [of k]
    by (cases "map_of (entry_view s) k") simp_all
  then show ?thesis by (simp add: disk_ok_def assms(2))
qed

lemma map_of_filter_eq: "map_of (filter (\<lambda>e. fst e = k) xs) = (\<lambda>j. if j = k then map_of xs j else None)"
  by (induction xs) (auto simp: fun_eq_iff)

lemma map_of_partition:
  "map_of (filter (\<lambda>e. fst e = k) xs @ filter (\<lambda>e. fst e \<noteq> k) xs) j = map_of xs j"
  by (simp add: map_add_def map_of_filter_eq map_of_filter_key split: option.split)

lemma load_touched_ok:
  assumes "index_ok s"
  shows "index_ok (load_touched io key s)" "map_of (entry_view (load_touched io key s)) k = map_of (entry_view s) k"
    "map_option cf_data (c_dir (load_touched io key s) n) = map_option cf_data (c_dir s n)"
proof -
  let ?d = "s\<lparr>c_dir := Chtimes io (bodyPath key) (Chtimes io (metaPath key) (c_dir s))\<rparr>"
  have ok: "index_ok ?d" using assms by simp
  show "index_ok (load_touched io key s)" unfolding load_touched_def by (rule ri.touch_ok [OF ok])
  show "map_of (entry_view (load_touched io key s)) k = map_of (entry_view s) k"
    unfolding load_touched_def ri.touch_view [OF ok] by (simp add: map_of_partition del: map_of_append)
  show "map_option cf_data (c_dir (load_touched io key s) n) = map_option cf_data (c_dir s n)"
    by (simp add: load_touched_simps Chtimes_data)
qed

lemma view_refreshing [simp]:
  "entry_view (s\<lparr>c_refreshing := r\<rparr>) = entry_view s" "index_ok (s\<lparr>c_refreshing := r\<rparr>) = index_ok s"
  "keys_of (s\<lparr>c_refreshing := r\<rparr>) = keys_of s" "disk_ok (s\<lparr>c_refreshing := r\<rparr>) = disk_ok s"
  "store_ok (s\<lparr>c_refreshing := r\<rparr>) = store_ok s" "same_limits u (s\<lparr>c_refreshing := r\<rparr>) = same_limits u s"
  by (simp_all add: entry_view_def index_ok_def keys_of_def disk_ok_def store_ok_def same_limits_def cong: option.case_cong)

lemma removeLocked_store_ok:
  assumes "store_ok s"
  shows "store_ok (removeLocked no_deny key s)"
  using assms removeLocked_frame(1) [of s no_deny key] ri.remove_total [of s no_deny key]
  by (auto simp: store_ok_def ri.remove_ok disk_ok_remove same_limits_def)

lemma load_touched_store_ok:
  assumes "store_ok s"
  shows "store_ok (load_touched io key s)"
proof -
  have s: "index_ok s" "disk_ok s" using assms by (simp_all add: store_ok_def)
  have "disk_ok (load_touched io key s)"
    by (rule disk_ok_data_cong [OF s(2)]) (rule load_touched_ok(2,3) [OF s(1)])+
  then show ?thesis
    using assms load_touched_ok(1) [OF s(1), of io key] load_touched_simps(2) [of s io key]
    by (simp add: store_ok_def load_touched_simps(3) same_limits_def)
qed

lemma load_store_ok [inv_intros]:
  assumes "store_ok s" "li_deny io = no_deny"
  shows "store_ok (snd (load unmarshal io key s))"
proof (cases "\<exists>meta b. load_hit unmarshal io key s meta b")
  case True
  then obtain meta b where "load_hit unmarshal io key s meta b" by blast
  from load_hit_result [OF this refl] show ?thesis
    using load_touched_store_ok [OF assms(1), of io key] by simp
next
  case False
  then show ?thesis
    using load_cases [of unmarshal io key s] removeLocked_store_ok [OF assms(1), of key] assms by auto
qed

section \<open>Properties\<close>

definition example_file :: "string \<Rightarrow> cache_file" where
  "example_file content = \<lparr>cf_data = content, cf_mtime = 0, cf_regular = True\<rparr>"

definition example_element :: "nat \<Rightarrow> string \<Rightarrow> int \<Rightarrow> element" where
  "example_element i k n = \<lparr>el_id = i, el_key = k, el_size = n\<rparr>"

definition example_cache :: cache where
  "example_cache =
     \<lparr>c_maxBytes = 10, c_maxObjectBytes = 8, c_defaultTTL = 60, c_pending = 4, c_refreshing = {},
      c_index = [example_element 1 ''b'' 4, example_element 0 ''a'' 5],
      c_entries = [''a'' \<mapsto> example_element 0 ''a'' 5, ''b'' \<mapsto> example_element 1 ''b'' 4], c_total = 9, c_next = 2,
      c_dir = [''a.json'' \<mapsto> example_file ''mm'', ''a.body'' \<mapsto> example_file ''xxx'', ''b.json'' \<mapsto> example_file ''mm'',
               ''b.body'' \<mapsto> example_file ''xx'', ''.cache-1.tmp'' \<mapsto> example_file ''yyyy'']\<rparr>"

lemma example_cache_index: "index_ok example_cache"
  by (auto simp: index_ok_def example_cache_def example_element_def split: if_splits)

lemma example_cache_disk: "disk_ok example_cache"
proof -
  have v: "entry_view example_cache = [(''b'', 4), (''a'', 5)]"
    by (simp add: entry_view_def example_cache_def example_element_def)
  have "c_dir example_cache (metaPath k) = None \<and> c_dir example_cache (bodyPath k) = None" if "k \<noteq> ''a''" "k \<noteq> ''b''" for k
  proof -
    have "rev (metaPath k) \<noteq> rev ''a.json''" "rev (metaPath k) \<noteq> rev ''b.json''" "rev (metaPath k) \<noteq> rev ''a.body''"
      "rev (metaPath k) \<noteq> rev ''b.body''" "rev (metaPath k) \<noteq> rev ''.cache-1.tmp''"
      "rev (bodyPath k) \<noteq> rev ''a.json''" "rev (bodyPath k) \<noteq> rev ''b.json''" "rev (bodyPath k) \<noteq> rev ''a.body''"
      "rev (bodyPath k) \<noteq> rev ''b.body''" "rev (bodyPath k) \<noteq> rev ''.cache-1.tmp''"
      using that by (simp_all add: metaPath_def bodyPath_def rev_swap)
    then have "metaPath k \<noteq> ''a.json''" "metaPath k \<noteq> ''b.json''" "metaPath k \<noteq> ''a.body''"
      "metaPath k \<noteq> ''b.body''" "metaPath k \<noteq> ''.cache-1.tmp''"
      "bodyPath k \<noteq> ''a.json''" "bodyPath k \<noteq> ''b.json''" "bodyPath k \<noteq> ''a.body''"
      "bodyPath k \<noteq> ''b.body''" "bodyPath k \<noteq> ''.cache-1.tmp''" by blast+
    then show ?thesis by (simp add: example_cache_def)
  qed
  moreover have "file_size (c_dir example_cache) ''a'' = Some 5" "file_size (c_dir example_cache) ''b'' = Some 4"
    by (simp_all add: file_size_def metaPath_def bodyPath_def example_cache_def example_file_def)
  ultimately show ?thesis by (auto simp: disk_ok_def v)
qed

lemma example_cache_ok: "store_ok example_cache"
  using example_cache_index example_cache_disk by (simp add: store_ok_def) (simp add: example_cache_def)

text \<open>
  C22: The eviction loop returns for every store whose index is consistent, whatever removals fail, and
  leaves exactly the longest run of most recent entries that fits in the budget, within the budget.
\<close>

theorem eviction_returns:
  assumes "index_ok s" "0 \<le> c_maxBytes s"
  shows "\<exists>t. evictLocked deny s = Some t \<and> index_ok t \<and> entry_view t = keep_recent (c_maxBytes s) (entry_view s) \<and>
    c_total t \<le> c_maxBytes t"
proof -
  obtain t where t: "evictLocked deny s = Some t" "index_ok t" "entry_view t = keep_recent (c_maxBytes s) (entry_view s)" "same_limits s t"
    using evictLocked_returns [OF assms, of deny] by blast
  then have "c_total t \<le> c_maxBytes t"
    using keep_recent_sum [OF assms(2), of "entry_view s"] by (simp add: ri.ok_total same_limits_def)
  then show ?thesis using t by blast
qed

lemma eviction_returns_witness:
  "\<exists>t. evictLocked no_deny (example_cache\<lparr>c_maxBytes := 8\<rparr>) = Some t \<and> entry_view t = [(''b'', 4)]"
proof -
  have "index_ok (example_cache\<lparr>c_maxBytes := 8\<rparr>)" using example_cache_index by (simp add: index_ok_def)
  from eviction_returns [OF this, of no_deny] show ?thesis
    by (auto simp: entry_view_def example_cache_def example_element_def)
qed

text \<open>The invariant is needed: with an index element that the map does not know, the loop never ends.\<close>

lemma eviction_may_diverge:
  assumes "c_maxBytes s < c_total s" "c_index s \<noteq> []" "removeLocked deny (el_key (last (c_index s))) s = s"
  shows "evictLocked deny s = None"
proof -
  have "u \<noteq> s" if ret: "evictLocked deny u = Some t" for u t
  proof (rule evictLocked.raw_induct [where P = "\<lambda>d u t. d = deny \<longrightarrow> u \<noteq> s", OF _ ret, THEN mp, OF _ refl])
    fix f d u t
    assume IH: "\<And>d u t. f d u = Some t \<Longrightarrow> d = deny \<longrightarrow> u \<noteq> s"
      and eq: "(if c_total u \<le> c_maxBytes u then Some u
         else case rev (c_index u) of [] \<Rightarrow> Some u | oldest # _ \<Rightarrow> f d (removeLocked d (el_key oldest) u)) = Some t"
    show "d = deny \<longrightarrow> u \<noteq> s"
    proof (intro impI notI)
      assume "d = deny" "u = s"
      obtain xs x where x: "c_index s = xs @ [x]" using assms(2) by (cases "c_index s" rule: rev_cases) auto
      then have "f deny s = Some t" using eq assms \<open>u = s\<close> \<open>d = deny\<close> by simp
      with IH show False by blast
    qed
  qed
  then show ?thesis by (cases "evictLocked deny s") auto
qed

text \<open>
  A commit returns, and when it succeeds the index is the new entry in front of the others, cut to
  the longest run of most recent entries that fits; when it fails the index loses at most this key.
\<close>

theorem commit_recent:
  assumes "index_ok s" "0 \<le> c_maxBytes s" "0 \<le> md_size meta"
  shows "\<exists>err t. commit marshal io key temporary is_open meta s = Some (err, t) \<and> index_ok t \<and>
    c_pending t = c_pending s \<and> c_refreshing t = c_refreshing s \<and>
    (case err of
       None \<Rightarrow> \<exists>mb. marshal meta = Some mb \<and> length mb \<le> maxMetadataBytes \<and>
         entry_view t = keep_recent (c_maxBytes s) ((key, md_size meta + int (length mb)) # filter (\<lambda>e. fst e \<noteq> key) (entry_view s))
     | Some e \<Rightarrow> entry_view t = entry_view s \<or> entry_view t = filter (\<lambda>e. fst e \<noteq> key) (entry_view s))"
  using commit_outcome [OF assms, of marshal io key temporary is_open]
  unfolding stored_view_def same_limits_def by blast

definition example_meta :: "int \<Rightarrow> metadata" where
  "example_meta n = \<lparr>md_status = ''200 OK'', md_code = 200, md_proto = ''HTTP/1.1'', md_proto_major = 1, md_proto_minor = 1,
     md_header = [(''Etag'', [''x''])], md_size = n, md_storedAt = 5, md_expiresAt = 1000, md_staleUntil = 2000\<rparr>"

definition example_commit :: commit_io where
  "example_commit = \<lparr>ci_fail = None, ci_meta_temp = ''.metadata-1.tmp'', ci_now = 7,
     ci_body = \<lparr>ri_rename1 = True, ri_remove_error = False, ri_rename2 = True\<rparr>,
     ci_meta = \<lparr>ri_rename1 = False, ri_remove_error = False, ri_rename2 = True\<rparr>, ci_deny = no_deny\<rparr>"

definition example_marshal :: "metadata \<Rightarrow> string option" where "example_marshal m = Some ''mm''"

lemma commit_recent_witness:
  "\<exists>err t. commit example_marshal example_commit ''c'' ''.cache-1.tmp'' True (example_meta 4) example_cache = Some (err, t) \<and>
     (err = None \<longrightarrow> entry_view t = [(''c'', 6), (''b'', 4)])"
proof -
  have "0 \<le> c_maxBytes example_cache" "0 \<le> md_size (example_meta 4)"
    by (simp_all add: example_cache_def example_meta_def)
  from commit_recent [OF example_cache_index this, of example_marshal example_commit "''c''" "''.cache-1.tmp''" True]
  obtain err t where t: "commit example_marshal example_commit ''c'' ''.cache-1.tmp'' True (example_meta 4) example_cache = Some (err, t)"
    "err = None \<longrightarrow> (\<exists>mb. example_marshal (example_meta 4) = Some mb \<and> entry_view t = keep_recent (c_maxBytes example_cache)
       ((''c'', md_size (example_meta 4) + int (length mb)) # filter (\<lambda>e. fst e \<noteq> ''c'') (entry_view example_cache)))"
    by (auto split: option.splits)
  moreover have "err = None \<longrightarrow> entry_view t = [(''c'', 6), (''b'', 4)]"
    using t(2) by (auto simp: example_marshal_def example_meta_def entry_view_def example_cache_def example_element_def)
  ultimately show ?thesis by blast
qed

text \<open>
  An object that passes the object limit but not, with its metadata, the cache budget empties the
  cache: every other entry is evicted before the new one.
\<close>

lemma oversize_entry_empties_cache:
  assumes "c_maxBytes s < n"
  shows "stored_view key n s = []"
  using assms by (simp add: stored_view_def)

text \<open>
  C21: A body that was committed is what the next load returns, with its metadata: if the entry fits
  the budget, the metadata text is readable again and neither removals nor reads fail, the load after a
  successful commit is a hit with exactly the bytes of the temporary file.
\<close>

theorem commit_then_load:
  assumes store: "store_ok s" and nd: "ci_deny io = no_deny"
    and names: "temporaryName temporary" "temporaryName (ci_meta_temp io)" "temporary \<noteq> ci_meta_temp io"
    and f: "c_dir s temporary = Some f" "int (length (cf_data f)) = md_size meta"
    and g: "c_dir s (ci_meta_temp io) = None"
    and run: "commit marshal io key temporary is_open meta s = Some (None, t)"
    and json: "\<forall>mb. marshal meta = Some mb \<longrightarrow> unmarshal mb = Some meta \<and> md_size meta + int (length mb) \<le> c_maxBytes s"
    and load_ok: "li_unreadable lio = no_deny" "\<not> li_stat_fail lio" "li_now lio \<le> stale_until meta"
  shows "fst (load unmarshal lio key t) = Some (cached_response meta (li_now lio) (cf_data f),
    md_expiresAt meta < li_now lio \<and> key \<notin> c_refreshing s)"
proof -
  have s: "index_ok s" "0 \<le> c_maxBytes s" "disk_ok s" using store by (auto simp: store_ok_def)
  have size: "0 \<le> md_size meta" using f(2) by linarith
  obtain mb where mb: "marshal meta = Some mb" "entry_view t = stored_view key (md_size meta + int (length mb)) s"
    and refr: "c_refreshing t = c_refreshing s"
    using commit_outcome [OF s(1,2) size, of marshal io key temporary is_open] run by auto
  have "key \<in> keys_of t" using json mb by (simp add: keys_of_def stored_view_def)
  then obtain h where h: "c_dir t (bodyPath key) = Some f" "c_dir t (metaPath key) = Some h"
    "marshal meta = Some (cf_data h)" "length (cf_data h) \<le> maxMetadataBytes"
    using commit_disk [OF s nd temporaryName_path_free [OF names(1)] temporaryName_path_free [OF names(2)] names(3) f g run]
    unfolding entries_from_def by (metis (no_types, lifting))
  then have "load_hit unmarshal lio key t meta f"
    using json load_ok f(2) by (simp add: load_hit_def Open_def)
  from load_hit_result [OF this refl] show ?thesis by (simp add: refr)
qed

definition example_load :: "go_time \<Rightarrow> load_io" where
  "example_load now = \<lparr>li_now = now, li_unreadable = no_deny, li_stat_fail = False, li_chtimes_fail = no_deny, li_deny = no_deny\<rparr>"

lemma example_temporary_names: "temporaryName ''.cache-1.tmp''" "temporaryName ''.metadata-1.tmp''"
  by code_simp+

lemma commit_then_load_witness:
  "\<exists>t. commit example_marshal example_commit ''c'' ''.cache-1.tmp'' True (example_meta 4) example_cache = Some (None, t) \<and>
    fst (load (\<lambda>_. Some (example_meta 4)) (example_load 1500) ''c'' t) =
      Some (cached_response (example_meta 4) 1500 ''yyyy'', True)"
proof -
  have io: "replace (ci_body example_commit) a b d = (True, rename_file a b d)"
    "replace (ci_meta example_commit) a b d = (True, rename_file a b (d(b := None)))"
    "ci_fail example_commit = None" "ci_deny example_commit = no_deny" for a b d
    by (simp_all add: example_commit_def replace_def Let_def)
  let ?s = "commit_start example_commit ''mm'' example_cache"
  have "index_ok ?s" "0 \<le> c_maxBytes ?s" "(0::int) \<le> 6"
    using example_cache_index by (simp_all add: example_cache_def)
  note ev = store_entry_returns [OF this, of no_deny "''c''"]
  have "commit example_marshal example_commit ''c'' ''.cache-1.tmp'' True (example_meta 4) example_cache =
      map_option (map_prod id (remove_temp example_commit ''.cache-1.tmp'' \<circ> remove_temp example_commit (ci_meta_temp example_commit)))
        (commit_locked example_commit ''c'' ''.cache-1.tmp'' 4 2 ?s)"
    by (simp add: commit_def io(3) example_marshal_def Let_def commit_start_def maxMetadataBytes_def example_meta_def)
  moreover obtain u where "commit_locked example_commit ''c'' ''.cache-1.tmp'' 4 2 ?s = Some (None, u)"
    using ev [of "rename_file (ci_meta_temp example_commit) (metaPath ''c'')
      ((rename_file ''.cache-1.tmp'' (bodyPath ''c'') (c_dir (removeLocked no_deny ''c'' ?s)))(metaPath ''c'' := None))"]
    by (auto simp: commit_locked_def io Let_def)
  ultimately obtain t where run: "commit example_marshal example_commit ''c'' ''.cache-1.tmp'' True (example_meta 4) example_cache = Some (None, t)"
    by auto
  have names: "temporaryName ''.cache-1.tmp''" "temporaryName (ci_meta_temp example_commit)"
    "''.cache-1.tmp'' \<noteq> ci_meta_temp example_commit" "ci_deny example_commit = no_deny"
    using example_temporary_names by (simp_all add: example_commit_def)
  have files: "c_dir example_cache ''.cache-1.tmp'' = Some (example_file ''yyyy'')"
    "c_dir example_cache (ci_meta_temp example_commit) = None" "c_maxBytes example_cache = 10" "c_refreshing example_cache = {}"
    by (simp_all add: example_cache_def example_commit_def)
  have meta: "int (length (cf_data (example_file ''yyyy''))) = md_size (example_meta 4)" "md_size (example_meta 4) = 4"
    "md_expiresAt (example_meta 4) = 1000" "stale_until (example_meta 4) = 2000" "cf_data (example_file ''yyyy'') = ''yyyy''"
    by (simp_all add: example_file_def example_meta_def stale_until_def zero_time_def)
  have lio: "li_unreadable (example_load 1500) = no_deny" "\<not> li_stat_fail (example_load 1500)" "li_now (example_load 1500) = 1500"
    by (simp_all add: example_load_def)
  have json: "\<forall>mb. example_marshal (example_meta 4) = Some mb \<longrightarrow>
      Some (example_meta 4) = Some (example_meta 4) \<and> md_size (example_meta 4) + int (length mb) \<le> c_maxBytes example_cache"
    using files(3) meta(2) by (auto simp: example_marshal_def)
  have "li_now (example_load 1500) \<le> stale_until (example_meta 4)" using meta(4) lio(3) by simp
  from commit_then_load [where unmarshal = "\<lambda>_. Some (example_meta 4)", OF example_cache_ok names(4,1,2,3) files(1) meta(1) files(2) run json lio(1,2) this]
  have "fst (load (\<lambda>_. Some (example_meta 4)) (example_load 1500) ''c'' t) = Some (cached_response (example_meta 4) 1500 ''yyyy'', True)"
    by (simp only: lio(3) meta(3,5) files(4)) simp
  then show ?thesis using run by blast
qed

text \<open>
  C23: A load answers only from a complete entry that is not past its stale limit: the body is the file's,
  its length is the stored size, the status header tells whether it is fresh, the age is the origin's plus
  the time in the cache, other headers are the stored ones, and a refresh is asked for only for a stale
  entry whose key was not being refreshed and then is.
\<close>

theorem load_sound:
  assumes "load unmarshal io key s = (Some (resp, refresh), t)"
  shows "\<exists>f b meta. c_dir s (metaPath key) = Some f \<and> unmarshal (take maxMetadataBytes (cf_data f)) = Some meta \<and>
    c_dir s (bodyPath key) = Some b \<and> resp_body resp = Some [cf_data b] \<and> resp_length resp = int (length (cf_data b)) \<and>
    resp_code resp = md_code meta \<and> li_now io \<le> stale_until meta \<and>
    hget (resp_header resp) statusHeader = (if li_now io \<le> md_expiresAt meta then ''HIT'' else ''STALE'') \<and>
    (\<forall>n. CanonicalKey n \<noteq> ''Age'' \<and> CanonicalKey n \<noteq> statusHeader \<longrightarrow> hvalues (resp_header resp) n = hvalues (md_header meta) n) \<and>
    hget (resp_header resp) ''Age'' = FormatInt (current_age meta (li_now io)) \<and>
    (refresh \<longleftrightarrow> md_expiresAt meta < li_now io \<and> key \<notin> c_refreshing s) \<and>
    c_refreshing t = c_refreshing s \<union> (if refresh then {key} else {})"
proof -
  obtain meta b where hit: "load_hit unmarshal io key s meta b"
    using assms load_cases [of unmarshal io key s] by auto
  note r = load_hit_result [OF hit refl]
  have canon: "CanonicalKey ''Age'' = ''Age''" "CanonicalKey statusHeader = statusHeader" "''Age'' \<noteq> statusHeader"
    by (simp_all add: statusHeader_def str_simps)
  have resp: "resp = cached_response meta (li_now io) (cf_data b)"
    "refresh \<longleftrightarrow> md_expiresAt meta < li_now io \<and> key \<notin> c_refreshing s"
    "c_refreshing t = (if refresh then insert key (c_refreshing s) else c_refreshing s)"
    using r assms by (auto simp: load_touched_simps(1))
  obtain f where "c_dir s (metaPath key) = Some f" "unmarshal (take maxMetadataBytes (cf_data f)) = Some meta"
    "c_dir s (bodyPath key) = Some b" "li_now io \<le> stale_until meta" "md_size meta = int (length (cf_data b))"
    using hit by (auto simp: load_hit_def Open_def split: if_splits)
  moreover have "hget (resp_header resp) statusHeader = (if li_now io \<le> md_expiresAt meta then ''HIT'' else ''STALE'')"
    "hget (resp_header resp) ''Age'' = FormatInt (current_age meta (li_now io))"
    "\<forall>n. CanonicalKey n \<noteq> ''Age'' \<and> CanonicalKey n \<noteq> statusHeader \<longrightarrow> hvalues (resp_header resp) n = hvalues (md_header meta) n"
    using canon by (simp_all add: resp cached_response_def hget_hset hvalues_hset)
  ultimately show ?thesis using resp(2,3) by (auto simp: resp(1) cached_response_def)
qed

lemma load_sound_witness:
  "\<exists>t. load (\<lambda>_. Some (example_meta 3)) (example_load 900) ''a'' example_cache =
      (Some (cached_response (example_meta 3) 900 ''xxx'', False), t) \<and>
     hget (resp_header (cached_response (example_meta 3) 900 ''xxx'')) statusHeader = ''HIT''"
proof -
  have "load_hit (\<lambda>_. Some (example_meta 3)) (example_load 900) ''a'' example_cache (example_meta 3) (example_file ''xxx'')"
    by (simp add: load_hit_def Open_def example_load_def example_cache_def example_file_def metaPath_def bodyPath_def
        example_meta_def stale_until_def zero_time_def)
  from load_hit_result [OF this refl]
  obtain t where t: "load (\<lambda>_. Some (example_meta 3)) (example_load 900) ''a'' example_cache =
      (Some (cached_response (example_meta 3) 900 ''xxx'', False), t)"
    by (simp add: example_meta_def example_load_def example_file_def)
  have "li_now (example_load 900) = 900" "md_expiresAt (example_meta 3) = 1000"
    by (simp_all add: example_load_def example_meta_def)
  then have "hget (resp_header (cached_response (example_meta 3) 900 ''xxx'')) statusHeader = ''HIT''"
    using load_sound [OF t] by auto
  then show ?thesis using t by blast
qed

end
