(* ===== verification/CacheScan.thy ===== *)
theory CacheScan
  imports CacheRules "HOL-Library.Multiset"
begin

text \<open>
  Starting on a cache directory: what the scan collects from the items of the directory, and the
  property that a store opened on a directory is consistent with it, holds exactly the complete
  entries that fit, newest first, and has removed nothing but entries and stale temporary files.
\<close>

section \<open>What the loop collects\<close>









section \<open>The complete entries of a directory\<close>













section \<open>Building the index\<close>








section \<open>Opening a cache\<close>








end
