(* ===== verification/CacheTransport.thy ===== *)
theory CacheTransport
  imports CacheRules
begin

text \<open>
  The round tripper of \<open>internal/cache/cache.go\<close> with its concurrency: the body that copies a
  response into a temporary file while the client reads it, the byte counter shared by all such
  downloads, \<open>RoundTrip\<close>, and the background refresh. A \<open>Read\<close> is split where other goroutines
  can run in between: at the addition to \<open>pending\<close>, before a refused addition is taken back or the
  chunk is written, before the commit, and before the bytes are given back after it.
\<close>

section \<open>Bodies\<close>

text \<open>
  Where a \<open>Read\<close> call stands. \<open>Reserved\<close> and \<open>Refused\<close>: the chunk was added to \<open>pending\<close>, and the
  sum was within the budget or not; \<open>AtEnd\<close>: the chunk is done with, the flag tells whether the source
  is at its end; \<open>Release\<close>: \<open>commit\<close> has returned.
\<close>

datatype body_phase = Idle | Reserved string bool | Refused string bool | AtEnd bool | Release "commit_error option"

text \<open>
  \<open>cb_open\<close> is whether the temporary file is open. \<open>cb_read\<close> is history for the proofs: all bytes
  the source has returned.
\<close>

record cbody =
  cb_temp :: string
  cb_key :: string
  cb_meta :: metadata
  cb_written :: int
  cb_disabled :: bool
  cb_committed :: bool
  cb_open :: bool
  cb_phase :: body_phase
  cb_closed :: bool
  cb_read :: string

record capture_io =
  cp_temp :: string
  cp_create_fail :: bool
  cp_chmod_fail :: bool
  cp_now :: go_time
  cp_deny :: "string \<Rightarrow> bool"

definition set_file :: "string \<Rightarrow> string \<Rightarrow> go_time \<Rightarrow> cache \<Rightarrow> cache" where
  "set_file name content now s =
     s\<lparr>c_dir := (c_dir s)(name \<mapsto> \<lparr>cf_data = content, cf_mtime = now, cf_regular = True\<rparr>)\<rparr>"

definition remove_file :: "(string \<Rightarrow> bool) \<Rightarrow> string \<Rightarrow> cache \<Rightarrow> cache" where
  "remove_file deny name s = s\<lparr>c_dir := Remove deny name (c_dir s)\<rparr>"

definition add_pending :: "int \<Rightarrow> cache \<Rightarrow> cache" where
  "add_pending n s = s\<lparr>c_pending := c_pending s + n\<rparr>"

definition capture :: "capture_io \<Rightarrow> string \<Rightarrow> metadata \<Rightarrow> cache \<Rightarrow> cbody option \<times> cache" where
  "capture io key meta s =
     (if cp_create_fail io then (None, s)
      else
        let s1 = set_file (cp_temp io) [] (cp_now io) s
        in if cp_chmod_fail io then (None, remove_file (cp_deny io) (cp_temp io) s1)
           else (Some \<lparr>cb_temp = cp_temp io, cb_key = key, cb_meta = meta, cb_written = 0, cb_disabled = False,
                       cb_committed = False, cb_open = True, cb_phase = Idle, cb_closed = False, cb_read = []\<rparr>, s1))"

definition disable :: "(string \<Rightarrow> bool) \<Rightarrow> cbody \<times> cache \<Rightarrow> cbody \<times> cache" where
  "disable deny = (\<lambda>(b, s).
     if cb_disabled b \<or> cb_committed b then (b, s)
     else (b\<lparr>cb_disabled := True, cb_written := 0, cb_open := False\<rparr>,
           remove_file deny (cb_temp b) (add_pending (- cb_written b) s)))"

definition at_phase :: "body_phase \<Rightarrow> cbody \<times> cache \<Rightarrow> cbody \<times> cache" where
  "at_phase p = (\<lambda>(b, s). (b\<lparr>cb_phase := p\<rparr>, s))"

text \<open>The source has returned \<open>chunk\<close>, and \<open>io.EOF\<close> when \<open>eof\<close>.\<close>

definition read_begin :: "(string \<Rightarrow> bool) \<Rightarrow> string \<Rightarrow> bool \<Rightarrow> cbody \<times> cache \<Rightarrow> cbody \<times> cache" where
  "read_begin deny chunk eof = (\<lambda>(b0, s).
     let b = b0\<lparr>cb_read := cb_read b0 @ chunk\<rparr>; n = int (length chunk)
     in if 0 < n \<and> \<not> cb_disabled b then
          if c_maxObjectBytes s < cb_written b + n then at_phase (AtEnd eof) (disable deny (b, s))
          else
            let s1 = add_pending n s
            in if c_maxBytes s1 < c_pending s1 then (b\<lparr>cb_phase := Refused chunk eof\<rparr>, s1)
               else (b\<lparr>cb_phase := Reserved chunk eof\<rparr>, s1)
        else (b\<lparr>cb_phase := AtEnd eof\<rparr>, s))"

text \<open>
  The rest of the chunk's handling. \<open>part\<close> is what a failing \<open>Write\<close> has written; a closed file
  cannot be written.
\<close>

definition read_chunk :: "(string \<Rightarrow> bool) \<Rightarrow> string option \<Rightarrow> go_time \<Rightarrow> cbody \<times> cache \<Rightarrow> cbody \<times> cache" where
  "read_chunk deny part now = (\<lambda>(b, s).
     case cb_phase b of
       Refused chunk eof \<Rightarrow> at_phase (AtEnd eof) (disable deny (b, add_pending (- int (length chunk)) s))
     | Reserved chunk eof \<Rightarrow>
         let content = (case c_dir s (cb_temp b) of None \<Rightarrow> [] | Some f \<Rightarrow> cf_data f)
         in if \<not> cb_open b then at_phase (AtEnd eof) (disable deny (b, add_pending (- int (length chunk)) s))
            else (case part of
              Some p \<Rightarrow> at_phase (AtEnd eof)
                (disable deny (b, add_pending (- int (length chunk)) (set_file (cb_temp b) (content @ p) now s)))
            | None \<Rightarrow> (b\<lparr>cb_written := cb_written b + int (length chunk), cb_phase := AtEnd eof\<rparr>,
                       set_file (cb_temp b) (content @ chunk) now s))
     | _ \<Rightarrow> (b, s))"

definition read_finish ::
  "(metadata \<Rightarrow> string option) \<Rightarrow> commit_io \<Rightarrow> cbody \<times> cache \<Rightarrow> (cbody \<times> cache) option" where
  "read_finish marshal io = (\<lambda>(b, s).
     case cb_phase b of
       AtEnd eof \<Rightarrow>
         if eof \<and> \<not> cb_disabled b then
           let meta = (cb_meta b)\<lparr>md_size := cb_written b\<rparr>
           in map_option (\<lambda>(err, s1). (b\<lparr>cb_meta := meta, cb_open := False, cb_phase := Release err\<rparr>, s1))
                (commit marshal io (cb_key b) (cb_temp b) (cb_open b) meta s)
         else Some (b\<lparr>cb_phase := Idle\<rparr>, s)
     | _ \<Rightarrow> Some (b, s))"

definition read_release :: "cbody \<times> cache \<Rightarrow> cbody \<times> cache" where
  "read_release = (\<lambda>(b, s).
     case cb_phase b of
       Release err \<Rightarrow>
         (b\<lparr>cb_written := 0, cb_committed := cb_committed b \<or> err = None, cb_disabled := cb_disabled b \<or> err \<noteq> None,
            cb_phase := Idle\<rparr>, add_pending (- cb_written b) s)
     | _ \<Rightarrow> (b, s))"

definition body_close :: "(string \<Rightarrow> bool) \<Rightarrow> cbody \<times> cache \<Rightarrow> cbody \<times> cache" where
  "body_close deny = (\<lambda>(b, s).
     case (if cb_committed b then (b, s) else disable deny (b, s)) of
       (b1, s1) \<Rightarrow> (b1\<lparr>cb_closed := True\<rparr>, s1))"

section \<open>Round trips\<close>

definition set_status :: "string \<Rightarrow> response \<Rightarrow> response" where
  "set_status v r = r\<lparr>resp_header := hset (resp_header r) statusHeader v\<rparr>"

record trip_io =
  tr_load :: load_io
  tr_now :: go_time
  tr_stored :: go_time
  tr_capture :: capture_io

definition response_meta :: "response \<Rightarrow> header \<Rightarrow> go_time \<Rightarrow> expiration \<Rightarrow> metadata" where
  "response_meta r h stored e =
     \<lparr>md_status = resp_status r, md_code = resp_code r, md_proto = resp_proto r, md_proto_major = resp_proto_major r,
      md_proto_minor = resp_proto_minor r, md_header = h, md_size = 0, md_storedAt = stored,
      md_expiresAt = ex_freshUntil e, md_staleUntil = ex_staleUntil e\<rparr>"

text \<open>Whether a response is stored, and until when.\<close>

definition storable :: "(string \<Rightarrow> go_time option) \<Rightarrow> response \<Rightarrow> go_time \<Rightarrow> cache \<Rightarrow> expiration option" where
  "storable parse_time r now s =
     (case responseExpiration parse_time r now (c_defaultTTL s) of
        None \<Rightarrow> None
      | Some e \<Rightarrow> if resp_body r = None \<or> c_maxObjectBytes s < resp_length r then None else Some e)"

text \<open>
  What becomes of the origin's answer to a request that was not in the cache: what the caller gets, the store, and the body
  that copies the response when there is one.
\<close>

definition fetch_trip ::
  "(string \<Rightarrow> go_time option) \<Rightarrow> trip_io \<Rightarrow> string \<Rightarrow> (string, response) result \<Rightarrow> cache
     \<Rightarrow> (string, response) result \<times> cache \<times> cbody option" where
  "fetch_trip parse_time io key origin s =
     (case origin of
        Inl e \<Rightarrow> (Err e, s, None)
      | Inr resp \<Rightarrow>
          (case storable parse_time resp (tr_now io) s of
             None \<Rightarrow> (Ok (set_status ''BYPASS'' resp), s, None)
           | Some e \<Rightarrow>
               let miss = set_status ''MISS'' resp;
                   meta = response_meta resp (hdel (resp_header miss) statusHeader) (tr_stored io) e
               in case capture (tr_capture io) key meta s of
                    (None, s1) \<Rightarrow> (Ok (set_status ''BYPASS'' miss), s1, None)
                  | (Some b, s1) \<Rightarrow> (Ok miss, s1, Some b)))"

text \<open>
  A round trip that nothing interrupts. The result: what the caller gets, the store, the body that copies the response when there
  is one, and the key whose refresh is started.
\<close>

definition RoundTrip ::
  "(string \<Rightarrow> metadata option) \<Rightarrow> (string \<Rightarrow> go_time option) \<Rightarrow> (string \<Rightarrow> string) \<Rightarrow> (url \<Rightarrow> string) \<Rightarrow> trip_io
     \<Rightarrow> request \<Rightarrow> (string, response) result \<Rightarrow> cache
     \<Rightarrow> (string, response) result \<times> cache \<times> cbody option \<times> string option" where
  "RoundTrip unmarshal parse_time digest url_string io r origin s =
     (case (cacheableRequest r, req_url r) of
        (True, Some u) \<Rightarrow>
          (let key = cacheKey digest url_string r u
           in case load unmarshal (tr_load io) key s of
                (Some (resp, refresh), s1) \<Rightarrow> (Ok resp, s1, None, if refresh then Some key else None)
              | (None, s1) \<Rightarrow> (case fetch_trip parse_time io key origin s1 of (res, s2, nb) \<Rightarrow> (res, s2, nb, None)))
      | _ \<Rightarrow> (map_sum id (set_status ''BYPASS'') origin, s, None, None))"

text \<open>The part of \<open>refresh\<close> up to the copying of the body.\<close>

definition refresh_fetch ::
  "(string \<Rightarrow> go_time option) \<Rightarrow> trip_io \<Rightarrow> string \<Rightarrow> (string, response) result \<Rightarrow> cache \<Rightarrow> cbody option \<times> cache" where
  "refresh_fetch parse_time io key origin s =
     (case origin of
        Inl e \<Rightarrow> (None, s)
      | Inr resp \<Rightarrow>
          (case storable parse_time resp (tr_now io) s of
             None \<Rightarrow> (None, s)
           | Some e \<Rightarrow> capture (tr_capture io) key (response_meta resp (resp_header resp) (tr_stored io) e) s))"

end
