(* ===== verification/CacheRuns.thy ===== *)
theory CacheRuns
  imports CacheTransport
begin

text \<open>
  All interleavings of a running cache: lookups of requests, answers of the origin, reads of the captured bodies, commits and
  background refreshes as one step relation, with the invariant of its reachable states: the byte
  counter is what the downloads hold, temporary data and cache stay within the budget, one refresh
  runs for each key at most, and what is served was once downloaded completely for that key.
\<close>

section \<open>The system\<close>

text \<open>
  A refresh goroutine: waiting for the origin, copying the body with that index, or about to run its
  deferred \<open>endRefresh\<close>.
\<close>

datatype refresh_task = Fetching string | Copying string nat | Ending string

primrec task_key :: "refresh_task \<Rightarrow> string" where
  "task_key (Fetching k) = k"
| "task_key (Copying k n) = k"
| "task_key (Ending k) = k"

text \<open>
  \<open>sys_waiting\<close>: the keys of the requests that were not in the cache and wait for the origin. \<open>sys_done\<close> is history: key,
  metadata and all bytes the origin sent of each download whose commit succeeded.
\<close>

record csys =
  sys_cache :: cache
  sys_bodies :: "cbody list"
  sys_tasks :: "refresh_task list"
  sys_waiting :: "string list"
  sys_done :: "(string \<times> metadata \<times> string) list"

definition put_body :: "nat \<Rightarrow> cbody \<times> cache \<Rightarrow> csys \<Rightarrow> csys" where
  "put_body i bs S = S\<lparr>sys_cache := snd bs, sys_bodies := (sys_bodies S)[i := fst bs]\<rparr>"

definition body_at :: "nat \<Rightarrow> csys \<Rightarrow> cbody \<times> cache" where
  "body_at i S = (sys_bodies S ! i, sys_cache S)"

definition add_body :: "cbody option \<Rightarrow> csys \<Rightarrow> csys" where
  "add_body nb S = S\<lparr>sys_bodies := sys_bodies S @ (case nb of None \<Rightarrow> [] | Some b \<Rightarrow> [b])\<rparr>"

text \<open>
  The environment of a step: removals succeed, and \<open>CreateTemp\<close> makes names that are not in use and
  were not used before by this process.
\<close>

definition capture_env :: "capture_io \<Rightarrow> csys \<Rightarrow> bool" where
  "capture_env io S \<longleftrightarrow> cp_deny io = no_deny \<and> temporaryName (cp_temp io) \<and> c_dir (sys_cache S) (cp_temp io) = None \<and>
     cp_temp io \<notin> cb_temp ` set (sys_bodies S)"

definition commit_env :: "commit_io \<Rightarrow> csys \<Rightarrow> bool" where
  "commit_env io S \<longleftrightarrow> ci_deny io = no_deny \<and> temporaryName (ci_meta_temp io) \<and> c_dir (sys_cache S) (ci_meta_temp io) = None \<and>
     ci_meta_temp io \<notin> cb_temp ` set (sys_bodies S)"

inductive cache_step ::
  "(metadata \<Rightarrow> string option) \<Rightarrow> (string \<Rightarrow> metadata option) \<Rightarrow> (string \<Rightarrow> go_time option) \<Rightarrow> (string \<Rightarrow> string)
     \<Rightarrow> (url \<Rightarrow> string) \<Rightarrow> csys \<Rightarrow> csys \<Rightarrow> bool"
  for marshal unmarshal parse_time digest url_string where
  looks_up: "cache_step marshal unmarshal parse_time digest url_string S
      (S\<lparr>sys_cache := s, sys_tasks := sys_tasks S @ (case lr of Some (resp, True) \<Rightarrow> [Fetching key] | _ \<Rightarrow> []),
         sys_waiting := sys_waiting S @ (if lr = None then [key] else [])\<rparr>)"
    if "cacheableRequest r" "req_url r = Some u" "key = cacheKey digest url_string r u"
      "load unmarshal io key (sys_cache S) = (lr, s)" "li_deny io = no_deny"
| arrives: "cache_step marshal unmarshal parse_time digest url_string S
      (add_body nb (S\<lparr>sys_cache := s, sys_waiting := take i (sys_waiting S) @ drop (Suc i) (sys_waiting S)\<rparr>))"
    if "i < length (sys_waiting S)" "fetch_trip parse_time io (sys_waiting S ! i) origin (sys_cache S) = (res, s, nb)"
      "capture_env (tr_capture io) S"
| fetch: "cache_step marshal unmarshal parse_time digest url_string S
      (add_body nb (S\<lparr>sys_cache := s, sys_tasks := (sys_tasks S)[i :=
         (case nb of None \<Rightarrow> Ending k | Some b \<Rightarrow> Copying k (length (sys_bodies S)))]\<rparr>))"
    if "i < length (sys_tasks S)" "sys_tasks S ! i = Fetching k"
      "refresh_fetch parse_time io k origin (sys_cache S) = (nb, s)" "capture_env (tr_capture io) S"
| copied: "cache_step marshal unmarshal parse_time digest url_string S (S\<lparr>sys_tasks := (sys_tasks S)[i := Ending k]\<rparr>)"
    if "i < length (sys_tasks S)" "sys_tasks S ! i = Copying k n" "cb_closed (sys_bodies S ! n)"
| ended: "cache_step marshal unmarshal parse_time digest url_string S
      (S\<lparr>sys_cache := endRefresh k (sys_cache S), sys_tasks := take i (sys_tasks S) @ drop (Suc i) (sys_tasks S)\<rparr>)"
    if "i < length (sys_tasks S)" "sys_tasks S ! i = Ending k"
| read: "cache_step marshal unmarshal parse_time digest url_string S (put_body i (read_begin no_deny chunk eof (body_at i S)) S)"
    if "i < length (sys_bodies S)" "cb_phase (sys_bodies S ! i) = Idle"
| chunk: "cache_step marshal unmarshal parse_time digest url_string S (put_body i (read_chunk no_deny part now (body_at i S)) S)"
    if "i < length (sys_bodies S)"
| finish: "cache_step marshal unmarshal parse_time digest url_string S
      ((put_body i (b, s) S)\<lparr>sys_done := sys_done S @ (if cb_phase b = Release None then [(cb_key b, cb_meta b, cb_read b)] else [])\<rparr>)"
    if "i < length (sys_bodies S)" "cb_phase (sys_bodies S ! i) = AtEnd eof"
      "read_finish marshal io (body_at i S) = Some (b, s)" "commit_env io S"
| release: "cache_step marshal unmarshal parse_time digest url_string S (put_body i (read_release (body_at i S)) S)"
    if "i < length (sys_bodies S)"
| close: "cache_step marshal unmarshal parse_time digest url_string S (put_body i (body_close no_deny (body_at i S)) S)"
    if "i < length (sys_bodies S)" "cb_phase (sys_bodies S ! i) = Idle"

inductive cache_run ::
  "(metadata \<Rightarrow> string option) \<Rightarrow> (string \<Rightarrow> metadata option) \<Rightarrow> (string \<Rightarrow> go_time option) \<Rightarrow> (string \<Rightarrow> string)
     \<Rightarrow> (url \<Rightarrow> string) \<Rightarrow> csys \<Rightarrow> csys \<Rightarrow> bool"
  for marshal unmarshal parse_time digest url_string where
  start: "cache_run marshal unmarshal parse_time digest url_string S S"
| next_step: "cache_run marshal unmarshal parse_time digest url_string S T \<Longrightarrow>
    cache_step marshal unmarshal parse_time digest url_string T U \<Longrightarrow>
    cache_run marshal unmarshal parse_time digest url_string S U"

section \<open>The invariant\<close>

text \<open>Bytes of a download in \<open>pending\<close>, and those of them that were within the budget.\<close>

definition held :: "cbody \<Rightarrow> int" where
  "held b = cb_written b +
     (case cb_phase b of Reserved c _ \<Rightarrow> int (length c) | Refused c _ \<Rightarrow> int (length c) | _ \<Rightarrow> 0)"

definition accepted_bytes :: "cbody \<Rightarrow> int" where
  "accepted_bytes b = cb_written b + (case cb_phase b of Reserved c _ \<Rightarrow> int (length c) | _ \<Rightarrow> 0)"

text \<open>
  A body with its temporary file open has written all it has read; one without has no file any more
  and has given its bytes back or is about to.
\<close>

definition body_ok :: "cache_dir \<Rightarrow> cbody \<Rightarrow> bool" where
  "body_ok d b \<longleftrightarrow> 0 \<le> cb_written b \<and> temporaryName (cb_temp b) \<and> (cb_closed b \<longrightarrow> \<not> cb_open b) \<and>
     (if cb_open b then
        \<not> cb_disabled b \<and> \<not> cb_committed b \<and>
        (\<exists>f. d (cb_temp b) = Some f \<and> int (length (cf_data f)) = cb_written b \<and>
           (case cb_phase b of
              Reserved c _ \<Rightarrow> cb_read b = cf_data f @ c
            | Refused c _ \<Rightarrow> True
            | Release e \<Rightarrow> False
            | _ \<Rightarrow> cb_read b = cf_data f))
      else
        d (cb_temp b) = None \<and>
        (case cb_phase b of Release e \<Rightarrow> True | _ \<Rightarrow> cb_written b = 0 \<and> (cb_disabled b \<or> cb_committed b)))"

definition tasks_ok :: "csys \<Rightarrow> bool" where
  "tasks_ok S \<longleftrightarrow> distinct (map task_key (sys_tasks S)) \<and> set (map task_key (sys_tasks S)) = c_refreshing (sys_cache S)"

text \<open>Every entry is a download that was completed, with its metadata.\<close>

definition content_of :: "cache \<Rightarrow> string \<Rightarrow> string option" where
  "content_of s n = map_option cf_data (c_dir s n)"

definition recorded :: "(metadata \<Rightarrow> string option) \<Rightarrow> cache \<Rightarrow> (string \<times> metadata \<times> string) list \<Rightarrow> bool" where
  "recorded marshal s done_list \<longleftrightarrow>
     (\<forall>k \<in> keys_of s. \<exists>m mb c. (k, m, c) \<in> set done_list \<and> marshal m = Some mb \<and> length mb \<le> maxMetadataBytes \<and>
        content_of s (metaPath k) = Some mb \<and> content_of s (bodyPath k) = Some c)"

definition sys_ok :: "(metadata \<Rightarrow> string option) \<Rightarrow> csys \<Rightarrow> bool" where
  "sys_ok marshal S \<longleftrightarrow>
     store_ok (sys_cache S) \<and> (\<forall>b \<in> set (sys_bodies S). body_ok (c_dir (sys_cache S)) b) \<and>
     distinct (map cb_temp (sys_bodies S)) \<and> c_pending (sys_cache S) = sum_list (map held (sys_bodies S)) \<and>
     sum_list (map accepted_bytes (sys_bodies S)) \<le> c_maxBytes (sys_cache S) \<and>
     recorded marshal (sys_cache S) (sys_done S)"

section \<open>Steps of one body\<close>

text \<open>A body step changes the counter and its own temporary file only.\<close>

definition touches :: "string \<Rightarrow> cache \<Rightarrow> cache \<Rightarrow> bool" where
  "touches name s t \<longleftrightarrow> (\<exists>p d. t = s\<lparr>c_pending := p, c_dir := d\<rparr> \<and> (\<forall>n. n \<noteq> name \<longrightarrow> d n = c_dir s n))"

lemma touches_refl: "touches name s s"
  unfolding touches_def by (rule exI [of _ "c_pending s"], rule exI [of _ "c_dir s"]) simp

lemma touches_trans:
  assumes "touches name s t" "touches name t u"
  shows "touches name s u"
proof -
  obtain p d p' d' where "t = s\<lparr>c_pending := p, c_dir := d\<rparr>" "\<forall>n. n \<noteq> name \<longrightarrow> d n = c_dir s n"
    "u = t\<lparr>c_pending := p', c_dir := d'\<rparr>" "\<forall>n. n \<noteq> name \<longrightarrow> d' n = c_dir t n"
    using assms by (auto simp: touches_def)
  then show ?thesis unfolding touches_def by (intro exI [of _ p'] exI [of _ d']) simp
qed

lemma touches_ops:
  "touches name s (add_pending n s)" "touches name s (set_file name c now s)" "touches name s (remove_file deny name s)"
proof -
  have dir: "touches name s (s\<lparr>c_dir := d\<rparr>)" if "\<forall>n. n \<noteq> name \<longrightarrow> d n = c_dir s n" for d
    unfolding touches_def
  proof (intro exI conjI)
    show "s\<lparr>c_dir := d\<rparr> = s\<lparr>c_pending := c_pending s, c_dir := d\<rparr>" by (rule cache.equality) simp_all
  qed (rule that)
  show "touches name s (add_pending n s)"
    unfolding touches_def add_pending_def by (rule exI [of _ "c_pending s + n"], rule exI [of _ "c_dir s"]) simp
  show "touches name s (set_file name c now s)" unfolding set_file_def by (rule dir) simp
  show "touches name s (remove_file deny name s)" unfolding remove_file_def by (rule dir) (simp add: Remove_def)
qed

lemma touches_facts:
  assumes "touches name s t"
  shows "entry_view t = entry_view s" "index_ok t = index_ok s" "keys_of t = keys_of s" "c_total t = c_total s"
    "c_maxBytes t = c_maxBytes s" "c_maxObjectBytes t = c_maxObjectBytes s" "c_refreshing t = c_refreshing s"
    "n \<noteq> name \<Longrightarrow> c_dir t n = c_dir s n"
  using assms by (auto simp: touches_def entry_view_def index_ok_def keys_of_def)

lemma touches_store_ok:
  assumes "touches name s t" "store_ok s" "path_free name"
  shows "store_ok t"
proof -
  have "disk_ok t"
  proof (rule disk_ok_cong)
    show "disk_ok s" using assms(2) by (simp add: store_ok_def)
    show "entry_view t = entry_view s" by (rule touches_facts(1) [OF assms(1)])
    show "c_dir t (metaPath k) = c_dir s (metaPath k) \<and> c_dir t (bodyPath k) = c_dir s (bodyPath k)" for k
      using path_freeD [OF assms(3), of k] by (simp add: touches_facts(8) [OF assms(1)])
  qed
  then show ?thesis using assms(2) touches_facts [OF assms(1)] by (simp add: store_ok_def)
qed

text \<open>The effect of a body step, as the invariant needs it.\<close>

definition body_effect :: "cbody \<times> cache \<Rightarrow> cbody \<times> cache \<Rightarrow> bool" where
  "body_effect bs bt \<longleftrightarrow>
     (let b = fst bs; s = snd bs; b' = fst bt; s' = snd bt
      in cb_temp b' = cb_temp b \<and> cb_key b' = cb_key b \<and> (cb_closed b \<longrightarrow> cb_closed b') \<and> touches (cb_temp b) s s' \<and>
         c_pending s' - c_pending s = held b' - held b \<and>
         (accepted_bytes b' \<le> accepted_bytes b \<or> c_pending s' \<le> c_maxBytes s') \<and> body_ok (c_dir s') b')"

lemma disable_closed: "\<not> cb_open b \<Longrightarrow> cb_disabled b \<or> cb_committed b \<Longrightarrow> disable deny (b, s) = (b, s)"
  by (simp add: disable_def)

lemma disable_open:
  assumes "body_ok d b" "cb_open b"
  shows "disable no_deny (b, s) = (b\<lparr>cb_disabled := True, cb_written := 0, cb_open := False\<rparr>,
    remove_file no_deny (cb_temp b) (add_pending (- cb_written b) s))"
  using assms by (simp add: disable_def body_ok_def)

lemmas body_simps = held_def accepted_bytes_def body_ok_def body_effect_def at_phase_def

lemma add_remove_simps [simp]:
  "c_pending (add_pending n s) = c_pending s + n" "c_dir (add_pending n s) = c_dir s"
  "c_pending (remove_file deny name s) = c_pending s" "c_pending (set_file name c now s) = c_pending s"
  "c_maxBytes (add_pending n s) = c_maxBytes s" "c_maxBytes (remove_file deny name s) = c_maxBytes s"
  "c_maxBytes (set_file name c now s) = c_maxBytes s"
  "c_dir (set_file name c now s) = (c_dir s)(name \<mapsto> \<lparr>cf_data = c, cf_mtime = now, cf_regular = True\<rparr>)"
  "c_dir (remove_file deny name s) = Remove deny name (c_dir s)"
  by (simp_all add: add_pending_def remove_file_def set_file_def)

lemma touches_disable: "touches (cb_temp b) s t \<Longrightarrow> touches (cb_temp b) s (snd (disable deny (b, t)))"
  by (auto simp: disable_def intro: touches_trans [OF _ touches_trans [OF touches_ops(1) touches_ops(3)]])

lemma read_begin_effect:
  assumes ok: "body_ok (c_dir s) b" and idle: "cb_phase b = Idle"
  shows "body_effect (b, s) (read_begin no_deny chunk eof (b, s))"
proof (cases "cb_open b")
  case False
  then have b: "cb_written b = 0" "cb_disabled b \<or> cb_committed b" "temporaryName (cb_temp b)" "c_dir s (cb_temp b) = None"
    using ok idle by (auto simp: body_ok_def)
  show ?thesis
    using False b idle
    by (auto simp: read_begin_def Let_def disable_def body_simps touches_refl intro: touches_ops split: body_phase.split)
next
  case True
  then obtain f where f: "c_dir s (cb_temp b) = Some f" "int (length (cf_data f)) = cb_written b" "cb_read b = cf_data f"
    "\<not> cb_disabled b" "\<not> cb_committed b" "\<not> cb_closed b" "temporaryName (cb_temp b)"
    using ok idle by (auto simp: body_ok_def)
  show ?thesis
    using True f idle touches_trans [OF touches_ops(1) touches_ops(3)]
    by (auto simp: read_begin_def Let_def disable_def body_simps touches_refl Remove_def intro: touches_ops)
qed

lemma read_chunk_effect:
  assumes ok: "body_ok (c_dir s) b"
  shows "body_effect (b, s) (read_chunk no_deny part now (b, s))"
proof (cases "cb_phase b")
  case (Refused c eof)
  show ?thesis
  proof (cases "cb_open b")
    case False
    then show ?thesis
      using ok Refused by (auto simp: read_chunk_def disable_def body_simps touches_refl intro: touches_ops)
  next
    case True
    then show ?thesis
      using ok Refused touches_trans [OF touches_ops(1) touches_trans [OF touches_ops(1) touches_ops(3)]]
      by (auto simp: read_chunk_def disable_def body_simps Remove_def)
  qed
next
  case (Reserved c eof)
  show ?thesis
  proof (cases "cb_open b")
    case False
    then show ?thesis
      using ok Reserved by (auto simp: read_chunk_def disable_def body_simps Let_def touches_refl intro: touches_ops)
  next
    case True
    then obtain f where f: "c_dir s (cb_temp b) = Some f" "int (length (cf_data f)) = cb_written b" "cb_read b = cf_data f @ c"
      "\<not> cb_disabled b" "\<not> cb_committed b" "\<not> cb_closed b" "temporaryName (cb_temp b)"
      using ok Reserved by (auto simp: body_ok_def)
    show ?thesis
    proof (cases part)
      case None
      then show ?thesis using True f Reserved
        by (auto simp: read_chunk_def body_simps Let_def intro: touches_ops)
    next
      case (Some p)
      have "touches (cb_temp b) s (remove_file no_deny (cb_temp b) (add_pending (- cb_written b)
          (add_pending (- int (length c)) (set_file (cb_temp b) (cf_data f @ p) now s))))"
        by (rule touches_trans [OF touches_ops(2) touches_trans [OF touches_ops(1) touches_trans [OF touches_ops(1) touches_ops(3)]]])
      then show ?thesis using True f Reserved Some
        by (auto simp: read_chunk_def disable_def body_simps Let_def Remove_def)
    qed
  qed
qed (use ok in \<open>auto simp: read_chunk_def body_effect_def touches_refl Let_def\<close>)

lemma read_release_effect:
  assumes ok: "body_ok (c_dir s) b"
  shows "body_effect (b, s) (read_release (b, s))"
proof (cases "cb_phase b")
  case (Release e)
  then show ?thesis using ok
    by (auto simp: read_release_def body_simps intro: touches_ops split: if_splits)
qed (use ok in \<open>auto simp: read_release_def body_effect_def touches_refl Let_def\<close>)

lemma body_close_effect:
  assumes ok: "body_ok (c_dir s) b" and idle: "cb_phase b = Idle"
  shows "body_effect (b, s) (body_close no_deny (b, s))"
proof (cases "cb_open b")
  case False
  then show ?thesis using ok idle
    by (auto simp: body_close_def disable_def body_simps touches_refl)
next
  case True
  then have "\<not> cb_committed b" "\<not> cb_disabled b" using ok by (auto simp: body_ok_def)
  then show ?thesis using ok idle True touches_trans [OF touches_ops(1) touches_ops(3)]
    by (auto simp: body_close_def disable_def body_simps Remove_def)
qed

section \<open>The invariant is kept\<close>

lemma sum_list_replace:
  fixes f :: "'a \<Rightarrow> int"
  assumes "i < length xs"
  shows "sum_list (map f (xs[i := y])) = sum_list (map f xs) - f (xs ! i) + f y"
  using assms
proof (induction xs arbitrary: i)
  case (Cons x xs)
  then show ?case by (cases i) auto
qed simp

lemma body_ok_cong: "d' (cb_temp b) = d (cb_temp b) \<Longrightarrow> body_ok d' b = body_ok d b"
  by (simp add: body_ok_def)

lemma recorded_mono:
  assumes "recorded marshal s ds" "keys_of t \<subseteq> keys_of s"
    "\<And>k. k \<in> keys_of t \<Longrightarrow> content_of t (metaPath k) = content_of s (metaPath k) \<and> content_of t (bodyPath k) = content_of s (bodyPath k)"
  shows "recorded marshal t ds"
  using assms unfolding recorded_def by (metis subsetD)

lemma recorded_append: "recorded marshal s ds \<Longrightarrow> recorded marshal s (ds @ es)"
  unfolding recorded_def by (metis Un_iff set_append)

lemma touches_recorded:
  assumes "touches name s t" "path_free name" "recorded marshal s ds"
  shows "recorded marshal t ds"
  by (rule recorded_mono [OF assms(3)])
     (use touches_facts [OF assms(1)] path_freeD [OF assms(2)] in \<open>auto simp: content_of_def\<close>)

lemma accepted_le_held: "0 \<le> cb_written b \<Longrightarrow> accepted_bytes b \<le> held b"
  by (simp add: accepted_bytes_def held_def split: body_phase.split)

lemma sum_accepted_le_held:
  assumes "\<forall>b \<in> set bs. body_ok d b"
  shows "sum_list (map accepted_bytes bs) \<le> sum_list (map held bs)"
  using assms by (intro sum_list_mono) (auto simp: body_ok_def intro: accepted_le_held)

lemma body_step_ok:
  assumes ok: "sys_ok marshal S" and i: "i < length (sys_bodies S)" and eff: "body_effect (body_at i S) (b, s)"
  shows "sys_ok marshal (put_body i (b, s) S)"
proof -
  let ?b = "sys_bodies S ! i" and ?bs = "(sys_bodies S)[i := b]"
  have old: "body_ok (c_dir (sys_cache S)) ?b" using ok i by (simp add: sys_ok_def)
  then have pf: "path_free (cb_temp ?b)" by (simp add: body_ok_def temporaryName_path_free)
  have e: "cb_temp b = cb_temp ?b" "touches (cb_temp ?b) (sys_cache S) s" "c_pending s - c_pending (sys_cache S) = held b - held ?b"
    "accepted_bytes b \<le> accepted_bytes ?b \<or> c_pending s \<le> c_maxBytes s" "body_ok (c_dir s) b"
    using eff by (simp_all add: body_effect_def body_at_def Let_def)
  note T = touches_facts [OF e(2)]
  have temps: "map cb_temp ?bs = map cb_temp (sys_bodies S)"
    by (simp add: map_update e(1) list_update_id flip: nth_map [OF i, of cb_temp])
  have bodies: "body_ok (c_dir s) c" if c: "c \<in> set ?bs" for c
  proof -
    obtain j where j: "j < length (sys_bodies S)" "c = ?bs ! j" using c by (auto simp: in_set_conv_nth)
    show ?thesis
    proof (cases "j = i")
      case True
      then show ?thesis using j e(5) by simp
    next
      case False
      then have "c = sys_bodies S ! j" using j by simp
      moreover have "cb_temp (sys_bodies S ! j) \<noteq> cb_temp ?b"
        using ok False i j(1) by (auto simp: sys_ok_def distinct_conv_nth)
      ultimately have "body_ok (c_dir s) c = body_ok (c_dir (sys_cache S)) c"
        by (intro body_ok_cong T(8)) simp
      then show ?thesis using ok j(1) \<open>c = sys_bodies S ! j\<close> by (simp add: sys_ok_def)
    qed
  qed
  have pend: "c_pending s = sum_list (map held ?bs)"
    using ok e(3) by (simp add: sum_list_replace [OF i] sys_ok_def)
  have "sum_list (map accepted_bytes ?bs) \<le> c_maxBytes s"
    using e(4)
  proof
    assume "accepted_bytes b \<le> accepted_bytes ?b"
    then show ?thesis using ok by (simp add: sum_list_replace [OF i] sys_ok_def T(5))
  next
    assume "c_pending s \<le> c_maxBytes s"
    then show ?thesis using sum_accepted_le_held [of ?bs "c_dir s"] bodies pend by simp
  qed
  moreover have "store_ok s" using touches_store_ok [OF e(2) _ pf] ok by (simp add: sys_ok_def)
  moreover have "recorded marshal s (sys_done S)" using touches_recorded [OF e(2) pf] ok by (simp add: sys_ok_def)
  moreover have "distinct (map cb_temp ?bs)" unfolding temps using ok by (simp add: sys_ok_def)
  ultimately show ?thesis using ok bodies pend by (simp add: sys_ok_def put_body_def)
qed

text \<open>What a load does to the rest of the system.\<close>

definition keeps :: "cache \<Rightarrow> cache \<Rightarrow> bool" where
  "keeps s t \<longleftrightarrow> store_ok t \<and> same_limits s t \<and> (\<forall>n. path_free n \<longrightarrow> c_dir t n = c_dir s n) \<and>
     keys_of t \<subseteq> keys_of s \<and> (\<forall>k \<in> keys_of t. content_of t (metaPath k) = content_of s (metaPath k) \<and>
        content_of t (bodyPath k) = content_of s (bodyPath k))"

lemma keeps_refl: "store_ok s \<Longrightarrow> keeps s s"
  by (simp add: keeps_def)

lemma keeps_remove:
  assumes "store_ok s"
  shows "keeps s (removeLocked no_deny key s)"
  using assms removeLocked_store_ok [OF assms, of key] removeLocked_frame(1) [of s no_deny key]
  by (auto simp: keeps_def keys_of_remove store_ok_def removeLocked_frame(3) Remove_def content_of_def dest: path_freeD)

lemma keeps_touched:
  assumes "store_ok s"
  shows "keeps s (load_touched io key s)"
proof -
  have s: "index_ok s" using assms by (simp add: store_ok_def)
  have "keys_of (load_touched io key s) = keys_of s"
    by (auto simp: keys_of_map_of load_touched_ok(2) [OF s])
  moreover have "c_dir (load_touched io key s) n = c_dir s n" if "path_free n" for n
    using path_freeD [OF that, of key] by (simp add: load_touched_simps(4) Chtimes_data(2))
  ultimately show ?thesis
    using load_touched_store_ok [OF assms, of io key] load_touched_simps(2) [of s io key]
    by (simp add: keeps_def content_of_def load_touched_ok(3) [OF s])
qed

lemma keeps_load:
  assumes "store_ok s" "li_deny io = no_deny" "load unmarshal io key s = (res, t)"
  shows "keeps s t \<and> (case res of
      Some (resp, True) \<Rightarrow> key \<notin> c_refreshing s \<and> c_refreshing t = insert key (c_refreshing s)
    | _ \<Rightarrow> c_refreshing t = c_refreshing s)"
proof (cases "\<exists>meta b. load_hit unmarshal io key s meta b")
  case True
  then obtain meta b where "load_hit unmarshal io key s meta b" by blast
  note r = load_hit_result [OF this refl]
  have "keeps s (s'\<lparr>c_refreshing := x\<rparr>)" if "keeps s s'" for s' x
    using that by (simp add: keeps_def content_of_def)
  then show ?thesis
    using r assms(3) keeps_touched [OF assms(1), of io key]
    by (cases "md_expiresAt meta < li_now io \<and> key \<notin> c_refreshing s") (auto simp: load_touched_simps(1))
next
  case False
  then have "res = None" "t = s \<or> t = removeLocked no_deny key s"
    using load_cases [of unmarshal io key s] assms(2,3) by auto
  then show ?thesis
    using keeps_refl [OF assms(1)] keeps_remove [OF assms(1), of key] by (auto simp: removeLocked_frame(2))
qed

lemma keeps_ok:
  assumes ok: "sys_ok marshal S" and k: "keeps (sys_cache S) t"
  shows "sys_ok marshal (S\<lparr>sys_cache := t\<rparr>)"
proof -
  have "recorded marshal t (sys_done S)"
  proof (rule recorded_mono)
    show "recorded marshal (sys_cache S) (sys_done S)" using ok by (simp add: sys_ok_def)
    show "keys_of t \<subseteq> keys_of (sys_cache S)" using k by (simp add: keeps_def)
    show "content_of t (metaPath j) = content_of (sys_cache S) (metaPath j) \<and>
        content_of t (bodyPath j) = content_of (sys_cache S) (bodyPath j)" if "j \<in> keys_of t" for j
      using k that by (simp add: keeps_def)
  qed
  moreover have "body_ok (c_dir t) b" if b: "b \<in> set (sys_bodies S)" for b
  proof -
    have "body_ok (c_dir (sys_cache S)) b" using ok b by (simp add: sys_ok_def)
    then have "path_free (cb_temp b)" by (simp add: body_ok_def temporaryName_path_free)
    then have "c_dir t (cb_temp b) = c_dir (sys_cache S) (cb_temp b)" using k by (simp add: keeps_def)
    from body_ok_cong [where d' = "c_dir t" and d = "c_dir (sys_cache S)" and b = b, OF this]
    show ?thesis using \<open>body_ok (c_dir (sys_cache S)) b\<close> by simp
  qed
  ultimately show ?thesis using ok k by (simp add: sys_ok_def keeps_def same_limits_def)
qed

lemma capture_effect:
  assumes "capture io key meta s = (nb, t)" "cp_deny io = no_deny"
  shows "touches (cp_temp io) s t \<and> c_pending t = c_pending s \<and>
    (case nb of None \<Rightarrow> c_dir s (cp_temp io) = None \<longrightarrow> c_dir t (cp_temp io) = None
     | Some b \<Rightarrow> cb_temp b = cp_temp io \<and> cb_key b = key \<and> held b = 0 \<and> accepted_bytes b = 0 \<and>
         (temporaryName (cp_temp io) \<longrightarrow> body_ok (c_dir t) b))"
  using assms touches_ops(2) [of "cp_temp io" s "[]" "cp_now io"]
    touches_trans [OF touches_ops(2) [of "cp_temp io" s "[]" "cp_now io"] touches_ops(3)]
  by (auto simp: capture_def Let_def touches_refl held_def accepted_bytes_def body_ok_def Remove_def split: if_splits)

lemma capture_ok:
  assumes ok: "sys_ok marshal S" and env: "capture_env io S" and run: "capture io key meta (sys_cache S) = (nb, t)"
  shows "sys_ok marshal (add_body nb (S\<lparr>sys_cache := t\<rparr>))"
proof -
  have nd: "cp_deny io = no_deny" and temp: "temporaryName (cp_temp io)" "cp_temp io \<notin> cb_temp ` set (sys_bodies S)"
    using env by (auto simp: capture_env_def)
  note E = capture_effect [OF run nd]
  note T = touches_facts [OF conjunct1 [OF E]]
  have pf: "path_free (cp_temp io)" by (rule temporaryName_path_free [OF temp(1)])
  have "store_ok t" using touches_store_ok [OF conjunct1 [OF E] _ pf] ok by (simp add: sys_ok_def)
  moreover have "recorded marshal t (sys_done S)"
    using touches_recorded [OF conjunct1 [OF E] pf] ok by (simp add: sys_ok_def)
  moreover have "body_ok (c_dir t) b" if b: "b \<in> set (sys_bodies S)" for b
  proof -
    have "cb_temp b \<noteq> cp_temp io" using temp(2) b by (metis imageI)
    from body_ok_cong [where d' = "c_dir t" and d = "c_dir (sys_cache S)" and b = b, OF T(8) [OF this]]
    show ?thesis using ok b by (simp add: sys_ok_def)
  qed
  ultimately show ?thesis
    using ok E temp by (cases nb) (auto simp: sys_ok_def add_body_def T(5))
qed

lemma fetch_trip_cases:
  assumes "fetch_trip parse_time io key origin s = (res, t, nb)"
  shows "(t = s \<and> nb = None) \<or> (\<exists>meta. capture (tr_capture io) key meta s = (nb, t))"
proof (cases origin)
  case (Inl e)
  then show ?thesis using assms by (auto simp: fetch_trip_def)
next
  case (Inr resp)
  show ?thesis
  proof (cases "storable parse_time resp (tr_now io) s")
    case None
    then show ?thesis using assms Inr by (auto simp: fetch_trip_def)
  next
    case (Some e)
    let ?m = "response_meta resp (hdel (resp_header (set_status ''MISS'' resp)) statusHeader) (tr_stored io) e"
    obtain nb' s2 where c: "capture (tr_capture io) key ?m s = (nb', s2)" by fastforce
    then have "nb = nb'" "t = s2" using assms Inr Some by (auto simp: fetch_trip_def Let_def split: option.splits)
    then show ?thesis using c by blast
  qed
qed

lemma sys_ok_done: "sys_ok marshal S \<Longrightarrow> sys_ok marshal (S\<lparr>sys_done := sys_done S @ ds\<rparr>)"
  by (simp add: sys_ok_def recorded_append)

lemma commit_closed_file: "commit marshal io key temporary False meta s = Some (Some (CallFailed SyncBody), remove_temp io temporary s)"
  by (simp add: commit_def Let_def)

lemma finish_no_commit:
  assumes ok: "sys_ok marshal S" and i: "i < length (sys_bodies S)" and ph: "cb_phase (sys_bodies S ! i) = AtEnd eof"
    and run: "read_finish marshal io (body_at i S) = Some (b, s)" and env: "commit_env io S"
    and no: "\<not> eof \<or> cb_disabled (sys_bodies S ! i) \<or> \<not> cb_open (sys_bodies S ! i)"
  shows "body_effect (body_at i S) (b, s) \<and> cb_phase b \<noteq> Release None"
proof -
  let ?b = "sys_bodies S ! i"
  have old: "body_ok (c_dir (sys_cache S)) ?b" using ok i by (simp add: sys_ok_def)
  show ?thesis
  proof (cases "eof \<and> \<not> cb_disabled ?b")
    case False
    then have "b = ?b\<lparr>cb_phase := Idle\<rparr>" "s = sys_cache S"
      using run ph by (auto simp: read_finish_def body_at_def)
    then show ?thesis using old ph by (auto simp: body_at_def body_simps touches_refl Let_def)
  next
    case True
    then have op: "\<not> cb_open ?b" using no by simp
    have "b = ?b\<lparr>cb_meta := (cb_meta ?b)\<lparr>md_size := cb_written ?b\<rparr>, cb_open := False, cb_phase := Release (Some (CallFailed SyncBody))\<rparr>"
      "s = remove_temp io (cb_temp ?b) (sys_cache S)"
      using run ph True op by (auto simp: read_finish_def body_at_def commit_closed_file)
    moreover have "remove_temp io (cb_temp ?b) (sys_cache S) = remove_file no_deny (cb_temp ?b) (sys_cache S)"
      using env by (simp add: remove_temp_def remove_file_def commit_env_def)
    ultimately show ?thesis
      using old ph op by (auto simp: body_at_def body_simps Let_def Remove_def intro: touches_ops)
  qed
qed

lemma finish_commit:
  assumes ok: "sys_ok marshal S" and i: "i < length (sys_bodies S)" and ph: "cb_phase (sys_bodies S ! i) = AtEnd True"
    and run: "read_finish marshal io (body_at i S) = Some (b, s)" and env: "commit_env io S"
    and live: "cb_open (sys_bodies S ! i)" "\<not> cb_disabled (sys_bodies S ! i)"
  shows "sys_ok marshal ((put_body i (b, s) S)\<lparr>sys_done := sys_done S @ (if cb_phase b = Release None then [(cb_key b, cb_meta b, cb_read b)] else [])\<rparr>) \<and>
    c_refreshing s = c_refreshing (sys_cache S)"
proof -
  let ?b = "sys_bodies S ! i" and ?c = "sys_cache S" and ?bs = "(sys_bodies S)[i := b]"
  let ?m = "(cb_meta ?b)\<lparr>md_size := cb_written ?b\<rparr>"
  have old: "body_ok (c_dir ?c) ?b" using ok i by (simp add: sys_ok_def)
  then obtain f where f: "c_dir ?c (cb_temp ?b) = Some f" "int (length (cf_data f)) = cb_written ?b" "cb_read ?b = cf_data f"
    and tn: "temporaryName (cb_temp ?b)" and cl: "\<not> cb_closed ?b"
    using live ph by (auto simp: body_ok_def)
  obtain err where run': "commit marshal io (cb_key ?b) (cb_temp ?b) True ?m ?c = Some (err, s)"
    and b: "b = ?b\<lparr>cb_meta := ?m, cb_open := False, cb_phase := Release err\<rparr>"
    using run ph live by (auto simp: read_finish_def body_at_def Let_def)
  have st: "store_ok ?c" "index_ok ?c" "0 \<le> c_maxBytes ?c" "disk_ok ?c" using ok by (auto simp: sys_ok_def store_ok_def)
  have pf: "path_free (cb_temp ?b)" by (rule temporaryName_path_free [OF tn])
  have e: "ci_deny io = no_deny" "path_free (ci_meta_temp io)" "cb_temp ?b \<noteq> ci_meta_temp io" "c_dir ?c (ci_meta_temp io) = None"
    using env f(1) by (auto simp: commit_env_def temporaryName_path_free)
  have size: "int (length (cf_data f)) = md_size ?m" "0 \<le> md_size ?m" using f(2) by simp_all
  have st': "store_ok s" by (rule commit_store_ok [OF st(1) e(1) pf e(2,3) f(1) size(1) e(4) run'])
  have lim: "same_limits ?c s" and refr: "c_refreshing s = c_refreshing ?c"
    using commit_outcome [OF st(2,3) size(2), of marshal io "cb_key ?b" "cb_temp ?b" True] run' by auto
  note D = commit_disk [OF st(2-4) e(1) pf e(2,3) f(1) size(1) e(4) run']
  have temps: "map cb_temp ?bs = map cb_temp (sys_bodies S)"
    by (simp add: map_update b list_update_id flip: nth_map [OF i, of cb_temp])
  have "body_ok (c_dir s) b" using old f(2) D by (simp add: body_ok_def b cl)
  moreover have "body_ok (c_dir s) (sys_bodies S ! j)" if "j < length (sys_bodies S)" "j \<noteq> i" for j
  proof -
    have o: "body_ok (c_dir ?c) (sys_bodies S ! j)" using ok that by (simp add: sys_ok_def)
    have "cb_temp (sys_bodies S ! j) \<noteq> cb_temp ?b" using ok that i by (auto simp: sys_ok_def distinct_conv_nth)
    moreover have "path_free (cb_temp (sys_bodies S ! j))" using o by (simp add: body_ok_def temporaryName_path_free)
    ultimately have "c_dir s (cb_temp (sys_bodies S ! j)) = c_dir ?c (cb_temp (sys_bodies S ! j))" using D by blast
    from body_ok_cong [where d' = "c_dir s" and d = "c_dir ?c" and b = "sys_bodies S ! j", OF this] o show ?thesis by simp
  qed
  ultimately have bodies: "\<forall>c \<in> set ?bs. body_ok (c_dir s) c"
    using i by (auto simp: in_set_conv_nth nth_list_update)
  have "recorded marshal s (sys_done S @ (if err = None then [(cb_key ?b, ?m, cf_data f)] else []))"
    unfolding recorded_def
  proof
    fix k
    assume k: "k \<in> keys_of s"
    then have en: "if err = None \<and> k = cb_key ?b
        then c_dir s (bodyPath k) = Some f \<and>
             (\<exists>g. c_dir s (metaPath k) = Some g \<and> marshal ?m = Some (cf_data g) \<and> length (cf_data g) \<le> maxMetadataBytes)
        else k \<in> keys_of ?c \<and> c_dir s (bodyPath k) = c_dir ?c (bodyPath k) \<and> c_dir s (metaPath k) = c_dir ?c (metaPath k)"
      using D unfolding entries_from_def by blast
    show "\<exists>m mb c. (k, m, c) \<in> set (sys_done S @ (if err = None then [(cb_key ?b, ?m, cf_data f)] else [])) \<and>
        marshal m = Some mb \<and> length mb \<le> maxMetadataBytes \<and> content_of s (metaPath k) = Some mb \<and> content_of s (bodyPath k) = Some c"
    proof (cases "err = None \<and> k = cb_key ?b")
      case True
      then show ?thesis using en by (auto simp: content_of_def)
    next
      case False
      then have "k \<in> keys_of ?c" "content_of s (bodyPath k) = content_of ?c (bodyPath k)" "content_of s (metaPath k) = content_of ?c (metaPath k)"
        using en by (auto simp: content_of_def)
      moreover have "recorded marshal ?c (sys_done S)" using ok by (simp add: sys_ok_def)
      ultimately show ?thesis unfolding recorded_def set_append by (metis UnI1)
    qed
  qed
  moreover have "held b = held ?b" "accepted_bytes b = accepted_bytes ?b" using ph by (simp_all add: b held_def accepted_bytes_def)
  moreover have "distinct (map cb_temp ?bs)" unfolding temps using ok by (simp add: sys_ok_def)
  moreover have "cb_key b = cb_key ?b" "cb_meta b = ?m" "cb_read b = cf_data f" "cb_phase b = Release None \<longleftrightarrow> err = None"
    by (simp_all add: b f(3))
  ultimately show ?thesis
    using ok st' bodies lim refr
    by (cases err) (simp_all add: sys_ok_def put_body_def same_limits_def sum_list_replace [OF i])
qed

lemma tasks_same:
  assumes "tasks_ok S" "c_refreshing (sys_cache T) = c_refreshing (sys_cache S)"
    "map task_key (sys_tasks T) = map task_key (sys_tasks S)"
  shows "tasks_ok T"
  using assms(1) unfolding tasks_ok_def assms(2,3) .

lemma sys_ok_tasks [simp]:
  "sys_ok marshal (S\<lparr>sys_tasks := ts\<rparr>) = sys_ok marshal S"
  "sys_ok marshal (add_body nb (S\<lparr>sys_tasks := ts\<rparr>)) = sys_ok marshal (add_body nb S)"
  by (simp_all add: sys_ok_def add_body_def)

lemma tasks_replace:
  assumes "i < length ts" "task_key t = task_key (ts ! i)"
  shows "map task_key (ts[i := t]) = map task_key ts"
  using assms by (metis list_update_id map_update nth_map)

lemma tasks_end:
  assumes "tasks_ok S" "i < length (sys_tasks S)" "sys_tasks S ! i = Ending k"
  shows "tasks_ok (S\<lparr>sys_cache := endRefresh k (sys_cache S), sys_tasks := take i (sys_tasks S) @ drop (Suc i) (sys_tasks S)\<rparr>)"
proof -
  have "sys_tasks S = take i (sys_tasks S) @ Ending k # drop (Suc i) (sys_tasks S)"
    using id_take_nth_drop [OF assms(2)] assms(3) by simp
  then have d: "distinct (map task_key (take i (sys_tasks S) @ Ending k # drop (Suc i) (sys_tasks S)))"
    and r: "set (map task_key (take i (sys_tasks S) @ Ending k # drop (Suc i) (sys_tasks S))) = c_refreshing (sys_cache S)"
    using assms(1) unfolding tasks_ok_def by metis+
  then show ?thesis by (auto simp: tasks_ok_def endRefresh_def)
qed

lemma put_body_effect_tasks:
  assumes "tasks_ok S" "body_effect (body_at i S) bs"
  shows "tasks_ok (put_body i bs S)"
  by (rule tasks_same [OF assms(1)])
     (use assms(2) touches_facts(7) in \<open>auto simp: put_body_def body_effect_def Let_def body_at_def\<close>)

lemma read_finish_refreshing:
  assumes "sys_ok marshal S" "i < length (sys_bodies S)" "cb_phase (sys_bodies S ! i) = AtEnd eof"
    "read_finish marshal io (body_at i S) = Some (b, s)" "commit_env io S"
  shows "sys_ok marshal ((put_body i (b, s) S)\<lparr>sys_done := sys_done S @ (if cb_phase b = Release None then [(cb_key b, cb_meta b, cb_read b)] else [])\<rparr>) \<and>
    c_refreshing s = c_refreshing (sys_cache S)"
proof (cases "\<not> eof \<or> cb_disabled (sys_bodies S ! i) \<or> \<not> cb_open (sys_bodies S ! i)")
  case True
  note E = finish_no_commit [OF assms True]
  have "sys_ok marshal (put_body i (b, s) S)" by (rule body_step_ok [OF assms(1,2) conjunct1 [OF E]])
  moreover have "c_refreshing s = c_refreshing (sys_cache S)"
    using conjunct1 [OF E] touches_facts(7) by (auto simp: body_effect_def Let_def body_at_def)
  ultimately show ?thesis using E by (simp add: put_body_def sys_ok_def)
next
  case False
  then have "eof" by simp
  with assms(3) have "cb_phase (sys_bodies S ! i) = AtEnd True" by simp
  from finish_commit [OF assms(1,2) this assms(4,5)] False show ?thesis by simp
qed

lemma cache_step_ok:
  assumes "cache_step marshal unmarshal parse_time digest url_string S T" "sys_ok marshal S" "tasks_ok S"
  shows "sys_ok marshal T \<and> tasks_ok T"
  using assms
proof (induction rule: cache_step.induct)
  case (looks_up r u key io S lr s)
  let ?ts = "sys_tasks S @ (case lr of Some (resp, True) \<Rightarrow> [Fetching key] | _ \<Rightarrow> [])"
  have st: "store_ok (sys_cache S)" using looks_up.prems(1) by (simp add: sys_ok_def)
  note K = keeps_load [OF st looks_up.hyps(5,4)]
  have "sys_ok marshal (S\<lparr>sys_cache := s\<rparr>)" using keeps_ok [OF looks_up.prems(1)] K by simp
  moreover have "tasks_ok (S\<lparr>sys_cache := s, sys_tasks := ?ts\<rparr>)"
    using K looks_up.prems(2) by (auto simp: tasks_ok_def split: option.splits prod.splits bool.splits)
  ultimately show ?case by (simp add: sys_ok_def tasks_ok_def)
next
  case (arrives i S io origin res s nb)
  have w: "sys_ok marshal (add_body nb (T\<lparr>sys_waiting := w\<rparr>)) = sys_ok marshal (add_body nb T)"
    "tasks_ok (add_body nb (T\<lparr>sys_waiting := w\<rparr>)) = tasks_ok T" for T w
    by (simp_all add: sys_ok_def tasks_ok_def add_body_def)
  from fetch_trip_cases [OF arrives.hyps(2)] show ?case
  proof
    assume "s = sys_cache S \<and> nb = None"
    then show ?thesis using arrives.prems by (simp add: add_body_def sys_ok_def tasks_ok_def)
  next
    assume "\<exists>meta. capture (tr_capture io) (sys_waiting S ! i) meta (sys_cache S) = (nb, s)"
    then obtain meta where c: "capture (tr_capture io) (sys_waiting S ! i) meta (sys_cache S) = (nb, s)" by auto
    have "c_refreshing s = c_refreshing (sys_cache S)"
      using capture_effect [OF c] arrives.hyps(3) touches_facts(7) by (auto simp: capture_env_def)
    then have "tasks_ok (S\<lparr>sys_cache := s\<rparr>)" using arrives.prems(2) by (simp add: tasks_ok_def)
    then show ?thesis using capture_ok [OF arrives.prems(1) arrives.hyps(3) c] w by simp
  qed
next
  case (fetch i S k io origin nb s)
  let ?t = "case nb of None \<Rightarrow> Ending k | Some b \<Rightarrow> Copying k (length (sys_bodies S))"
  have m: "map task_key ((sys_tasks S)[i := ?t]) = map task_key (sys_tasks S)"
    by (rule tasks_replace [OF fetch.hyps(1)]) (simp add: fetch.hyps(2) split: option.split)
  have "(nb = None \<and> s = sys_cache S) \<or> (\<exists>meta. capture (tr_capture io) k meta (sys_cache S) = (nb, s))"
    using fetch.hyps(3) by (auto simp: refresh_fetch_def split: sum.splits option.splits)
  then show ?case
  proof
    assume "nb = None \<and> s = sys_cache S"
    moreover from this have "tasks_ok (S\<lparr>sys_cache := s, sys_tasks := (sys_tasks S)[i := ?t]\<rparr>)"
      using m by (intro tasks_same [OF fetch.prems(2)]) simp_all
    ultimately show ?thesis using fetch.prems(1) by (simp add: add_body_def)
  next
    assume "\<exists>meta. capture (tr_capture io) k meta (sys_cache S) = (nb, s)"
    then obtain meta where c: "capture (tr_capture io) k meta (sys_cache S) = (nb, s)" by auto
    have "c_refreshing s = c_refreshing (sys_cache S)"
      using capture_effect [OF c] fetch.hyps(4) touches_facts(7) by (auto simp: capture_env_def)
    then have "tasks_ok (add_body nb (S\<lparr>sys_cache := s, sys_tasks := (sys_tasks S)[i := ?t]\<rparr>))"
      using m by (intro tasks_same [OF fetch.prems(2)]) (simp_all add: add_body_def)
    then show ?thesis using capture_ok [OF fetch.prems(1) fetch.hyps(4) c] by simp
  qed
next
  case (copied i S k n)
  have "map task_key ((sys_tasks S)[i := Ending k]) = map task_key (sys_tasks S)"
    by (rule tasks_replace [OF copied.hyps(1)]) (simp add: copied.hyps(2))
  then have "tasks_ok (S\<lparr>sys_tasks := (sys_tasks S)[i := Ending k]\<rparr>)"
    by (intro tasks_same [OF copied.prems(2)]) simp_all
  then show ?case using copied.prems(1) by (simp add: sys_ok_def)
next
  case (ended i S k)
  have "sys_ok marshal (S\<lparr>sys_cache := endRefresh k (sys_cache S)\<rparr>)"
    using ended.prems(1) by (simp add: sys_ok_def endRefresh_def recorded_def content_of_def)
  then show ?case using tasks_end [OF ended.prems(2) ended.hyps] by (simp add: sys_ok_def)
next
  case (read i S chunk eof)
  have "body_ok (c_dir (sys_cache S)) (sys_bodies S ! i)" using read by (simp add: sys_ok_def)
  from read_begin_effect [OF this read.hyps(2), of chunk eof]
  have e: "body_effect (body_at i S) (read_begin no_deny chunk eof (body_at i S))" by (simp add: body_at_def)
  show ?case using body_step_ok [OF read.prems(1) read.hyps(1)] put_body_effect_tasks [OF read.prems(2) e] e
    by (cases "read_begin no_deny chunk eof (body_at i S)") simp
next
  case (chunk i S part now)
  have "body_ok (c_dir (sys_cache S)) (sys_bodies S ! i)" using chunk by (simp add: sys_ok_def)
  from read_chunk_effect [OF this, of part now]
  have e: "body_effect (body_at i S) (read_chunk no_deny part now (body_at i S))" by (simp add: body_at_def)
  show ?case using body_step_ok [OF chunk.prems(1) chunk.hyps(1)] put_body_effect_tasks [OF chunk.prems(2) e] e
    by (cases "read_chunk no_deny part now (body_at i S)") simp
next
  case (finish i S eof io b s)
  note F = read_finish_refreshing [OF finish.prems(1) finish.hyps]
  then show ?case using finish.prems(2) by (simp add: tasks_ok_def put_body_def)
next
  case (release i S)
  have "body_ok (c_dir (sys_cache S)) (sys_bodies S ! i)" using release by (simp add: sys_ok_def)
  from read_release_effect [OF this]
  have e: "body_effect (body_at i S) (read_release (body_at i S))" by (simp add: body_at_def)
  show ?case using body_step_ok [OF release.prems(1) release.hyps(1)] put_body_effect_tasks [OF release.prems(2) e] e
    by (cases "read_release (body_at i S)") simp
next
  case (close i S)
  have "body_ok (c_dir (sys_cache S)) (sys_bodies S ! i)" using close by (simp add: sys_ok_def)
  from body_close_effect [OF this close.hyps(2)]
  have e: "body_effect (body_at i S) (body_close no_deny (body_at i S))" by (simp add: body_at_def)
  show ?case using body_step_ok [OF close.prems(1) close.hyps(1)] put_body_effect_tasks [OF close.prems(2) e] e
    by (cases "body_close no_deny (body_at i S)") simp
qed

lemma cache_run_ok:
  assumes "cache_run marshal unmarshal parse_time digest url_string S T" "sys_ok marshal S" "tasks_ok S"
  shows "sys_ok marshal T \<and> tasks_ok T"
  using assms by (induction rule: cache_run.induct) (auto dest: cache_step_ok)

section \<open>Properties\<close>

text \<open>A cache that has just been opened: no downloads, no refreshes, and entries that are accounted for.\<close>

definition sys_start :: "(metadata \<Rightarrow> string option) \<Rightarrow> csys \<Rightarrow> bool" where
  "sys_start marshal S \<longleftrightarrow> store_ok (sys_cache S) \<and> c_pending (sys_cache S) = 0 \<and> c_refreshing (sys_cache S) = {} \<and>
     sys_bodies S = [] \<and> sys_tasks S = [] \<and> recorded marshal (sys_cache S) (sys_done S)"

lemma sys_start_ok: "sys_start marshal S \<Longrightarrow> sys_ok marshal S \<and> tasks_ok S"
  by (auto simp: sys_start_def sys_ok_def tasks_ok_def store_ok_def)

text \<open>A round trip that nothing interrupts is a run: its lookup, and on a miss the arrival of the origin's answer.\<close>

lemma RoundTrip_run:
  assumes ok: "sys_ok marshal S" and idle: "sys_waiting S = []"
    and trip: "RoundTrip unmarshal parse_time digest url_string io r origin (sys_cache S) = (res, s, nb, rk)"
    and env: "capture_env (tr_capture io) S" "li_deny (tr_load io) = no_deny"
  shows "cache_run marshal unmarshal parse_time digest url_string S
    (add_body nb (S\<lparr>sys_cache := s, sys_tasks := sys_tasks S @ (case rk of None \<Rightarrow> [] | Some k \<Rightarrow> [Fetching k])\<rparr>))"
proof (cases "cacheableRequest r \<and> req_url r \<noteq> None")
  case False
  then have "s = sys_cache S" "nb = None" "rk = None" using trip by (auto simp: RoundTrip_def split: option.splits bool.splits)
  then show ?thesis by (simp add: add_body_def start)
next
  case True
  then obtain u where u: "cacheableRequest r" "req_url r = Some u" by auto
  define key where "key = cacheKey digest url_string r u"
  obtain lr s1 where l: "load unmarshal (tr_load io) key (sys_cache S) = (lr, s1)" by fastforce
  note step = next_step [OF start cache_step.looks_up [OF u key_def l env(2), of marshal parse_time]]
  show ?thesis
  proof (cases lr)
    case (Some x)
    obtain resp refresh where x: "x = (resp, refresh)" by (cases x) auto
    then have "s = s1" "nb = None" "rk = (if refresh then Some key else None)"
      using trip u l Some by (auto simp: RoundTrip_def key_def Let_def)
    then show ?thesis using step Some x idle by (cases S; cases refresh) (simp_all add: add_body_def)
  next
    case None
    let ?U = "S\<lparr>sys_cache := s1, sys_waiting := [key]\<rparr>"
    have "store_ok (sys_cache S)" using ok by (simp add: sys_ok_def)
    from keeps_load [OF this env(2) l] have "capture_env (tr_capture io) ?U"
      using env(1) temporaryName_path_free by (auto simp: capture_env_def keeps_def)
    moreover obtain res' s2 nb' where f: "fetch_trip parse_time io key origin s1 = (res', s2, nb')" by (cases "fetch_trip parse_time io key origin s1")
    moreover from this have "s = s2" "nb = nb'" "rk = None" using trip u l None by (auto simp: RoundTrip_def key_def Let_def)
    moreover have "cache_run marshal unmarshal parse_time digest url_string S ?U" using step None idle by simp
    moreover have "S\<lparr>sys_cache := s2, sys_waiting := []\<rparr> = S\<lparr>sys_cache := s2\<rparr>" using idle by (cases S) simp
    ultimately show ?thesis
      using next_step [OF _ cache_step.arrives [of 0 ?U parse_time io origin res' s2 nb']] by simp
  qed
qed

text \<open>
  C19: However requests, reads, commits, refreshes and closes interleave, the index agrees with the files
  and stays within the budget, the byte counter is exactly what the downloads in progress hold, their
  accepted bytes stay within the budget too, a closed download holds nothing and has left no temporary
  file, and for each key at most one refresh runs. Removals of files are taken to succeed.
\<close>

theorem cache_run_invariant:
  assumes "cache_run marshal unmarshal parse_time digest url_string S T" "sys_start marshal S"
  shows "store_ok (sys_cache T) \<and> c_pending (sys_cache T) = sum_list (map held (sys_bodies T)) \<and>
    sum_list (map accepted_bytes (sys_bodies T)) \<le> c_maxBytes (sys_cache T) \<and>
    (\<forall>b \<in> set (sys_bodies T). cb_closed b \<and> cb_phase b = Idle \<longrightarrow> held b = 0 \<and> c_dir (sys_cache T) (cb_temp b) = None) \<and>
    distinct (map task_key (sys_tasks T)) \<and> set (map task_key (sys_tasks T)) = c_refreshing (sys_cache T)"
proof -
  have T: "sys_ok marshal T" "tasks_ok T"
    using cache_run_ok [OF assms(1)] sys_start_ok [OF assms(2)] by simp_all
  have "held b = 0 \<and> c_dir (sys_cache T) (cb_temp b) = None"
    if b: "b \<in> set (sys_bodies T)" "cb_closed b" "cb_phase b = Idle" for b
  proof -
    have "body_ok (c_dir (sys_cache T)) b" using T(1) b(1) by (simp add: sys_ok_def)
    then show ?thesis using b(2,3) by (auto simp: body_ok_def held_def)
  qed
  then show ?thesis using T unfolding sys_ok_def tasks_ok_def by blast
qed

definition example_sys :: csys where
  "example_sys =
     \<lparr>sys_cache = example_cache\<lparr>c_pending := 0\<rparr>, sys_bodies = [], sys_tasks = [], sys_waiting = [],
      sys_done = [(''a'', example_meta 3, ''xxx''), (''b'', example_meta 3, ''xx'')]\<rparr>"

definition example_print :: "metadata \<Rightarrow> string option" where
  "example_print m = (if m = example_meta 3 then Some ''mm'' else None)"

lemma example_sys_start: "sys_start example_print example_sys"
proof -
  have "disk_ok (example_cache\<lparr>c_pending := 0\<rparr>)"
    by (rule disk_ok_cong [OF example_cache_disk]) (simp_all add: entry_view_def)
  moreover have "index_ok (example_cache\<lparr>c_pending := 0\<rparr>)" using example_cache_index by (simp add: index_ok_def)
  moreover have "recorded example_print (example_cache\<lparr>c_pending := 0\<rparr>) (sys_done example_sys)"
    by (auto simp: recorded_def keys_of_def entry_view_def content_of_def example_cache_def example_element_def example_print_def
        maxMetadataBytes_def example_sys_def example_file_def metaPath_def bodyPath_def)
  ultimately show ?thesis
    by (simp add: sys_start_def store_ok_def example_sys_def) (simp add: example_cache_def)
qed

text \<open>A request for something that is not in the cache, and the first chunk of its body.\<close>

definition example_artifact_request :: request where
  "example_artifact_request = \<lparr>req_method = ''GET'', req_url = Some example_url, req_host = ''a'', req_header = []\<rparr>"

definition example_trip :: trip_io where
  "example_trip = \<lparr>tr_load = example_load 5, tr_now = 5, tr_stored = 5,
     tr_capture = \<lparr>cp_temp = ''.cache-2.tmp'', cp_create_fail = False, cp_chmod_fail = False, cp_now = 5, cp_deny = no_deny\<rparr>\<rparr>"

abbreviation example_run :: "csys \<Rightarrow> csys \<Rightarrow> bool" where
  "example_run \<equiv> cache_run example_print (\<lambda>_. Some (example_meta 3)) (\<lambda>_. None) (\<lambda>_. ''c'') url_path"

lemma example_cacheable: "cacheableRequest example_artifact_request"
  by (simp add: cacheableRequest_def example_artifact_request_def example_url_def str_simps Let_def parseCacheControl_def
      List.map_filter_def parse_directive_def directive_def privateDestination_def)

lemma example_first_steps:
  "\<exists>T. example_run example_sys T \<and> map cb_phase (sys_bodies T) = [Reserved ''hi'' False] \<and> c_pending (sys_cache T) = 2"
proof -
  let ?origin = "Ok (example_response [(''Cache-Control'', [''max-age=60''])])"
  let ?c = "example_cache\<lparr>c_pending := 0\<rparr>"
  have key: "cacheKey (\<lambda>_. ''c'') url_path example_artifact_request example_url = ''c''" by (simp add: cacheKey_def)
  have url: "req_url example_artifact_request = Some example_url" by (simp add: example_artifact_request_def)
  have load: "load (\<lambda>_. Some (example_meta 3)) (tr_load example_trip) ''c'' ?c = (None, ?c)"
    by (simp add: load_def Open_def example_trip_def example_load_def example_cache_def metaPath_def)
  have "responseExpiration (\<lambda>_. None) (example_response [(''Cache-Control'', [''max-age=60''])]) 5 60 =
      Some \<lparr>ex_freshUntil = 60000000005, ex_staleUntil = 60000000005\<rparr>" by code_simp
  then have store: "storable (\<lambda>_. None) (example_response [(''Cache-Control'', [''max-age=60''])]) (tr_now example_trip) ?c =
      Some \<lparr>ex_freshUntil = 60000000005, ex_staleUntil = 60000000005\<rparr>"
    by (simp add: storable_def example_trip_def example_cache_def example_response_def)
  obtain s b where trip: "RoundTrip (\<lambda>_. Some (example_meta 3)) (\<lambda>_. None) (\<lambda>_. ''c'') url_path example_trip example_artifact_request
      ?origin ?c = (Ok (set_status ''MISS'' (example_response [(''Cache-Control'', [''max-age=60''])])), s, Some b, None)"
    and b: "cb_phase b = Idle" "\<not> cb_disabled b" "cb_written b = 0" and s: "c_pending s = 0" "c_maxBytes s = 10" "c_maxObjectBytes s = 8"
    by (simp add: RoundTrip_def example_cacheable url key load store Let_def capture_def fetch_trip_def)
       (simp add: example_trip_def example_cache_def set_file_def)
  have env: "capture_env (tr_capture example_trip) example_sys"
    by (simp add: capture_env_def example_sys_def) (simp add: example_trip_def example_cache_def, code_simp)
  have deny: "li_deny (tr_load example_trip) = no_deny" by (simp add: example_trip_def example_load_def)
  let ?U = "add_body (Some b) (example_sys\<lparr>sys_cache := s, sys_tasks := sys_tasks example_sys @ []\<rparr>)"
  have "sys_cache example_sys = ?c" by (simp add: example_sys_def)
  with trip have "RoundTrip (\<lambda>_. Some (example_meta 3)) (\<lambda>_. None) (\<lambda>_. ''c'') url_path example_trip example_artifact_request
      ?origin (sys_cache example_sys) = (Ok (set_status ''MISS'' (example_response [(''Cache-Control'', [''max-age=60''])])), s, Some b, None)"
    by simp
  moreover have "sys_ok example_print example_sys" "sys_waiting example_sys = []"
    using sys_start_ok [OF example_sys_start] by (simp_all add: example_sys_def)
  ultimately have U: "example_run example_sys ?U" using RoundTrip_run [OF _ _ _ env deny, of example_print] by fastforce
  let ?T = "put_body 0 (read_begin no_deny ''hi'' False (body_at 0 ?U)) ?U"
  have body: "sys_bodies ?U ! 0 = b" "length (sys_bodies ?U) = 1" "sys_cache ?U = s" by (simp_all add: add_body_def example_sys_def)
  have "example_run example_sys ?T" by (rule next_step [OF U], rule cache_step.read) (use body b in simp_all)
  moreover have "read_begin no_deny ''hi'' False (b, s) =
      (b\<lparr>cb_read := cb_read b @ ''hi'', cb_phase := Reserved ''hi'' False\<rparr>, add_pending 2 s)"
    using b s by (simp add: read_begin_def add_pending_def)
  then have "sys_bodies ?T = [b\<lparr>cb_read := cb_read b @ ''hi'', cb_phase := Reserved ''hi'' False\<rparr>]" "sys_cache ?T = add_pending 2 s"
    by (simp_all add: put_body_def body_at_def add_body_def example_sys_def)
  ultimately obtain T where "example_run example_sys T" "sys_cache T = add_pending 2 s"
    "sys_bodies T = [b\<lparr>cb_read := cb_read b @ ''hi'', cb_phase := Reserved ''hi'' False\<rparr>]" by blast
  then show ?thesis using s(1) by (intro exI [of _ T]) simp
qed

lemma cache_run_invariant_witness:
  "\<exists>T. example_run example_sys T \<and> c_pending (sys_cache T) = 2 \<and> c_pending (sys_cache T) = sum_list (map held (sys_bodies T)) \<and>
     sum_list (map accepted_bytes (sys_bodies T)) \<le> c_maxBytes (sys_cache T)"
proof -
  obtain T where T: "example_run example_sys T" "c_pending (sys_cache T) = 2" using example_first_steps by blast
  from cache_run_invariant [OF T(1) example_sys_start] T show ?thesis by auto
qed

lemma set_status_twice: "set_status v (set_status w r) = set_status v r"
  by (simp add: set_status_def hset_def hdel_def)

lemma load_key:
  assumes "load_hit unmarshal io key s meta b" "store_ok s"
  shows "key \<in> keys_of s"
proof (rule ccontr)
  assume "key \<notin> keys_of s"
  then have "map_of (entry_view s) key = None" by (simp add: keys_of_map_of)
  then have "c_dir s (bodyPath key) = None"
    using assms(2) [unfolded store_ok_def disk_ok_def] by (auto dest!: spec [of _ key])
  then show False using assms(1) by (auto simp: load_hit_def Open_def split: if_splits)
qed

text \<open>
  C18: What a running cache answers without the origin is a complete download: the answer to a request is
  the origin's, but for the status header, or the request is cacheable and the answer has exactly the bytes of a
  download that was read to its end and committed under the same key, with the metadata that reading the JSON
  text of that download's metadata gives, and is not past the stale limit these state. What JSON keeps of a
  metadata record is not assumed: \<open>encoding/json\<close> replaces invalid UTF-8.
\<close>

theorem answers_were_downloaded:
  assumes run: "cache_run marshal unmarshal parse_time digest url_string S T" and start: "sys_start marshal S"
    and trip: "RoundTrip unmarshal parse_time digest url_string io r origin (sys_cache T) = (Ok resp, s, nb, rk)"
  shows "(\<exists>q v. origin = Ok q \<and> resp = set_status v q) \<or>
    (cacheableRequest r \<and> nb = None \<and>
     (\<exists>u m text meta content. req_url r = Some u \<and> (cacheKey digest url_string r u, m, content) \<in> set (sys_done T) \<and>
        marshal m = Some text \<and> unmarshal text = Some meta \<and>
        resp = cached_response meta (li_now (tr_load io)) content \<and> li_now (tr_load io) \<le> stale_until meta))"
proof -
  have T: "sys_ok marshal T" using cache_run_ok [OF run] sys_start_ok [OF start] by simp
  show ?thesis
  proof (cases "\<exists>q v. origin = Ok q \<and> resp = set_status v q")
    case no: False
    have "\<exists>u refresh. cacheableRequest r \<and> req_url r = Some u \<and> nb = None \<and>
        load unmarshal (tr_load io) (cacheKey digest url_string r u) (sys_cache T) = (Some (resp, refresh), s)"
    proof (cases "cacheableRequest r \<and> req_url r \<noteq> None")
      case False
      then show ?thesis
        using trip no by (cases origin) (auto simp: RoundTrip_def split: option.splits bool.splits)
    next
      case True
      then obtain u where u: "cacheableRequest r" "req_url r = Some u" by auto
      obtain lr s1 where l: "load unmarshal (tr_load io) (cacheKey digest url_string r u) (sys_cache T) = (lr, s1)" by fastforce
      show ?thesis
      proof (cases lr)
        case None
        then show ?thesis
          using trip no u l
          by (cases origin) (auto simp: RoundTrip_def fetch_trip_def Let_def set_status_twice split: option.splits prod.splits)
      next
        case (Some x)
        then show ?thesis using trip u l by (cases x) (auto simp: RoundTrip_def Let_def)
      qed
    qed
    then obtain u refresh where u: "cacheableRequest r" "req_url r = Some u" "nb = None"
      and l: "load unmarshal (tr_load io) (cacheKey digest url_string r u) (sys_cache T) = (Some (resp, refresh), s)" by blast
    let ?k = "cacheKey digest url_string r u"
    obtain meta b where hit: "load_hit unmarshal (tr_load io) ?k (sys_cache T) meta b"
      using l load_cases [of unmarshal "tr_load io" ?k "sys_cache T"] by auto
    then have resp: "resp = cached_response meta (li_now (tr_load io)) (cf_data b)"
      using load_hit_result [OF hit refl] l by auto
    have "?k \<in> keys_of (sys_cache T)" using load_key [OF hit] T by (simp add: sys_ok_def)
    then obtain m mb c where d: "(?k, m, c) \<in> set (sys_done T)" "marshal m = Some mb" "length mb \<le> maxMetadataBytes"
      "content_of (sys_cache T) (metaPath ?k) = Some mb" "content_of (sys_cache T) (bodyPath ?k) = Some c"
      using T by (auto simp: sys_ok_def recorded_def)
    obtain f where f: "c_dir (sys_cache T) (metaPath ?k) = Some f" "unmarshal (take maxMetadataBytes (cf_data f)) = Some meta"
      "c_dir (sys_cache T) (bodyPath ?k) = Some b" "li_now (tr_load io) \<le> stale_until meta"
      using hit by (auto simp: load_hit_def Open_def split: if_splits)
    have "cf_data f = mb" "cf_data b = c" using d(4,5) f(1,3) by (simp_all add: content_of_def)
    then have "unmarshal mb = Some meta" using f(2) d(3) by simp
    then show ?thesis using u d(1,2) resp f(4) \<open>cf_data b = c\<close> by blast
  qed simp
qed

lemma answers_were_downloaded_witness:
  "\<exists>m text meta content. (''a'', m, content) \<in> set (sys_done example_sys) \<and> example_print m = Some text \<and> Some (example_meta 3) = Some meta \<and>
     cached_response (example_meta 3) 900 ''xxx'' = cached_response meta 900 content \<and> 900 \<le> stale_until meta"
proof -
  let ?trip = "example_trip\<lparr>tr_load := example_load 900\<rparr>"
  have key: "cacheKey (\<lambda>_. ''a'') url_path example_artifact_request example_url = ''a''" by (simp add: cacheKey_def)
  have url: "req_url example_artifact_request = Some example_url" by (simp add: example_artifact_request_def)
  have now: "li_now (example_load 900) = 900" by (simp add: example_load_def)
  have "load_hit (\<lambda>_. Some (example_meta 3)) (tr_load ?trip) ''a'' (sys_cache example_sys) (example_meta 3) (example_file ''xxx'')"
    by (simp add: load_hit_def Open_def example_load_def example_sys_def example_cache_def example_file_def metaPath_def bodyPath_def
        example_meta_def stale_until_def zero_time_def)
  from load_hit_result [OF this refl]
  obtain t where load: "load (\<lambda>_. Some (example_meta 3)) (tr_load ?trip) ''a'' (sys_cache example_sys) =
      (Some (cached_response (example_meta 3) 900 ''xxx'', False), t)"
    by (simp add: example_meta_def example_load_def example_file_def)
  have "RoundTrip (\<lambda>_. Some (example_meta 3)) (\<lambda>_. None) (\<lambda>_. ''a'') url_path ?trip example_artifact_request (Err ''refused'')
      (sys_cache example_sys) = (Ok (cached_response (example_meta 3) 900 ''xxx''), t, None, None)"
    using load by (simp add: RoundTrip_def example_cacheable url key Let_def)
  then show ?thesis
    using answers_were_downloaded [OF start example_sys_start, of "\<lambda>_. Some (example_meta 3)" "\<lambda>_. None" "\<lambda>_. ''a''" url_path
      ?trip example_artifact_request "Err ''refused''"] by (auto simp: key url now)
qed

end
