(* ===== verification/LeafIssuer.thy ===== *)
theory LeafIssuer
  imports GoNet
begin

text \<open>
  The issuer of \<open>internal/pki/leaf.go\<close>: leaf certificates for TLS server names, signed on demand,
  cached in memory, and shared by concurrent callers. The calls of \<open>Certificate\<close> are threads of a
  step relation that run between the points where they hold the lock or wait. Key generation,
  random numbers and \<open>x509.CreateCertificate\<close> are outcomes given by an argument.
\<close>

section \<open>Leaves\<close>

definition hour_ns :: int where "hour_ns = 3600 * second_ns"

definition LeafValidity :: duration where "LeafValidity = word_of_int (30 * 24 * hour_ns)"
definition leafRenewal :: duration where "leafRenewal = word_of_int (7 * 24 * hour_ns)"
definition leafBackdate :: duration where "leafBackdate = word_of_int hour_ns"

text \<open>The part of the certificate template that depends on the call.\<close>

record leaf =
  lf_serial :: int
  lf_notBefore :: go_time
  lf_notAfter :: go_time
  lf_ips :: "ip list"
  lf_dns :: "string list"
  lf_commonName :: string

text \<open>
  What the calls of \<open>sign\<close> return: whether a key is generated, the random serial number if there is
  one, and whether the certificate is created and can be parsed.
\<close>

record sign_io =
  si_key :: bool
  si_serial :: "int option"
  si_create :: bool
  si_parse :: bool

definition sign :: "sign_io \<Rightarrow> go_time \<Rightarrow> go_time \<Rightarrow> string \<Rightarrow> (string, leaf \<times> go_time) result" where
  "sign io now caNotAfter hostname =
     (if hostname = [] then Err ''certificate hostname is empty''
      else if \<not> si_key io then Err ''generate leaf key''
      else case si_serial io of
        None \<Rightarrow> Err ''generate leaf serial number''
      | Some serial \<Rightarrow>
          let limit = time_add now LeafValidity;
              notAfter = (if caNotAfter < limit then caNotAfter else limit);
              leaf = (case ParseIP hostname of
                 Some a \<Rightarrow> \<lparr>lf_serial = serial, lf_notBefore = time_add now (- leafBackdate), lf_notAfter = notAfter,
                            lf_ips = [a], lf_dns = [], lf_commonName = []\<rparr>
               | None \<Rightarrow> \<lparr>lf_serial = serial, lf_notBefore = time_add now (- leafBackdate), lf_notAfter = notAfter,
                         lf_ips = [], lf_dns = [hostname], lf_commonName = hostname\<rparr>)
          in if \<not> si_create io then Err ''sign leaf certificate''
             else if \<not> si_parse io then Err ''parse leaf certificate''
             else Ok (leaf, notAfter))"

section \<open>The issuer\<close>

text \<open>
  Entries are shared by pointer, so they live in a heap and the map holds indices into it.
  \<open>le_host\<close> is history for the proofs: the name the entry was made for.
\<close>

record leaf_entry =
  le_ready :: bool
  le_certificate :: "leaf option"
  le_notAfter :: go_time
  le_err :: "string option"
  le_host :: string

record issuer =
  is_caNotAfter :: go_time
  is_max :: int
  is_entries :: "string \<Rightarrow> nat option"
  is_order :: "string list"
  is_heap :: "leaf_entry list"

text \<open>
  The CA as \<open>tls.Certificate\<close>: the parsed leaf, if it is set, and what parsing the first certificate
  of the chain gives, if there is one.
\<close>

record ca_certificate =
  ca_leaf :: "go_time option"
  ca_chain :: "go_time option list"

definition NewIssuer :: "ca_certificate \<Rightarrow> int \<Rightarrow> (string, issuer) result" where
  "NewIssuer ca maxEntries =
     (let make = (\<lambda>notAfter. Ok \<lparr>is_caNotAfter = notAfter, is_max = (if maxEntries < 1 then 1 else maxEntries),
                                is_entries = (\<lambda>_. None), is_order = [], is_heap = []\<rparr>)
      in case ca_leaf ca of
           Some notAfter \<Rightarrow> make notAfter
         | None \<Rightarrow>
             (case ca_chain ca of
                [] \<Rightarrow> Err ''CA certificate is missing''
              | None # _ \<Rightarrow> Err ''parse CA certificate''
              | Some notAfter # _ \<Rightarrow> make notAfter))"

definition fresh :: "go_time \<Rightarrow> issuer \<Rightarrow> go_time \<Rightarrow> bool" where
  "fresh now I notAfter =
     (if \<not> now < notAfter then False
      else time_add now leafRenewal < notAfter \<or> \<not> notAfter < is_caNotAfter I)"

definition removeLeaf :: "string \<Rightarrow> issuer \<Rightarrow> issuer" where
  "removeLeaf hostname I =
     I\<lparr>is_entries := (is_entries I)(hostname := None), is_order := remove1 hostname (is_order I)\<rparr>"

text \<open>The part of \<open>Certificate\<close> under the lock: serve, wait for an entry, or sign into a new one.\<close>

datatype lookup = Serve leaf | Wait nat | Sign nat

definition new_entry :: "string \<Rightarrow> issuer \<Rightarrow> lookup \<times> issuer" where
  "new_entry hostname I =
     (let I1 = (if is_max I \<le> int (length (is_order I)) then removeLeaf (hd (is_order I)) I else I);
          e = length (is_heap I1)
      in (Sign e, I1\<lparr>is_entries := (is_entries I1)(hostname \<mapsto> e), is_order := is_order I1 @ [hostname],
                    is_heap := is_heap I1 @ [\<lparr>le_ready = False, le_certificate = None, le_notAfter = 0, le_err = None,
                                              le_host = hostname\<rparr>]\<rparr>))"

definition lookup_entry :: "go_time \<Rightarrow> string \<Rightarrow> issuer \<Rightarrow> lookup \<times> issuer" where
  "lookup_entry now hostname I =
     (case is_entries I hostname of
        None \<Rightarrow> new_entry hostname I
      | Some e \<Rightarrow>
          let entry = is_heap I ! e
          in if le_ready entry then
               (case (le_err entry, le_certificate entry) of
                  (None, Some c) \<Rightarrow>
                    if fresh now I (le_notAfter entry) then (Serve c, I) else new_entry hostname (removeLeaf hostname I)
                | _ \<Rightarrow> new_entry hostname (removeLeaf hostname I))
             else (Wait e, I))"

text \<open>The result of \<open>sign\<close> is stored and the entry's channel closed.\<close>

definition settle :: "nat \<Rightarrow> (string, leaf \<times> go_time) result \<Rightarrow> issuer \<Rightarrow> issuer" where
  "settle e r I =
     I\<lparr>is_heap := (is_heap I)[e := (is_heap I ! e)\<lparr>le_ready := True,
          le_certificate := (case r of Inl _ \<Rightarrow> None | Inr (c, _) \<Rightarrow> Some c),
          le_notAfter := (case r of Inl _ \<Rightarrow> 0 | Inr (_, t) \<Rightarrow> t),
          le_err := (case r of Inl m \<Rightarrow> Some m | Inr _ \<Rightarrow> None)\<rparr>]\<rparr>"

definition drop_failed :: "string \<Rightarrow> nat \<Rightarrow> issuer \<Rightarrow> issuer" where
  "drop_failed hostname e I = (if is_entries I hostname = Some e then removeLeaf hostname I else I)"

section \<open>Concurrent calls\<close>

text \<open>
  Where a call of \<open>Certificate\<close> stands: before the lock, waiting for an entry, signing, about to drop a
  failed entry, or returned.
\<close>

datatype call = Calling string | Waiting string nat | Signing string nat | Dropping string nat string
  | Returned string "(string, leaf) result"

record calls =
  ca_issuer :: issuer
  ca_calls :: "call list"

definition put_call :: "nat \<Rightarrow> call \<Rightarrow> issuer \<Rightarrow> calls \<Rightarrow> calls" where
  "put_call i c I S = S\<lparr>ca_issuer := I, ca_calls := (ca_calls S)[i := c]\<rparr>"

definition after_lookup :: "string \<Rightarrow> lookup \<Rightarrow> call" where
  "after_lookup h l = (case l of Serve c \<Rightarrow> Returned h (Ok c) | Wait e \<Rightarrow> Waiting h e | Sign e \<Rightarrow> Signing h e)"

inductive call_step :: "calls \<Rightarrow> calls \<Rightarrow> bool" where
  locked: "call_step S (put_call i (after_lookup h l) I S)"
    if "i < length (ca_calls S)" "ca_calls S ! i = Calling h" "lookup_entry now h (ca_issuer S) = (l, I)"
| woken: "call_step S (put_call i (case le_err (is_heap (ca_issuer S) ! e) of Some m \<Rightarrow> Returned h (Err m) | None \<Rightarrow> Calling h)
      (ca_issuer S) S)"
    if "i < length (ca_calls S)" "ca_calls S ! i = Waiting h e" "le_ready (is_heap (ca_issuer S) ! e)"
| signed: "call_step S (put_call i (case r of Inl m \<Rightarrow> Dropping h e m | Inr (c, _) \<Rightarrow> Returned h (Ok c))
      (settle e r (ca_issuer S)) S)"
    if "i < length (ca_calls S)" "ca_calls S ! i = Signing h e" "sign io now (is_caNotAfter (ca_issuer S)) h = r"
| dropped: "call_step S (put_call i (Returned h (Err m)) (drop_failed h e (ca_issuer S)) S)"
    if "i < length (ca_calls S)" "ca_calls S ! i = Dropping h e m"

text \<open>Calls arrive at any time.\<close>

inductive call_run :: "calls \<Rightarrow> calls \<Rightarrow> bool" for S0 where
  begin_run: "call_run S0 S0"
| arrive: "call_run S0 S \<Longrightarrow> call_run S0 (S\<lparr>ca_calls := ca_calls S @ [Calling h]\<rparr>)"
| continue: "call_run S0 S \<Longrightarrow> call_step S T \<Longrightarrow> call_run S0 T"

inductive_cases call_stepE: "call_step S T"

section \<open>Consistency\<close>

text \<open>A leaf names exactly the host it is for and does not outlive the CA.\<close>

definition leaf_for :: "go_time \<Rightarrow> string \<Rightarrow> leaf \<Rightarrow> bool" where
  "leaf_for caNotAfter h c \<longleftrightarrow> h \<noteq> [] \<and> lf_notAfter c \<le> caNotAfter \<and>
     (case ParseIP h of Some a \<Rightarrow> lf_ips c = [a] \<and> lf_dns c = [] | None \<Rightarrow> lf_ips c = [] \<and> lf_dns c = [h])"

definition entry_ok :: "go_time \<Rightarrow> leaf_entry \<Rightarrow> bool" where
  "entry_ok caNotAfter e \<longleftrightarrow> (le_ready e \<and> le_err e = None \<longrightarrow>
     (\<exists>c. le_certificate e = Some c \<and> leaf_for caNotAfter (le_host e) c \<and> lf_notAfter c = le_notAfter e))"

definition issuer_ok :: "issuer \<Rightarrow> bool" where
  "issuer_ok I \<longleftrightarrow> 1 \<le> is_max I \<and> distinct (is_order I) \<and> set (is_order I) = dom (is_entries I) \<and>
     int (length (is_order I)) \<le> is_max I \<and>
     (\<forall>h e. is_entries I h = Some e \<longrightarrow> e < length (is_heap I) \<and> le_host (is_heap I ! e) = h) \<and>
     (\<forall>e < length (is_heap I). entry_ok (is_caNotAfter I) (is_heap I ! e))"

lemma sign_leaf_for:
  assumes "sign io now ca h = Ok (c, t)"
  shows "leaf_for ca h c" "lf_notAfter c = t"
  using assms by (auto simp: sign_def leaf_for_def Let_def split: if_splits option.splits)

lemma removeLeaf_ok:
  assumes "issuer_ok I"
  shows "issuer_ok (removeLeaf h I)"
proof -
  have "length (remove1 h (is_order I)) \<le> length (is_order I)" by (simp add: length_remove1)
  then have "int (length (remove1 h (is_order I))) \<le> is_max I" using assms by (auto simp: issuer_ok_def)
  moreover have "set (remove1 h (is_order I)) = dom (is_entries I) - {h}"
    using assms by (simp add: issuer_ok_def)
  ultimately show ?thesis using assms by (auto simp: issuer_ok_def removeLeaf_def)
qed

lemma removeLeaf_simps [simp]:
  "is_heap (removeLeaf h I) = is_heap I" "is_max (removeLeaf h I) = is_max I" "is_caNotAfter (removeLeaf h I) = is_caNotAfter I"
  "is_entries (removeLeaf h I) = (is_entries I)(h := None)" "is_order (removeLeaf h I) = remove1 h (is_order I)"
  by (simp_all add: removeLeaf_def)

text \<open>An entry added to an issuer with room.\<close>

definition with_entry :: "string \<Rightarrow> issuer \<Rightarrow> issuer" where
  "with_entry h I = I\<lparr>is_entries := (is_entries I)(h \<mapsto> length (is_heap I)), is_order := is_order I @ [h],
     is_heap := is_heap I @ [\<lparr>le_ready = False, le_certificate = None, le_notAfter = 0, le_err = None, le_host = h\<rparr>]\<rparr>"

lemma with_entry_ok:
  assumes ok: "issuer_ok I" and none: "is_entries I h = None" and room: "int (length (is_order I)) < is_max I"
  shows "issuer_ok (with_entry h I)"
proof -
  have "h \<notin> set (is_order I)" using ok none unfolding issuer_ok_def by blast
  then show ?thesis using ok none room unfolding issuer_ok_def with_entry_def
    by (auto simp: nth_append entry_ok_def less_Suc_eq)
qed

lemma new_entry_ok:
  assumes ok: "issuer_ok I" and none: "is_entries I h = None" and new: "new_entry h I = (l, J)"
  shows "issuer_ok J \<and> l = Sign (length (is_heap I)) \<and> is_caNotAfter J = is_caNotAfter I \<and>
    (\<exists>x. is_heap J = is_heap I @ [x] \<and> \<not> le_ready x \<and> le_host x = h)"
proof -
  define I1 where "I1 = (if is_max I \<le> int (length (is_order I)) then removeLeaf (hd (is_order I)) I else I)"
  have I1: "issuer_ok I1" using removeLeaf_ok [OF ok] ok by (simp add: I1_def)
  have heap: "is_heap I1 = is_heap I" "is_caNotAfter I1 = is_caNotAfter I" by (simp_all add: I1_def)
  have room: "int (length (is_order I1)) < is_max I1"
  proof (cases "is_max I \<le> int (length (is_order I))")
    case True
    then obtain h0 hs where "is_order I = h0 # hs" using ok by (cases "is_order I") (auto simp: issuer_ok_def)
    then show ?thesis using True ok by (simp add: issuer_ok_def I1_def)
  next
    case False
    then show ?thesis by (simp add: I1_def)
  qed
  have none1: "is_entries I1 h = None" using none by (simp add: I1_def)
  have "J = with_entry h I1" "l = Sign (length (is_heap I1))"
    using new by (simp_all add: new_entry_def Let_def with_entry_def flip: I1_def)
  then show ?thesis using with_entry_ok [OF I1 none1 room] heap by (simp add: with_entry_def)
qed

text \<open>What a call relies on, and the consistency of issuer and calls.\<close>

definition call_ok :: "issuer \<Rightarrow> call \<Rightarrow> bool" where
  "call_ok I c \<longleftrightarrow>
     (case c of
        Waiting h e \<Rightarrow> e < length (is_heap I) \<and> le_host (is_heap I ! e) = h
      | Signing h e \<Rightarrow> e < length (is_heap I) \<and> le_host (is_heap I ! e) = h \<and> \<not> le_ready (is_heap I ! e)
      | Returned h (Inr l) \<Rightarrow> leaf_for (is_caNotAfter I) h l
      | _ \<Rightarrow> True)"

definition signs :: "nat \<Rightarrow> call \<Rightarrow> bool" where
  "signs e c \<longleftrightarrow> (\<exists>h. c = Signing h e)"

lemma filter_update_length:
  assumes "i < length xs"
  shows "int (length (filter P (xs[i := y]))) =
    int (length (filter P xs)) - (if P (xs ! i) then 1 else 0) + (if P y then 1 else 0)"
  using length_filter_update [OF assms, of P y] by (auto split: if_splits)

text \<open>Steps only add to the heap and make entries ready; a call keeps what it relies on.\<close>

definition heap_grows :: "issuer \<Rightarrow> issuer \<Rightarrow> bool" where
  "heap_grows I J \<longleftrightarrow> is_caNotAfter J = is_caNotAfter I \<and> length (is_heap I) \<le> length (is_heap J) \<and>
     (\<forall>e < length (is_heap I). le_host (is_heap J ! e) = le_host (is_heap I ! e))"

lemma call_ok_grows:
  assumes "call_ok I c" "heap_grows I J" "\<And>e. signs e c \<Longrightarrow> e < length (is_heap I) \<Longrightarrow> le_ready (is_heap J ! e) = le_ready (is_heap I ! e)"
  shows "call_ok J c"
  using assms by (cases c) (auto simp: call_ok_def heap_grows_def signs_def split: sum.splits)

lemma lookup_entry_cases:
  assumes ok: "issuer_ok I" and l: "lookup_entry now h I = (l, J)"
  shows "(J = I \<and> (\<exists>c. l = Serve c \<and> leaf_for (is_caNotAfter I) h c \<and> fresh now I (lf_notAfter c))) \<or>
    (J = I \<and> (\<exists>e. l = Wait e \<and> is_entries I h = Some e \<and> \<not> le_ready (is_heap I ! e))) \<or>
    (l = Sign (length (is_heap I)) \<and> issuer_ok J \<and> is_caNotAfter J = is_caNotAfter I \<and>
      (\<exists>x. is_heap J = is_heap I @ [x] \<and> \<not> le_ready x \<and> le_host x = h))"
proof (cases "is_entries I h")
  case None
  then show ?thesis using new_entry_ok [OF ok None, of l J] l by (simp add: lookup_entry_def)
next
  case (Some e)
  then have e: "e < length (is_heap I)" "le_host (is_heap I ! e) = h" "entry_ok (is_caNotAfter I) (is_heap I ! e)"
    using ok by (auto simp: issuer_ok_def)
  have redo: ?thesis if "new_entry h (removeLeaf h I) = (l, J)"
    using new_entry_ok [OF removeLeaf_ok [OF ok, of h] _ that] by simp
  show ?thesis
  proof (cases "le_ready (is_heap I ! e)")
    case False
    then show ?thesis using l Some by (auto simp: lookup_entry_def Let_def)
  next
    case ready: True
    show ?thesis
    proof (cases "le_err (is_heap I ! e)")
      case (Some m)
      then show ?thesis using l \<open>is_entries I h = Some e\<close> ready by (intro redo) (simp add: lookup_entry_def Let_def)
    next
      case None
      then obtain c where c: "le_certificate (is_heap I ! e) = Some c" "leaf_for (is_caNotAfter I) h c"
        "lf_notAfter c = le_notAfter (is_heap I ! e)"
        using e(2,3) ready by (auto simp: entry_ok_def)
      show ?thesis
      proof (cases "fresh now I (le_notAfter (is_heap I ! e))")
        case True
        then have "l = Serve c" "J = I" using l Some ready None c by (simp_all add: lookup_entry_def Let_def)
        then show ?thesis using True c by simp
      next
        case False
        then show ?thesis using l Some ready None c by (intro redo) (simp add: lookup_entry_def Let_def)
      qed
    qed
  qed
qed

lemma settle_ok:
  assumes "issuer_ok I" "e < length (is_heap I)" "case r of Inl _ \<Rightarrow> True | Inr (c, t) \<Rightarrow> leaf_for (is_caNotAfter I) (le_host (is_heap I ! e)) c \<and> lf_notAfter c = t"
  shows "issuer_ok (settle e r I)"
  using assms by (auto simp: issuer_ok_def settle_def entry_ok_def nth_list_update split: sum.splits)

lemma settle_grows: "heap_grows I (settle e r I)"
  by (cases "e < length (is_heap I)") (auto simp: heap_grows_def settle_def nth_list_update list_update_beyond)

section \<open>Steps keep the consistency\<close>

lemma signs_simps [simp]:
  "signs e (Signing h d) \<longleftrightarrow> d = e" "\<not> signs e (Calling h)" "\<not> signs e (Waiting h d)" "\<not> signs e (Dropping h d m)"
  "\<not> signs e (Returned h r)"
  by (auto simp: signs_def)

lemma put_call_simps [simp]:
  "ca_issuer (put_call i c I S) = I" "ca_calls (put_call i c I S) = (ca_calls S)[i := c]"
  by (simp_all add: put_call_def)

text \<open>The number of calls that sign into an entry.\<close>

definition signers :: "nat \<Rightarrow> calls \<Rightarrow> nat" where
  "signers e S = length (filter (signs e) (ca_calls S))"

lemma signers_put_call:
  assumes "i < length (ca_calls S)"
  shows "int (signers e (put_call i c I S)) =
    int (signers e S) - (if signs e (ca_calls S ! i) then 1 else 0) + (if signs e c then 1 else 0)"
  using filter_update_length [OF assms] by (simp add: signers_def)

definition one_signer :: "calls \<Rightarrow> bool" where
  "one_signer S \<longleftrightarrow> (\<forall>e. signers e S =
     (if e < length (is_heap (ca_issuer S)) \<and> \<not> le_ready (is_heap (ca_issuer S) ! e) then 1 else 0))"

definition calls_ok :: "calls \<Rightarrow> bool" where
  "calls_ok S \<longleftrightarrow> issuer_ok (ca_issuer S) \<and> (\<forall>c \<in> set (ca_calls S). call_ok (ca_issuer S) c) \<and> one_signer S"

lemma heap_grows_refl [simp]: "heap_grows I I"
  by (simp add: heap_grows_def)

lemma heap_grows_append:
  "is_caNotAfter J = is_caNotAfter I \<Longrightarrow> is_heap J = is_heap I @ [x] \<Longrightarrow> heap_grows I J"
  by (simp add: heap_grows_def nth_append)

text \<open>Another call of the list stays consistent when call \<open>i\<close> moves the issuer from one state to the next.\<close>

lemma calls_put_call_ok:
  assumes ok: "\<forall>c \<in> set (ca_calls S). call_ok (ca_issuer S) c" and new: "call_ok I c" and grows: "heap_grows (ca_issuer S) I"
    and ready: "\<And>e j. j < length (ca_calls S) \<Longrightarrow> j \<noteq> i \<Longrightarrow> signs e (ca_calls S ! j) \<Longrightarrow> e < length (is_heap (ca_issuer S)) \<Longrightarrow>
        le_ready (is_heap I ! e) = le_ready (is_heap (ca_issuer S) ! e)"
  shows "\<forall>c \<in> set (ca_calls (put_call i c I S)). call_ok I c"
proof
  fix d assume "d \<in> set (ca_calls (put_call i c I S))"
  then obtain j where j: "j < length (ca_calls S)" "d = (ca_calls S)[i := c] ! j" by (auto simp: in_set_conv_nth)
  show "call_ok I d"
  proof (cases "j = i")
    case True
    then show ?thesis using j new by simp
  next
    case False
    then show ?thesis using call_ok_grows [OF _ grows ready [OF j(1) False]] ok j by simp
  qed
qed

text \<open>Two calls that sign into the same entry are one call.\<close>

lemma one_signer_unique:
  assumes "one_signer S" "i < length (ca_calls S)" "j < length (ca_calls S)" "signs e (ca_calls S ! i)" "signs e (ca_calls S ! j)"
  shows "i = j"
proof (rule ccontr)
  assume "i \<noteq> j"
  then have "2 \<le> signers e S" unfolding signers_def using assms by (intro length_filter_two [of i _ j]) auto
  then show False using assms(1) by (auto simp: one_signer_def split: if_splits)
qed

lemma one_signer_put_call:
  assumes "one_signer S" "i < length (ca_calls S)" "\<And>e. \<not> signs e (ca_calls S ! i)" "\<And>e. \<not> signs e c"
    "is_heap I = is_heap (ca_issuer S)"
  shows "one_signer (put_call i c I S)"
  using assms signers_put_call [OF assms(2), of _ c I] by (auto simp: one_signer_def)

lemma call_step_locked:
  assumes ok: "calls_ok S" and i: "i < length (ca_calls S)" "ca_calls S ! i = Calling h"
    and l: "lookup_entry now h (ca_issuer S) = (l, I)"
  shows "calls_ok (put_call i (after_lookup h l) I S)"
proof -
  have I: "issuer_ok (ca_issuer S)" "\<forall>c \<in> set (ca_calls S). call_ok (ca_issuer S) c" "one_signer S"
    using ok by (auto simp: calls_ok_def)
  consider (serve) c where "I = ca_issuer S" "l = Serve c" "leaf_for (is_caNotAfter I) h c"
    | (wait) e where "I = ca_issuer S" "l = Wait e" "is_entries I h = Some e"
    | (new) x where "l = Sign (length (is_heap (ca_issuer S)))" "issuer_ok I" "is_caNotAfter I = is_caNotAfter (ca_issuer S)"
        "is_heap I = is_heap (ca_issuer S) @ [x]" "\<not> le_ready x" "le_host x = h"
    using lookup_entry_cases [OF I(1) l] by blast
  then show ?thesis
  proof cases
    case serve
    then show ?thesis using I i calls_put_call_ok [OF I(2), of I "after_lookup h l" i]
      by (auto simp: calls_ok_def after_lookup_def call_ok_def intro!: one_signer_put_call)
  next
    case wait
    then have "e < length (is_heap I)" "le_host (is_heap I ! e) = h" using I(1) by (auto simp: issuer_ok_def)
    then show ?thesis using wait I i calls_put_call_ok [OF I(2), of I "after_lookup h l" i]
      by (auto simp: calls_ok_def after_lookup_def call_ok_def intro!: one_signer_put_call)
  next
    case new
    have calls: "\<forall>c \<in> set (ca_calls (put_call i (after_lookup h l) I S)). call_ok I c"
      using new by (intro calls_put_call_ok [OF I(2)] heap_grows_append) (auto simp: after_lookup_def call_ok_def nth_append)
    have "one_signer (put_call i (after_lookup h l) I S)"
      unfolding one_signer_def
    proof
      fix e
      have "int (signers e (put_call i (after_lookup h l) I S)) = int (signers e S) + (if length (is_heap (ca_issuer S)) = e then 1 else 0)"
        using signers_put_call [OF i(1), of e "after_lookup h l" I] i new(1) by (simp add: after_lookup_def)
      then show "signers e (put_call i (after_lookup h l) I S) = (if e < length (is_heap (ca_issuer (put_call i (after_lookup h l) I S))) \<and>
          \<not> le_ready (is_heap (ca_issuer (put_call i (after_lookup h l) I S)) ! e) then 1 else 0)"
        using I(3) new(4,5) by (auto simp: one_signer_def nth_append less_Suc_eq split: if_splits)
    qed
    then show ?thesis using calls new(2) by (simp add: calls_ok_def)
  qed
qed

lemma settle_simps [simp]:
  "is_caNotAfter (settle e r I) = is_caNotAfter I" "length (is_heap (settle e r I)) = length (is_heap I)"
  "is_entries (settle e r I) = is_entries I" "is_order (settle e r I) = is_order I" "is_max (settle e r I) = is_max I"
  by (simp_all add: settle_def)

lemma settle_ready:
  "e < length (is_heap I) \<Longrightarrow> d < length (is_heap I) \<Longrightarrow>
     le_ready (is_heap (settle e r I) ! d) \<longleftrightarrow> d = e \<or> le_ready (is_heap I ! d)"
  by (auto simp: settle_def nth_list_update)

lemma call_step_signed:
  assumes ok: "calls_ok S" and i: "i < length (ca_calls S)" "ca_calls S ! i = Signing h e"
    and r: "sign io now (is_caNotAfter (ca_issuer S)) h = r"
  shows "calls_ok (put_call i (case r of Inl m \<Rightarrow> Dropping h e m | Inr (c, _) \<Rightarrow> Returned h (Ok c)) (settle e r (ca_issuer S)) S)"
    (is "calls_ok (put_call i ?c ?J S)")
proof -
  have I: "issuer_ok (ca_issuer S)" "\<forall>c \<in> set (ca_calls S). call_ok (ca_issuer S) c" "one_signer S"
    using ok by (auto simp: calls_ok_def)
  have "call_ok (ca_issuer S) (Signing h e)" using I(2) i by (metis nth_mem)
  then have e: "e < length (is_heap (ca_issuer S))" "le_host (is_heap (ca_issuer S) ! e) = h" by (simp_all add: call_ok_def)
  have leaf: "leaf_for (is_caNotAfter (ca_issuer S)) h c \<and> lf_notAfter c = t" if "r = Ok (c, t)" for c t
    using sign_leaf_for that r by blast
  have J: "issuer_ok ?J" using e leaf by (intro settle_ok I) (auto split: sum.splits)
  have c: "call_ok ?J ?c" using leaf by (auto simp: call_ok_def split: sum.splits)
  have other: "d \<noteq> e" if "j < length (ca_calls S)" "j \<noteq> i" "signs d (ca_calls S ! j)" for j d
    using one_signer_unique [OF I(3) that(1) i(1), of e] that i by auto
  have calls: "\<forall>c \<in> set (ca_calls (put_call i ?c ?J S)). call_ok ?J c"
    using c other e by (intro calls_put_call_ok [OF I(2)] settle_grows) (auto simp: settle_ready)
  have "\<not> signs d ?c" for d by (auto split: sum.splits)
  then have "int (signers d (put_call i ?c ?J S)) = int (signers d S) - (if d = e then 1 else 0)" for d
    using signers_put_call [OF i(1), of d ?c ?J] i by simp
  moreover have "signers d S = (if d < length (is_heap (ca_issuer S)) \<and> \<not> le_ready (is_heap (ca_issuer S) ! d) then 1 else 0)" for d
    using I(3) by (simp add: one_signer_def)
  moreover have "signers e S = 1" using \<open>call_ok (ca_issuer S) (Signing h e)\<close> calculation(2) by (simp add: call_ok_def)
  ultimately have count: "int (signers d (put_call i ?c ?J S)) =
      (if d < length (is_heap ?J) \<and> \<not> le_ready (is_heap ?J ! d) then 1 else 0)" for d
    using e by (cases "d < length (is_heap (ca_issuer S))"; cases "d = e") (simp_all add: settle_ready)
  have "one_signer (put_call i ?c ?J S)"
    unfolding one_signer_def put_call_simps using count by (metis of_nat_eq_1_iff of_nat_eq_0_iff)
  then show ?thesis using J calls by (simp add: calls_ok_def)
qed

lemma calls_ok_step:
  assumes "call_step S T" "calls_ok S"
  shows "calls_ok T"
  using assms
proof cases
  case (locked i h now l I)
  then show ?thesis using call_step_locked assms(2) by simp
next
  case (woken i h e)
  have "call_ok (ca_issuer S) (case le_err (is_heap (ca_issuer S) ! e) of Some m \<Rightarrow> Returned h (Err m) | None \<Rightarrow> Calling h)"
    by (simp add: call_ok_def split: option.split)
  then show ?thesis using woken assms(2)
    by (auto simp: calls_ok_def intro!: one_signer_put_call intro: calls_put_call_ok [rule_format] split: option.splits)
next
  case (signed i h e io now r)
  then show ?thesis using call_step_signed assms(2) by simp
next
  case (dropped i h e m)
  have I: "issuer_ok (ca_issuer S)" "\<forall>c \<in> set (ca_calls S). call_ok (ca_issuer S) c" "one_signer S"
    using assms(2) by (auto simp: calls_ok_def)
  have J: "issuer_ok (drop_failed h e (ca_issuer S))" "is_heap (drop_failed h e (ca_issuer S)) = is_heap (ca_issuer S)"
    "heap_grows (ca_issuer S) (drop_failed h e (ca_issuer S))"
    using removeLeaf_ok [OF I(1)] I(1) by (auto simp: drop_failed_def heap_grows_def)
  then have "\<forall>c \<in> set (ca_calls T). call_ok (ca_issuer T) c"
    using calls_put_call_ok [OF I(2), of _ "Returned h (Err m)"] dropped by (simp add: call_ok_def)
  then show ?thesis using J dropped I by (auto simp: calls_ok_def intro!: one_signer_put_call)
qed

section \<open>Every run ends\<close>

text \<open>
  A step moves a call towards its return, or sends a waiting call back to the lock; the latter only when
  the entry it waits for is ready, and an entry it then finds instead is one another call signs.
\<close>

fun call_weight :: "call \<Rightarrow> nat" where
  "call_weight (Calling _) = 3"
| "call_weight (Waiting _ _) = 3"
| "call_weight (Signing _ _) = 2"
| "call_weight (Dropping _ _ _) = 1"
| "call_weight (Returned _ _) = 0"

fun wait_weight :: "issuer \<Rightarrow> call \<Rightarrow> nat" where
  "wait_weight _ (Calling _) = 1"
| "wait_weight I (Waiting _ e) = (if le_ready (is_heap I ! e) then 2 else 0)"
| "wait_weight _ _ = 0"

definition calls_measure :: "calls \<Rightarrow> nat \<times> nat" where
  "calls_measure S = (sum_list (map call_weight (ca_calls S)), sum_list (map (wait_weight (ca_issuer S)) (ca_calls S)))"

lemma measure_put_call:
  assumes "i < length (ca_calls S)" "call_weight c < call_weight (ca_calls S ! i) \<or>
    call_weight c = call_weight (ca_calls S ! i) \<and> I = ca_issuer S \<and> wait_weight I c < wait_weight I (ca_calls S ! i)"
  shows "(calls_measure (put_call i c I S), calls_measure S) \<in> less_than <*lex*> less_than"
  using assms(2) sum_list_map_update [OF assms(1), of call_weight c] sum_list_map_update [OF assms(1), of "wait_weight I" c]
  by (auto simp: calls_measure_def)

lemma call_step_measure:
  assumes "call_step S T" "calls_ok S"
  shows "(calls_measure T, calls_measure S) \<in> less_than <*lex*> less_than"
  using assms
proof cases
  case (locked i h now l I)
  have "issuer_ok (ca_issuer S)" using assms(2) by (simp add: calls_ok_def)
  note lookup_entry_cases [OF this locked(4)]
  then show ?thesis unfolding locked(1) using locked(2,3)
    by (intro measure_put_call) (auto simp: after_lookup_def)
next
  case (woken i h e)
  show ?thesis unfolding woken(1) using woken(2-) by (intro measure_put_call) (auto split: option.split)
next
  case (signed i h e io now r)
  show ?thesis unfolding signed(1) using signed(2-) by (intro measure_put_call) (auto split: sum.split)
next
  case (dropped i h e m)
  show ?thesis unfolding dropped(1) using dropped(2-) by (intro measure_put_call) auto
qed

definition returned :: "call \<Rightarrow> bool" where
  "returned c \<longleftrightarrow> (case c of Returned _ _ \<Rightarrow> True | _ \<Rightarrow> False)"

text \<open>A call that has not returned means that some call can take a step: nobody waits for nobody.\<close>

lemma call_step_possible:
  assumes ok: "calls_ok S" and i: "i < length (ca_calls S)" "\<not> returned (ca_calls S ! i)"
  shows "\<exists>T. call_step S T"
proof (cases "ca_calls S ! i")
  case (Calling h)
  then show ?thesis using call_step.locked [OF i(1)] by (metis surj_pair)
next
  case (Signing h e)
  then show ?thesis using call_step.signed [OF i(1)] by blast
next
  case (Dropping h e m)
  then show ?thesis using call_step.dropped [OF i(1)] by blast
next
  case (Returned h r)
  then show ?thesis using i by (simp add: returned_def)
next
  case (Waiting h e)
  show ?thesis
  proof (cases "le_ready (is_heap (ca_issuer S) ! e)")
    case True
    then show ?thesis using call_step.woken [OF i(1) Waiting] by blast
  next
    case False
    have "call_ok (ca_issuer S) (Waiting h e)" using ok i(1) Waiting by (metis calls_ok_def nth_mem)
    then have "signers e S = 1" using ok False by (auto simp: calls_ok_def one_signer_def call_ok_def)
    then have "filter (signs e) (ca_calls S) \<noteq> []" by (auto simp: signers_def)
    then obtain j where "j < length (ca_calls S)" "signs e (ca_calls S ! j)"
      by (auto simp: filter_empty_conv in_set_conv_nth)
    then show ?thesis using call_step.signed by (metis signs_def)
  qed
qed

lemma runs_end:
  assumes "calls_ok (f 0)" "\<And>n. call_step (f n) (f (Suc n)) \<or> f (Suc n) = f n \<and> (\<nexists>T. call_step (f n) T)"
  shows "\<exists>n. \<forall>c \<in> set (ca_calls (f n)). returned c"
proof (rule ccontr)
  assume no: "\<nexists>n. \<forall>c \<in> set (ca_calls (f n)). returned c"
  have "calls_ok (f n) \<and> call_step (f n) (f (Suc n))" for n
  proof (induction n)
    case 0
    then show ?case using assms no call_step_possible by (metis in_set_conv_nth)
  next
    case (Suc n)
    then have "calls_ok (f (Suc n))" using calls_ok_step by blast
    then show ?case using assms(2) no call_step_possible by (metis in_set_conv_nth)
  qed
  then have "\<And>n. (calls_measure (f (Suc n)), calls_measure (f n)) \<in> less_than <*lex*> less_than"
    using call_step_measure by blast
  then have "\<exists>g. \<forall>n. (g (Suc n), g n) \<in> less_than <*lex*> less_than"
    by (intro exI [of _ "\<lambda>n. calls_measure (f n)"]) simp
  moreover have "wf (less_than <*lex*> less_than)" by auto
  ultimately show False using wf_iff_no_infinite_down_chain by blast
qed

section \<open>From a new issuer\<close>

definition no_calls :: "issuer \<Rightarrow> calls" where
  "no_calls I = \<lparr>ca_issuer = I, ca_calls = []\<rparr>"

lemma NewIssuer_ok: "NewIssuer ca n = Ok I \<Longrightarrow> calls_ok (no_calls I)"
  by (auto simp: NewIssuer_def Let_def calls_ok_def no_calls_def issuer_ok_def one_signer_def signers_def
      split: option.splits list.splits if_splits)

lemma lookup_entry_const:
  assumes "lookup_entry now h I = (l, J)"
  shows "is_max J = is_max I" "is_caNotAfter J = is_caNotAfter I"
  using assms by (auto simp: lookup_entry_def new_entry_def Let_def split: option.splits if_splits)

lemma call_step_const:
  assumes "call_step S T"
  shows "is_max (ca_issuer T) = is_max (ca_issuer S) \<and> is_caNotAfter (ca_issuer T) = is_caNotAfter (ca_issuer S)"
  using assms by cases (auto simp: lookup_entry_const drop_failed_def)

lemma call_run_ok:
  assumes "call_run S0 S" "calls_ok S0"
  shows "calls_ok S \<and> is_max (ca_issuer S) = is_max (ca_issuer S0) \<and> is_caNotAfter (ca_issuer S) = is_caNotAfter (ca_issuer S0)"
  using assms
proof induction
  case (arrive S h)
  then show ?case by (auto simp: calls_ok_def call_ok_def one_signer_def signers_def)
next
  case (continue S T)
  then show ?case using calls_ok_step call_step_const by metis
qed simp

section \<open>Properties\<close>

definition example_ca :: ca_certificate where
  "example_ca = \<lparr>ca_leaf = Some (2000 * hour_ns), ca_chain = []\<rparr>"

definition example_issuer :: issuer where
  "example_issuer = \<lparr>is_caNotAfter = 2000 * hour_ns, is_max = 1, is_entries = (\<lambda>_. None), is_order = [], is_heap = []\<rparr>"

definition example_sign :: sign_io where
  "example_sign = \<lparr>si_key = True, si_serial = Some 7, si_create = True, si_parse = True\<rparr>"

lemma example_NewIssuer: "NewIssuer example_ca 0 = Ok example_issuer"
  by (simp add: NewIssuer_def example_ca_def example_issuer_def)

text \<open>One call that finds no entry and signs one, step by step.\<close>

definition example_calls :: "string \<Rightarrow> sign_io \<Rightarrow> nat \<Rightarrow> calls" where
  "example_calls h io n =
     (let S0 = \<lparr>ca_issuer = example_issuer, ca_calls = [Calling h]\<rparr>;
          S1 = put_call 0 (Signing h 0) (snd (lookup_entry 0 h example_issuer)) S0;
          r = sign io 0 (2000 * hour_ns) h;
          S2 = put_call 0 (case r of Inl m \<Rightarrow> Dropping h 0 m | Inr (c, _) \<Rightarrow> Returned h (Ok c)) (settle 0 r (ca_issuer S1)) S1
      in if n = 0 then S0 else if n = 1 then S1 else S2)"

lemma example_calls_step:
  "call_step (example_calls h io 0) (example_calls h io 1)" "call_step (example_calls h io 1) (example_calls h io 2)"
proof -
  have "lookup_entry 0 h example_issuer = (Sign 0, snd (lookup_entry 0 h example_issuer))"
    by (simp add: lookup_entry_def new_entry_def example_issuer_def Let_def)
  then show "call_step (example_calls h io 0) (example_calls h io 1)"
    using call_step.locked [of 0 "example_calls h io 0" h 0 "Sign 0"]
    by (simp add: example_calls_def after_lookup_def)
  have "is_caNotAfter (snd (lookup_entry 0 h example_issuer)) = 2000 * hour_ns"
    by (simp add: lookup_entry_def new_entry_def example_issuer_def Let_def)
  then show "call_step (example_calls h io 1) (example_calls h io 2)"
    using call_step.signed [of 0 "example_calls h io 1" h 0 io 0 "sign io 0 (2000 * hour_ns) h"]
    by (simp add: example_calls_def Let_def)
qed

lemma example_calls_run: "call_run (no_calls example_issuer) (example_calls h io 2)"
proof -
  have "call_run (no_calls example_issuer) (example_calls h io 0)"
    using call_run.arrive [OF call_run.begin_run, of "no_calls example_issuer" h]
    by (simp add: no_calls_def example_calls_def)
  then show ?thesis using example_calls_step call_run.continue by blast
qed

text \<open>
  C25: Whatever calls of \<open>Certificate\<close> arrive and however they interleave, the issuer keeps at most its
  maximum of entries, every entry that is not ready is signed by exactly one call for its name, and a
  certificate returned to a caller names exactly the host name asked for and does not outlive the CA.
\<close>

theorem issuer_run_safe:
  assumes "NewIssuer ca n = Ok I" "call_run (no_calls I) S"
  shows "finite (dom (is_entries (ca_issuer S))) \<and> int (card (dom (is_entries (ca_issuer S)))) \<le> max 1 n \<and>
    (\<forall>h e. is_entries (ca_issuer S) h = Some e \<longrightarrow> \<not> le_ready (is_heap (ca_issuer S) ! e) \<longrightarrow>
       (\<exists>!i. i < length (ca_calls S) \<and> ca_calls S ! i = Signing h e)) \<and>
    (\<forall>h c. Returned h (Ok c) \<in> set (ca_calls S) \<longrightarrow> leaf_for (is_caNotAfter I) h c)"
proof -
  have S: "calls_ok S" "is_max (ca_issuer S) = is_max I" "is_caNotAfter (ca_issuer S) = is_caNotAfter I"
    using call_run_ok [OF assms(2) NewIssuer_ok [OF assms(1)]] by (auto simp: no_calls_def)
  then have I: "issuer_ok (ca_issuer S)" "one_signer S" and calls: "\<forall>c \<in> set (ca_calls S). call_ok (ca_issuer S) c"
    by (simp_all add: calls_ok_def)
  have max: "is_max I = max 1 n" using assms(1) by (auto simp: NewIssuer_def Let_def split: option.splits list.splits if_splits)
  have dom: "dom (is_entries (ca_issuer S)) = set (is_order (ca_issuer S))" "distinct (is_order (ca_issuer S))"
    "int (length (is_order (ca_issuer S))) \<le> max 1 n"
    using I(1) max S(2) by (auto simp: issuer_ok_def)
  have once: "\<exists>!i. i < length (ca_calls S) \<and> ca_calls S ! i = Signing h e"
    if e: "is_entries (ca_issuer S) h = Some e" "\<not> le_ready (is_heap (ca_issuer S) ! e)" for h e
  proof -
    have bounds: "e < length (is_heap (ca_issuer S))" "le_host (is_heap (ca_issuer S) ! e) = h"
      using I(1) e by (auto simp: issuer_ok_def)
    then have "signers e S = 1" using I(2) e(2) by (simp add: one_signer_def)
    then have "filter (signs e) (ca_calls S) \<noteq> []" by (auto simp: signers_def)
    then obtain i where i: "i < length (ca_calls S)" "signs e (ca_calls S ! i)" by (auto simp: filter_empty_conv in_set_conv_nth)
    then obtain h' where h': "ca_calls S ! i = Signing h' e" by (auto simp: signs_def)
    then have "call_ok (ca_issuer S) (Signing h' e)" using calls i(1) by (metis nth_mem)
    then have "ca_calls S ! i = Signing h e" using h' bounds by (simp add: call_ok_def)
    then show ?thesis using i one_signer_unique [OF I(2)] by (intro ex1I [of _ i]) auto
  qed
  have "leaf_for (is_caNotAfter I) h c" if "Returned h (Ok c) \<in> set (ca_calls S)" for h c
    using bspec [OF calls that] S(3) by (simp add: call_ok_def)
  then show ?thesis using dom once by (simp add: distinct_card)
qed

lemma issuer_run_safe_witness:
  "leaf_for (2000 * hour_ns) ''a.test''
     \<lparr>lf_serial = 7, lf_notBefore = - hour_ns, lf_notAfter = 720 * hour_ns, lf_ips = [], lf_dns = [''a.test''], lf_commonName = ''a.test''\<rparr>"
proof -
  let ?c = "\<lparr>lf_serial = 7, lf_notBefore = - hour_ns, lf_notAfter = 720 * hour_ns, lf_ips = [], lf_dns = [''a.test''],
    lf_commonName = ''a.test''\<rparr>"
  have "sign example_sign 0 (2000 * hour_ns) ''a.test'' = Ok (?c, 720 * hour_ns)" by code_simp
  then have "Returned ''a.test'' (Ok ?c) \<in> set (ca_calls (example_calls ''a.test'' example_sign 2))"
    by (simp add: example_calls_def Let_def)
  then show ?thesis
    using issuer_run_safe [OF example_NewIssuer example_calls_run, of "''a.test''" example_sign]
    by (auto simp: example_issuer_def)
qed

text \<open>
  A certificate served from the cache is for the host name asked for, has not expired, and either has
  more than the renewal period left or lasts as long as the CA itself.
\<close>

theorem served_leaf_fresh:
  assumes "NewIssuer ca n = Ok I" "call_run (no_calls I) S" "lookup_entry now h (ca_issuer S) = (Serve c, J)"
  shows "leaf_for (is_caNotAfter I) h c \<and> now < lf_notAfter c \<and>
    (time_add now leafRenewal < lf_notAfter c \<or> lf_notAfter c = is_caNotAfter I)"
proof -
  have S: "calls_ok S" "is_caNotAfter (ca_issuer S) = is_caNotAfter I"
    using call_run_ok [OF assms(2) NewIssuer_ok [OF assms(1)]] by (auto simp: no_calls_def)
  then have "leaf_for (is_caNotAfter I) h c \<and> fresh now (ca_issuer S) (lf_notAfter c)"
    using lookup_entry_cases [OF _ assms(3)] by (auto simp: calls_ok_def)
  then show ?thesis using S(2) by (auto simp: fresh_def leaf_for_def split: if_splits)
qed

lemma served_leaf_fresh_witness: "hour_ns < 720 * hour_ns \<and> leaf_for (2000 * hour_ns) ''a.test''
     \<lparr>lf_serial = 7, lf_notBefore = - hour_ns, lf_notAfter = 720 * hour_ns, lf_ips = [], lf_dns = [''a.test''], lf_commonName = ''a.test''\<rparr>"
proof -
  let ?c = "\<lparr>lf_serial = 7, lf_notBefore = - hour_ns, lf_notAfter = 720 * hour_ns, lf_ips = [], lf_dns = [''a.test''],
    lf_commonName = ''a.test''\<rparr>"
  let ?I = "ca_issuer (example_calls ''a.test'' example_sign 2)"
  have "fst (lookup_entry hour_ns ''a.test'' ?I) = Serve ?c" by code_simp
  then have "lookup_entry hour_ns ''a.test'' ?I = (Serve ?c, snd (lookup_entry hour_ns ''a.test'' ?I))" by (metis prod.collapse)
  then show ?thesis
    using served_leaf_fresh [OF example_NewIssuer example_calls_run, of hour_ns "''a.test''" "''a.test''" example_sign ?c]
    by (simp add: example_issuer_def)
qed

text \<open>
  C26: Every call of \<open>Certificate\<close> returns. In a state calls can reach, however the steps of the calls
  already made are scheduled, as long as some step is taken while one is possible, all of them return:
  no waiting call is forgotten and no call goes round its loop for ever.
\<close>

theorem Certificate_returns:
  assumes "NewIssuer ca n = Ok I" "call_run (no_calls I) (f 0)"
    and "\<forall>k. call_step (f k) (f (Suc k)) \<or> f (Suc k) = f k \<and> (\<nexists>T. call_step (f k) T)"
  shows "\<exists>k. \<forall>c \<in> set (ca_calls (f k)). returned c"
  using call_run_ok [OF assms(2) NewIssuer_ok [OF assms(1)]] assms(3) by (intro runs_end) auto

lemma Certificate_returns_witness:
  "\<exists>k. \<forall>c \<in> set (ca_calls (example_calls ''a.test'' example_sign k)). returned c"
proof (rule Certificate_returns [OF example_NewIssuer])
  show "call_run (no_calls example_issuer) (example_calls ''a.test'' example_sign 0)"
    using call_run.arrive [OF call_run.begin_run, of "no_calls example_issuer" "''a.test''"]
    by (simp add: no_calls_def example_calls_def)
  have "sign example_sign 0 (2000 * hour_ns) ''a.test'' = Ok (\<lparr>lf_serial = 7, lf_notBefore = - hour_ns, lf_notAfter = 720 * hour_ns,
    lf_ips = [], lf_dns = [''a.test''], lf_commonName = ''a.test''\<rparr>, 720 * hour_ns)" by code_simp
  then have "\<nexists>T. call_step (example_calls ''a.test'' example_sign 2) T"
    by (auto simp: example_calls_def Let_def elim!: call_stepE)
  moreover have "example_calls ''a.test'' example_sign k = example_calls ''a.test'' example_sign 2" if "2 \<le> k" for k
    using that by (simp add: example_calls_def)
  ultimately show "\<forall>k. call_step (example_calls ''a.test'' example_sign k) (example_calls ''a.test'' example_sign (Suc k)) \<or>
      example_calls ''a.test'' example_sign (Suc k) = example_calls ''a.test'' example_sign k \<and>
      (\<nexists>T. call_step (example_calls ''a.test'' example_sign k) T)"
    (is "\<forall>k. ?P k")
  proof (intro allI)
    fix k :: nat
    assume stop: "\<nexists>T. call_step (example_calls ''a.test'' example_sign 2) T"
      and const: "\<And>k. 2 \<le> k \<Longrightarrow> example_calls ''a.test'' example_sign k = example_calls ''a.test'' example_sign 2"
    consider "k = 0" | "k = 1" | "2 \<le> k" by linarith
    then show "?P k"
    proof cases
      case 3
      then have "example_calls ''a.test'' example_sign (Suc k) = example_calls ''a.test'' example_sign 2"
        "example_calls ''a.test'' example_sign k = example_calls ''a.test'' example_sign 2"
        using const [of k] const [of "Suc k"] by simp_all
      then show ?thesis using stop by simp
    qed (use example_calls_step [of "''a.test''" example_sign] in \<open>simp_all add: numeral_2_eq_2\<close>)
  qed
qed

end
