(* ===== verification/Listener.thy ===== *)
theory Listener
  imports Prelude
begin

text \<open>
  The connection listener of \<open>internal/proxycore/listener.go\<close>: a bounded number of client
  connections, each of which gives its slot back once, and the deadlines of a connection once
  its idle timeout is enabled. Accept calls, connections and the listener's Close interleave in a
  step relation; the underlying listener and connections are outcomes.
\<close>

definition maxConnections :: nat where "maxConnections = 1024"

definition remoteTunnelIdleTimeout :: duration where
  "remoteTunnelIdleTimeout = word_of_int (15 * 60 * second_ns)"

section \<open>Deadlines of a connection\<close>

text \<open>
  \<open>tc_idle\<close> to \<open>tc_writeDeadline\<close> are the fields of \<open>trackedConn\<close>, a zero time being no deadline;
  \<open>net_read\<close> and \<open>net_write\<close> are the deadlines set on the connection it wraps, and \<open>tc_halfClose\<close> says
  whether that connection can close its directions one by one.
\<close>

record tracked_conn =
  tc_idle :: duration
  tc_released :: bool
  tc_idleEnabled :: bool
  tc_refreshed :: go_time
  tc_readDeadline :: go_time
  tc_writeDeadline :: go_time
  net_read :: go_time
  net_write :: go_time
  tc_halfClose :: bool

definition earliest :: "go_time \<Rightarrow> go_time \<Rightarrow> go_time" where
  "earliest deadline limit = (if deadline = 0 \<or> limit < deadline then limit else deadline)"

text \<open>\<open>okr\<close> and \<open>okw\<close>: whether setting the deadlines of the wrapped connection works.\<close>

definition applyLocked :: "bool \<Rightarrow> bool \<Rightarrow> go_time \<Rightarrow> tracked_conn \<Rightarrow> bool \<times> tracked_conn" where
  "applyLocked okr okw now c =
     (let read0 = tc_readDeadline c; write0 = tc_writeDeadline c;
          limit = time_add now (tc_idle c);
          (rd, wr, c1) = (if tc_idleEnabled c
             then (earliest read0 limit, earliest write0 limit, c\<lparr>tc_refreshed := now\<rparr>)
             else (read0, write0, c))
      in if \<not> okr then (False, c1)
         else if \<not> okw then (False, c1\<lparr>net_read := rd\<rparr>)
         else (True, c1\<lparr>net_read := rd, net_write := wr\<rparr>))"

definition touch :: "bool \<Rightarrow> bool \<Rightarrow> go_time \<Rightarrow> tracked_conn \<Rightarrow> tracked_conn" where
  "touch okr okw now c =
     (if tc_idle c \<le>s 0 then c
      else if tc_idleEnabled c \<and> word_of_int second_ns \<le>s time_sub now (tc_refreshed c)
        then snd (applyLocked okr okw now c)
      else c)"

definition enableIdle :: "bool \<Rightarrow> bool \<Rightarrow> go_time \<Rightarrow> tracked_conn \<Rightarrow> tracked_conn" where
  "enableIdle okr okw now c =
     (if tc_idle c \<le>s 0 then c else snd (applyLocked okr okw now (c\<lparr>tc_idleEnabled := True\<rparr>)))"

definition SetDeadline :: "bool \<Rightarrow> bool \<Rightarrow> go_time \<Rightarrow> go_time \<Rightarrow> tracked_conn \<Rightarrow> bool \<times> tracked_conn" where
  "SetDeadline okr okw now deadline c = applyLocked okr okw now (c\<lparr>tc_readDeadline := deadline, tc_writeDeadline := deadline\<rparr>)"

definition SetReadDeadline :: "bool \<Rightarrow> bool \<Rightarrow> go_time \<Rightarrow> go_time \<Rightarrow> tracked_conn \<Rightarrow> bool \<times> tracked_conn" where
  "SetReadDeadline okr okw now deadline c = applyLocked okr okw now (c\<lparr>tc_readDeadline := deadline\<rparr>)"

definition SetWriteDeadline :: "bool \<Rightarrow> bool \<Rightarrow> go_time \<Rightarrow> go_time \<Rightarrow> tracked_conn \<Rightarrow> bool \<times> tracked_conn" where
  "SetWriteDeadline okr okw now deadline c = applyLocked okr okw now (c\<lparr>tc_writeDeadline := deadline\<rparr>)"

text \<open>
  A read or write first touches the connection; then the wrapped connection does its work, unless
  its deadline has passed: \<open>ReadConn\<close> and \<open>WriteConn\<close> return whether it may still work.
\<close>

definition ReadConn :: "bool \<Rightarrow> bool \<Rightarrow> go_time \<Rightarrow> tracked_conn \<Rightarrow> bool \<times> tracked_conn" where
  "ReadConn okr okw now c =
     (let c' = touch okr okw now c in (net_read c' = 0 \<or> now < net_read c', c'))"

definition WriteConn :: "bool \<Rightarrow> bool \<Rightarrow> go_time \<Rightarrow> tracked_conn \<Rightarrow> bool \<times> tracked_conn" where
  "WriteConn okr okw now c =
     (let c' = touch okr okw now c in (net_write c' = 0 \<or> now < net_write c', c'))"

datatype conn_op = ReadOp | WriteOp | EnableIdleOp | DeadlineOp go_time | ReadDeadlineOp go_time | WriteDeadlineOp go_time

text \<open>The operations under the connection's lock, one after the other, each with the time it runs at.\<close>

definition conn_exec :: "go_time \<times> conn_op \<Rightarrow> tracked_conn \<Rightarrow> tracked_conn" where
  "conn_exec e c =
     (case e of (now, op) \<Rightarrow>
        (case op of
           ReadOp \<Rightarrow> snd (ReadConn True True now c)
         | WriteOp \<Rightarrow> snd (WriteConn True True now c)
         | EnableIdleOp \<Rightarrow> enableIdle True True now c
         | DeadlineOp t \<Rightarrow> snd (SetDeadline True True now t c)
         | ReadDeadlineOp t \<Rightarrow> snd (SetReadDeadline True True now t c)
         | WriteDeadlineOp t \<Rightarrow> snd (SetWriteDeadline True True now t c)))"

section \<open>Slots\<close>

text \<open>\<open>ErrClosed\<close> is \<open>net.ErrClosed\<close>; a failing Accept of the wrapped listener gives its own error.\<close>

datatype accept_call = WaitSlot | InAccept | GotConn nat | ErrClosed | AcceptError string

record limit_listener =
  ll_limit :: nat
  ll_idle :: duration
  ll_slots :: nat
  ll_done :: bool
  ll_accepts :: "accept_call list"
  ll_conns :: "tracked_conn list"

definition newLimitListener :: "nat \<Rightarrow> duration \<Rightarrow> limit_listener" where
  "newLimitListener limit idle =
     \<lparr>ll_limit = limit, ll_idle = idle, ll_slots = 0, ll_done = False, ll_accepts = [], ll_conns = []\<rparr>"

definition new_conn :: "bool \<Rightarrow> duration \<Rightarrow> tracked_conn" where
  "new_conn half idle =
     \<lparr>tc_idle = idle, tc_released = False, tc_idleEnabled = False, tc_refreshed = 0, tc_readDeadline = 0, tc_writeDeadline = 0,
      net_read = 0, net_write = 0, tc_halfClose = half\<rparr>"

text \<open>Receiving from \<open>slots\<close>, which blocks when the channel is empty: \<open>None\<close>.\<close>

definition release_slot :: "limit_listener \<Rightarrow> limit_listener option" where
  "release_slot L = (if ll_slots L = 0 then None else Some (L\<lparr>ll_slots := ll_slots L - 1\<rparr>))"

text \<open>\<open>trackedConn.Close\<close>, \<open>CloseRead\<close> and \<open>CloseWrite\<close> of connection \<open>j\<close>; \<open>None\<close> is a call that blocks.\<close>

definition close_conn :: "nat \<Rightarrow> limit_listener \<Rightarrow> limit_listener option" where
  "close_conn j L =
     (if tc_released (ll_conns L ! j) then Some L
      else map_option (\<lambda>L'. L'\<lparr>ll_conns := (ll_conns L')[j := (ll_conns L' ! j)\<lparr>tc_released := True\<rparr>]\<rparr>) (release_slot L))"

definition half_close :: "nat \<Rightarrow> limit_listener \<Rightarrow> limit_listener option" where
  "half_close j L = (if tc_halfClose (ll_conns L ! j) then Some L else close_conn j L)"

inductive listen_step :: "limit_listener \<Rightarrow> limit_listener \<Rightarrow> bool" where
  call_accept: "listen_step L (L\<lparr>ll_accepts := ll_accepts L @ [WaitSlot]\<rparr>)"
| take_slot: "listen_step L (L\<lparr>ll_slots := ll_slots L + 1, ll_accepts := (ll_accepts L)[i := InAccept]\<rparr>)"
    if "i < length (ll_accepts L)" "ll_accepts L ! i = WaitSlot" "ll_slots L < ll_limit L"
| see_done: "listen_step L (L\<lparr>ll_accepts := (ll_accepts L)[i := ErrClosed]\<rparr>)"
    if "i < length (ll_accepts L)" "ll_accepts L ! i = WaitSlot" "ll_done L"
| accepted: "listen_step L (L\<lparr>ll_accepts := (ll_accepts L)[i := GotConn (length (ll_conns L))],
      ll_conns := ll_conns L @ [new_conn half (ll_idle L)]\<rparr>)"
    if "i < length (ll_accepts L)" "ll_accepts L ! i = InAccept"
| accept_failed: "listen_step L (L'\<lparr>ll_accepts := (ll_accepts L')[i := AcceptError m]\<rparr>)"
    if "i < length (ll_accepts L)" "ll_accepts L ! i = InAccept" "release_slot L = Some L'"
| close_listener: "listen_step L (L\<lparr>ll_done := True\<rparr>)"
| close_step: "listen_step L L'" if "j < length (ll_conns L)" "close_conn j L = Some L'"
| half_step: "listen_step L L'" if "j < length (ll_conns L)" "half_close j L = Some L'"
| use_conn: "listen_step L (L\<lparr>ll_conns := (ll_conns L)[j := conn_exec e (ll_conns L ! j)]\<rparr>)"
    if "j < length (ll_conns L)"

inductive_cases listen_stepE: "listen_step L L'"

abbreviation listen_run :: "limit_listener \<Rightarrow> limit_listener \<Rightarrow> bool" where
  "listen_run \<equiv> listen_step\<^sup>*\<^sup>*"

section \<open>Lemmas on slots\<close>

text \<open>Who holds a slot: the Accept calls inside the wrapped listener and the connections not released.\<close>

definition holders :: "limit_listener \<Rightarrow> nat" where
  "holders L = length (filter (\<lambda>a. a = InAccept) (ll_accepts L)) + length (filter (\<lambda>c. \<not> tc_released c) (ll_conns L))"

definition slots_ok :: "limit_listener \<Rightarrow> bool" where
  "slots_ok L \<longleftrightarrow> ll_slots L = holders L \<and> ll_slots L \<le> ll_limit L"

lemma applyLocked_released [simp]: "tc_released (snd (applyLocked okr okw now c)) = tc_released c"
  by (simp add: applyLocked_def Let_def split_beta)

lemma conn_exec_released [simp]: "tc_released (conn_exec e c) = tc_released c"
  by (cases "snd e") (auto simp: conn_exec_def split_beta touch_def enableIdle_def ReadConn_def WriteConn_def SetDeadline_def
      SetReadDeadline_def SetWriteDeadline_def Let_def)

lemma release_possible:
  "slots_ok L \<Longrightarrow> j < length (ll_conns L) \<Longrightarrow> \<not> tc_released (ll_conns L ! j) \<Longrightarrow> 0 < ll_slots L"
  "slots_ok L \<Longrightarrow> i < length (ll_accepts L) \<Longrightarrow> ll_accepts L ! i = InAccept \<Longrightarrow> 0 < ll_slots L"
  using length_filter_pos [of j "ll_conns L" "\<lambda>c. \<not> tc_released c"]
    length_filter_pos [of i "ll_accepts L" "\<lambda>a. a = InAccept"]
  by (auto simp: slots_ok_def holders_def)

lemma close_conn_ok:
  assumes "slots_ok L" "j < length (ll_conns L)"
  obtains L' where "close_conn j L = Some L'" "slots_ok L'" "ll_limit L' = ll_limit L" "ll_done L' = ll_done L"
    "tc_released (ll_conns L' ! j)"
proof (cases "tc_released (ll_conns L ! j)")
  case True
  then show thesis using that assms by (simp add: close_conn_def)
next
  case False
  let ?L = "L\<lparr>ll_slots := ll_slots L - 1, ll_conns := (ll_conns L)[j := (ll_conns L ! j)\<lparr>tc_released := True\<rparr>]\<rparr>"
  have "close_conn j L = Some ?L" using False release_possible(1) [OF assms False] by (simp add: close_conn_def release_slot_def)
  moreover have "holders ?L + 1 = holders L"
    using False length_filter_update [OF assms(2), of "\<lambda>c. \<not> tc_released c" "(ll_conns L ! j)\<lparr>tc_released := True\<rparr>"]
    by (simp add: holders_def)
  then have "slots_ok ?L" using assms(1) by (auto simp: slots_ok_def)
  ultimately show thesis using that assms(2) by simp
qed

lemma listen_step_ok:
  assumes "listen_step L L'" "slots_ok L"
  shows "slots_ok L' \<and> ll_limit L' = ll_limit L"
  using assms
proof cases
  case (take_slot i)
  then show ?thesis using assms(2) length_filter_update [of i "ll_accepts L" "\<lambda>a. a = InAccept" InAccept]
    by (simp add: slots_ok_def holders_def)
next
  case (see_done i)
  then show ?thesis using assms(2) length_filter_update [of i "ll_accepts L" "\<lambda>a. a = InAccept" ErrClosed]
    by (simp add: slots_ok_def holders_def)
next
  case (accepted i half)
  then show ?thesis using assms(2) length_filter_update [of i "ll_accepts L" "\<lambda>a. a = InAccept" "GotConn (length (ll_conns L))"]
    by (simp add: slots_ok_def holders_def new_conn_def)
next
  case (accept_failed i M m)
  then show ?thesis using assms(2) length_filter_update [of i "ll_accepts L" "\<lambda>a. a = InAccept" "AcceptError m"]
    by (auto simp: slots_ok_def holders_def release_slot_def split: if_splits)
next
  case (close_step j)
  then show ?thesis using close_conn_ok [OF assms(2)] by (metis option.inject)
next
  case (half_step j)
  then show ?thesis using close_conn_ok [OF assms(2), of j] assms(2) by (auto simp: half_close_def split: if_splits)
next
  case (use_conn j e)
  then show ?thesis using assms(2) length_filter_update [of j "ll_conns L" "\<lambda>c. \<not> tc_released c" "conn_exec e (ll_conns L ! j)"]
    by (simp add: slots_ok_def holders_def)
qed (auto simp: slots_ok_def holders_def)

lemma listen_run_ok:
  "listen_run L L' \<Longrightarrow> slots_ok L \<Longrightarrow> slots_ok L' \<and> ll_limit L' = ll_limit L"
  by (induction rule: rtranclp_induct) (use listen_step_ok in fastforce)+

lemma newLimitListener_ok: "slots_ok (newLimitListener limit idle)"
  by (simp add: slots_ok_def holders_def newLimitListener_def)

section \<open>Lemmas on deadlines\<close>

text \<open>
  The deadlines of the wrapped connection are those of the callers, cut at the idle limit counted
  from the last refresh, and the last refresh is less than a second before the last read or write.
\<close>

definition deadlines_ok :: "tracked_conn \<Rightarrow> bool" where
  "deadlines_ok c \<longleftrightarrow>
     (if tc_idleEnabled c
      then net_read c = earliest (tc_readDeadline c) (time_add (tc_refreshed c) (tc_idle c)) \<and>
        net_write c = earliest (tc_writeDeadline c) (time_add (tc_refreshed c) (tc_idle c))
      else net_read c = tc_readDeadline c \<and> net_write c = tc_writeDeadline c)"

lemma applyLocked_ok: "deadlines_ok (snd (applyLocked True True now c))"
  by (simp add: applyLocked_def deadlines_ok_def Let_def)

lemma applyLocked_fields [simp]:
  "tc_idle (snd (applyLocked okr okw now c)) = tc_idle c"
  "tc_idleEnabled (snd (applyLocked okr okw now c)) = tc_idleEnabled c"
  "tc_refreshed (snd (applyLocked okr okw now c)) = (if tc_idleEnabled c then now else tc_refreshed c)"
  "tc_readDeadline (snd (applyLocked okr okw now c)) = tc_readDeadline c"
  "tc_writeDeadline (snd (applyLocked okr okw now c)) = tc_writeDeadline c"
  by (simp_all add: applyLocked_def Let_def)

lemmas conn_op_defs = conn_exec_def touch_def enableIdle_def ReadConn_def WriteConn_def SetDeadline_def
  SetReadDeadline_def SetWriteDeadline_def Let_def

lemma conn_exec_deadlines: "deadlines_ok c \<Longrightarrow> deadlines_ok (conn_exec e c)"
  by (cases e; cases "snd e") (auto simp: conn_op_defs applyLocked_ok)

lemma conn_exec_idle [simp]: "tc_idle (conn_exec e c) = tc_idle c"
  by (cases e; cases "snd e") (auto simp: conn_op_defs)

lemma conn_exec_enabled: "tc_idleEnabled c \<Longrightarrow> tc_idleEnabled (conn_exec e c)"
  by (cases e; cases "snd e") (auto simp: conn_op_defs)

lemma sint_time_sub: "sint (time_sub t u) = max min_int64 (min max_int64 (t - u))"
  unfolding time_sub_def by (rule sint_word_of_int_64) (auto simp: min_int64_def max_int64_def)

lemma one_second_passed: "(word_of_int second_ns :: duration) \<le>s time_sub now t \<longleftrightarrow> t + second_ns \<le> now"
proof -
  have "sint (word_of_int second_ns :: duration) = second_ns"
    by (rule sint_word_of_int_64) (auto simp: min_int64_def max_int64_def second_ns_def)
  then show ?thesis by (auto simp: word_sle_eq sint_time_sub min_int64_def max_int64_def second_ns_def)
qed

text \<open>A connection whose operations so far are all at most at \<open>now\<close>.\<close>

definition refreshed_by :: "go_time \<Rightarrow> tracked_conn \<Rightarrow> bool" where
  "refreshed_by now c \<longleftrightarrow> tc_refreshed c \<le> now"

lemma conn_exec_refreshed:
  assumes "refreshed_by t c" "t \<le> fst e"
  shows "refreshed_by (fst e) (conn_exec e c)" "tc_refreshed c \<le> tc_refreshed (conn_exec e c)"
  using assms by (cases e; cases "snd e"; auto simp: refreshed_by_def conn_op_defs)+

lemma conn_run_ok:
  assumes "deadlines_ok c" "refreshed_by t c" "sorted (t # map fst es)"
  shows "deadlines_ok (fold conn_exec es c) \<and> refreshed_by (last (t # map fst es)) (fold conn_exec es c) \<and>
    tc_idle (fold conn_exec es c) = tc_idle c \<and> tc_refreshed c \<le> tc_refreshed (fold conn_exec es c) \<and>
    (tc_idleEnabled c \<longrightarrow> tc_idleEnabled (fold conn_exec es c))"
  using assms
proof (induction es arbitrary: c t)
  case (Cons e es)
  have "t \<le> fst e" "sorted (fst e # map fst es)" using Cons.prems(3) by auto
  moreover have "refreshed_by (fst e) (conn_exec e c)" "tc_refreshed c \<le> tc_refreshed (conn_exec e c)"
    using conn_exec_refreshed [OF Cons.prems(2)] calculation by auto
  ultimately show ?case
    using Cons.IH [of "conn_exec e c" "fst e"] conn_exec_deadlines [OF Cons.prems(1)] conn_exec_enabled [of c e]
    by fastforce
qed simp

section \<open>Properties\<close>

text \<open>A listener for one connection that was accepted and closed.\<close>

definition example_listener :: limit_listener where
  "example_listener = \<lparr>ll_limit = 1, ll_idle = 0, ll_slots = 1, ll_done = False, ll_accepts = [GotConn 0, WaitSlot],
     ll_conns = [new_conn True 0]\<rparr>"

lemma example_listener_run: "listen_run (newLimitListener 1 0) example_listener"
proof -
  let ?L = "\<lambda>slots accepts conns. \<lparr>ll_limit = 1, ll_idle = 0, ll_slots = slots, ll_done = False, ll_accepts = accepts, ll_conns = conns\<rparr>"
  have "listen_step (newLimitListener 1 0) (?L 0 [WaitSlot] [])"
    using listen_step.call_accept [of "newLimitListener 1 0"] by (simp add: newLimitListener_def)
  moreover have "listen_step (?L 0 [WaitSlot] []) (?L 1 [InAccept] [])"
    using listen_step.take_slot [of 0 "?L 0 [WaitSlot] []"] by simp
  moreover have "listen_step (?L 1 [InAccept] []) (?L 1 [GotConn 0] [new_conn True 0])"
    using listen_step.accepted [of 0 "?L 1 [InAccept] []" True] by simp
  moreover have "listen_step (?L 1 [GotConn 0] [new_conn True 0]) example_listener"
    using listen_step.call_accept [of "?L 1 [GotConn 0] [new_conn True 0]"] by (simp add: example_listener_def)
  ultimately show ?thesis by (meson converse_rtranclp_into_rtranclp rtranclp.rtrancl_refl)
qed

text \<open>
  C29: The listener never has more connections than its limit. In every state that Accept calls, connections
  and Close calls in any interleaving can reach, the connections not yet released and the calls inside the wrapped listener
  are as many as the slots taken, at most the limit, and closing a connection, also one that is closed already or from two
  sides at once, never blocks and gives back exactly the slot the connection still holds.
\<close>

theorem listener_bounds_connections:
  assumes "listen_run (newLimitListener limit idle) L"
  shows "length (filter (\<lambda>c. \<not> tc_released c) (ll_conns L)) + length (filter (\<lambda>a. a = InAccept) (ll_accepts L)) = ll_slots L \<and>
    ll_slots L \<le> limit \<and>
    (\<forall>j < length (ll_conns L). \<exists>L'. close_conn j L = Some L' \<and> tc_released (ll_conns L' ! j) \<and>
       ll_slots L' = ll_slots L - (if tc_released (ll_conns L ! j) then 0 else 1) \<and> close_conn j L' = Some L')"
proof -
  have ok: "slots_ok L" "ll_limit L = limit"
    using listen_run_ok [OF assms newLimitListener_ok] by (simp_all add: newLimitListener_def)
  have "\<exists>L'. close_conn j L = Some L' \<and> tc_released (ll_conns L' ! j) \<and>
       ll_slots L' = ll_slots L - (if tc_released (ll_conns L ! j) then 0 else 1) \<and> close_conn j L' = Some L'"
    if j: "j < length (ll_conns L)" for j
  proof (rule close_conn_ok [OF ok(1) j])
    fix L' assume L': "close_conn j L = Some L'" "tc_released (ll_conns L' ! j)"
    then have "ll_slots L' = ll_slots L - (if tc_released (ll_conns L ! j) then 0 else 1)"
      by (auto simp: close_conn_def release_slot_def split: if_splits)
    then show ?thesis using L' by (auto simp: close_conn_def)
  qed
  then show ?thesis using ok by (auto simp: slots_ok_def holders_def)
qed

lemma listener_bounds_connections_witness:
  "\<exists>L'. close_conn 0 example_listener = Some L' \<and> ll_slots L' = 0 \<and> close_conn 0 L' = Some L'"
  using listener_bounds_connections [OF example_listener_run] by (auto simp: example_listener_def new_conn_def)

text \<open>
  C30: No Accept call waits for ever for nothing. A call that waits for a slot can go on as soon as a slot is free or
  the listener is closed; and when it cannot, all slots are held, each by a connection that can be closed or by a call
  that will get or fail to get a connection, so that some step other than new calls is possible.
\<close>

theorem accept_not_stuck:
  assumes "listen_run (newLimitListener limit idle) L" "i < length (ll_accepts L)" "ll_accepts L ! i = WaitSlot" "0 < limit"
  shows "(ll_done L \<longrightarrow> listen_step L (L\<lparr>ll_accepts := (ll_accepts L)[i := ErrClosed]\<rparr>)) \<and>
    (ll_slots L < limit \<longrightarrow> listen_step L (L\<lparr>ll_slots := ll_slots L + 1, ll_accepts := (ll_accepts L)[i := InAccept]\<rparr>)) \<and>
    (ll_slots L = limit \<longrightarrow>
       (\<exists>j < length (ll_conns L). \<not> tc_released (ll_conns L ! j) \<and> (\<exists>L'. close_conn j L = Some L' \<and> ll_slots L' < limit)) \<or>
       (\<exists>k < length (ll_accepts L). ll_accepts L ! k = InAccept))"
proof -
  have ok: "slots_ok L" "ll_limit L = limit"
    using listen_run_ok [OF assms(1) newLimitListener_ok] by (simp_all add: newLimitListener_def)
  have "\<exists>j < length (ll_conns L). \<not> tc_released (ll_conns L ! j) \<and> (\<exists>L'. close_conn j L = Some L' \<and> ll_slots L' < limit)"
    if full: "ll_slots L = limit" and none: "\<not> (\<exists>k < length (ll_accepts L). ll_accepts L ! k = InAccept)"
  proof -
    have "filter (\<lambda>a. a = InAccept) (ll_accepts L) = []" using none by (auto simp: filter_empty_conv in_set_conv_nth)
    then have "filter (\<lambda>c. \<not> tc_released c) (ll_conns L) \<noteq> []" using ok(1) full assms(4) by (auto simp: slots_ok_def holders_def)
    then obtain j where j: "j < length (ll_conns L)" "\<not> tc_released (ll_conns L ! j)"
      by (auto simp: filter_empty_conv in_set_conv_nth)
    then have "\<exists>L'. close_conn j L = Some L' \<and> ll_slots L' < limit"
      using full assms(4) by (auto simp: close_conn_def release_slot_def)
    then show ?thesis using j by blast
  qed
  then show ?thesis using listen_step.take_slot [OF assms(2,3)] listen_step.see_done [OF assms(2,3)] ok(2) by blast
qed

lemma accept_not_stuck_witness:
  "\<exists>L'. close_conn 0 example_listener = Some L' \<and> ll_slots L' < 1"
proof -
  have "ll_slots example_listener = 1" "1 < length (ll_accepts example_listener)" "ll_accepts example_listener ! 1 = WaitSlot"
    and no: "\<not> (\<exists>k < length (ll_accepts example_listener). ll_accepts example_listener ! k = InAccept)"
    and conns: "length (ll_conns example_listener) = 1"
    by (auto simp: example_listener_def nth_Cons split: nat.splits)
  then have "\<exists>j < length (ll_conns example_listener). \<exists>L'. close_conn j example_listener = Some L' \<and> ll_slots L' < 1"
    using accept_not_stuck [OF example_listener_run, of 1] by auto
  then show ?thesis using conns by auto
qed

text \<open>
  C31: With the idle timeout on, a connection is never without a deadline and never cut off while it is used. After any
  operations at increasing times since it was enabled, both deadlines of the wrapped connection are set, at most the idle
  timeout after the last operation, and at most what the caller asked for; and right after a read or write a direction the caller has set no
  deadline for stays open for at least the idle timeout less one second.
\<close>

theorem idle_deadlines:
  assumes c0: "refreshed_by t0 c0" "0 <s tc_idle c0" "0 \<le> t0" and times: "sorted (t0 # t1 # map fst es)"
    and c: "c = fold conn_exec es (enableIdle True True t1 c0)" and now: "now = last (t1 # map fst es)"
  shows "net_read c \<noteq> 0 \<and> net_write c \<noteq> 0 \<and>
    net_read c \<le> time_add now (tc_idle c0) \<and> net_write c \<le> time_add now (tc_idle c0) \<and>
    (tc_readDeadline c \<noteq> 0 \<longrightarrow> net_read c \<le> tc_readDeadline c) \<and> (tc_writeDeadline c \<noteq> 0 \<longrightarrow> net_write c \<le> tc_writeDeadline c) \<and>
    (es \<noteq> [] \<and> (snd (last es) = ReadOp \<or> snd (last es) = WriteOp) \<longrightarrow>
       (tc_readDeadline c = 0 \<longrightarrow> time_add now (tc_idle c0) < net_read c + second_ns) \<and>
       (tc_writeDeadline c = 0 \<longrightarrow> time_add now (tc_idle c0) < net_write c + second_ns))"
proof -
  have idle: "0 < sint (tc_idle c0)" "\<not> tc_idle c0 \<le>s 0" using c0(2) by (auto simp: word_sless_alt word_sle_eq)
  define c1 where "c1 = enableIdle True True t1 c0"
  have c1: "deadlines_ok c1" "refreshed_by t1 c1" "tc_idle c1 = tc_idle c0" "tc_refreshed c1 = t1" "tc_idleEnabled c1"
    using idle by (simp_all add: c1_def enableIdle_def applyLocked_ok refreshed_by_def)
  have run: "deadlines_ok c" "tc_refreshed c \<le> now" "tc_idle c = tc_idle c0" "t1 \<le> tc_refreshed c" "tc_idleEnabled c"
    using conn_run_ok [OF c1(1,2), of es] c1(3-5) times c now by (auto simp: c1_def refreshed_by_def)
  let ?limit = "tc_refreshed c + sint (tc_idle c0)"
  have nets: "net_read c = earliest (tc_readDeadline c) ?limit" "net_write c = earliest (tc_writeDeadline c) ?limit"
    using run(1,3,5) by (auto simp: deadlines_ok_def time_add_def)
  have limit: "0 < ?limit" "?limit \<le> time_add now (tc_idle c0)"
    using run(2,4) idle(1) c0(3) times by (auto simp: time_add_def)
  have recent: "now < tc_refreshed c + second_ns" if ne: "es \<noteq> []" and op: "snd (last es) = ReadOp \<or> snd (last es) = WriteOp"
  proof -
    obtain es' e where es: "es = es' @ [e]" using ne by (cases es rule: rev_cases) auto
    then have last: "c = conn_exec e (fold conn_exec es' c1)" "now = fst e" using c now by (simp_all add: c1_def)
    let ?c' = "fold conn_exec es' c1"
    have "tc_idleEnabled ?c'" "tc_idle ?c' = tc_idle c0"
      using conn_run_ok [OF c1(1,2), of es'] c1(3,5) times es by (auto simp: sorted_append)
    then have "c = touch True True now ?c'" "\<not> tc_idle ?c' \<le>s 0" "tc_idleEnabled ?c'"
      using op es last idle(2) by (cases e; auto simp: conn_exec_def ReadConn_def WriteConn_def Let_def)+
    moreover have "0 < second_ns" by (simp add: second_ns_def)
    ultimately show ?thesis by (auto simp: touch_def one_second_passed)
  qed
  then show ?thesis using limit unfolding nets by (auto simp: earliest_def time_add_def)
qed

text \<open>A connection with a timeout of one minute, enabled at one second, read and written.\<close>

definition minute :: duration where "minute = word_of_int (60 * second_ns)"

definition example_ops :: "(go_time \<times> conn_op) list" where
  "example_ops = [(2 * second_ns, ReadOp), (3 * second_ns, WriteOp)]"

definition example_conn :: tracked_conn where
  "example_conn = fold conn_exec example_ops (enableIdle True True second_ns (new_conn True minute))"

lemma idle_deadlines_witness:
  "net_read example_conn \<le> time_add (3 * second_ns) minute \<and> time_add (3 * second_ns) minute < net_read example_conn + second_ns"
proof -
  have 1: "refreshed_by 0 (new_conn True minute)" "0 <s tc_idle (new_conn True minute)"
    "tc_readDeadline example_conn = 0" "tc_idle (new_conn True minute) = minute"
    by code_simp+
  have 2: "sorted (0 # second_ns # map fst example_ops)" "3 * second_ns = last (second_ns # map fst example_ops)"
    "example_ops \<noteq> []" "snd (last example_ops) = WriteOp"
    by (simp_all add: example_ops_def second_ns_def)
  show ?thesis
    using idle_deadlines [OF 1(1,2) order_refl 2(1) example_conn_def 2(2)] 1(3,4) 2(3,4) by simp
qed

end
