(* ===== verification/Config.thy ===== *)
theory Config
  imports GoNet
begin

text \<open>
  \<open>internal/config/config.go\<close>: the configuration of both services, its defaults, and its
  validation. An error value of Go is a constructor of an error datatype; a function that
  returns only an error returns an option, \<open>None\<close> being \<open>nil\<close>. A nil slice and an empty one
  are the same list, except in the JSON form of a rule, where \<open>firstNonNil\<close> tells them apart.
\<close>

section \<open>Data\<close>

type_synonym service = string

definition Hamsterd :: service where "Hamsterd = ''hamsterd''"
definition Lemmingd :: service where "Lemmingd = ''lemmingd''"

record cache_config =
  cc_Directory :: string
  cc_MaxSizeMiB :: int
  cc_MaxObjectMiB :: int
  cc_DefaultTTL :: string

record redirect_rule =
  rr_Target :: string
  rr_Domains :: "string list"
  rr_Include :: "string list"
  rr_Exclude :: "string list"

record config =
  cf_Version :: int
  cf_Listen :: string
  cf_AllowRemoteClients :: bool
  cf_AllowRemoteTargets :: bool
  cf_ConnectPorts :: "int list"
  cf_ControlAPI :: bool
  cf_Domains :: "string list"
  cf_Cache :: cache_config
  cf_Rules :: "redirect_rule list"

record target =
  tg_Scheme :: string
  tg_Address :: string
  tg_Explicit :: bool

datatype target_error = TargetScheme string | TargetForm | TargetPort

datatype rule_error = DomainsEmpty | IncludeEmpty | BadTarget target_error | TargetNotLoopback
  | PlaintextRemote string | RuleDomainInvalid string | PrefixNoSlash string | AlreadyRouted string

datatype config_error = UnsupportedVersion int | ListenForm | ListenPort string | ListenNotLoopback
  | ControlAPIService | ConnectPortsLocal | ConnectPortInvalid int | DomainInvalid string
  | MaxSizeInvalid | MaxObjectInvalid | TTLInvalid | UnknownService string | InRule nat rule_error

section \<open>Defaults\<close>

definition zero_cache :: cache_config where
  "zero_cache = \<lparr>cc_Directory = [], cc_MaxSizeMiB = 0, cc_MaxObjectMiB = 0, cc_DefaultTTL = []\<rparr>"

definition default_cache :: "string \<Rightarrow> cache_config" where
  "default_cache dir = \<lparr>cc_Directory = dir, cc_MaxSizeMiB = 1024, cc_MaxObjectMiB = 256, cc_DefaultTTL = ''1h''\<rparr>"

definition base_config :: config where
  "base_config = \<lparr>cf_Version = 1, cf_Listen = [], cf_AllowRemoteClients = False, cf_AllowRemoteTargets = False,
     cf_ConnectPorts = [], cf_ControlAPI = False, cf_Domains = [], cf_Cache = zero_cache, cf_Rules = []\<rparr>"

definition Default :: "service \<Rightarrow> string \<Rightarrow> config" where
  "Default svc dir =
     (if svc = Hamsterd then base_config\<lparr>cf_Listen := ''127.0.0.1:8080'', cf_Cache := default_cache dir\<rparr>
      else if svc = Lemmingd then base_config\<lparr>cf_Listen := ''127.0.0.1:18080'', cf_Rules := []\<rparr>
      else base_config)"

text \<open>The fields \<open>LoadOrCreate\<close> fills in for hamsterd after decoding.\<close>

definition fill_defaults :: "service \<Rightarrow> string \<Rightarrow> config \<Rightarrow> config" where
  "fill_defaults svc dir c =
     (if svc = Hamsterd then
        let d = cf_Cache (Default Hamsterd dir); k = cf_Cache c in
        c\<lparr>cf_Cache := \<lparr>cc_Directory = (if cc_Directory k = [] then cc_Directory d else cc_Directory k),
            cc_MaxSizeMiB = (if cc_MaxSizeMiB k = 0 then cc_MaxSizeMiB d else cc_MaxSizeMiB k),
            cc_MaxObjectMiB = (if cc_MaxObjectMiB k = 0 then cc_MaxObjectMiB d else cc_MaxObjectMiB k),
            cc_DefaultTTL = (if cc_DefaultTTL k = [] then cc_DefaultTTL d else cc_DefaultTTL k)\<rparr>\<rparr>
      else c)"

section \<open>Durations\<close>

text \<open>
  \<open>time.ParseDuration\<close>: an optional sign, then numbers with a fraction and a unit. Values
  are capped at \<open>2^63\<close> nanoseconds at every step; a fraction is computed exactly.
\<close>

definition unit_ns :: "string \<Rightarrow> int option" where
  "unit_ns u = map_of [(''ns'', 1), (''us'', 1000),
     ([CHR 0xC2, CHR 0xB5, CHR ''s''], 1000), ([CHR 0xCE, CHR 0xBC, CHR ''s''], 1000), (''ms'', 1000000), (''s'', 1000000000),
     (''m'', 60000000000), (''h'', 3600000000000)] u"

definition is_unit_char :: "char \<Rightarrow> bool" where
  "is_unit_char c \<longleftrightarrow> c \<noteq> CHR ''.'' \<and> \<not> is_digit c"

text \<open>One number with its unit: its value in nanoseconds and the rest of the text.\<close>

definition duration_item :: "string \<Rightarrow> (int \<times> string) option" where
  "duration_item s =
     (let ds = takeWhile is_digit s; r = dropWhile is_digit s;
          (fs, r2) = (if r \<noteq> [] \<and> hd r = CHR ''.'' then (takeWhile is_digit (tl r), dropWhile is_digit (tl r)) else ([], r));
          u = takeWhile is_unit_char r2; v = digits_value ds
      in if ds = [] \<and> fs = [] then None
         else if 2 ^ 63 < v then None
         else (case unit_ns u of
             None \<Rightarrow> None
           | Some k \<Rightarrow>
               let w = v * k + digits_value fs * k div 10 ^ length fs
               in if 2 ^ 63 div k < v \<or> 2 ^ 63 < w then None
                  else Some (w, dropWhile is_unit_char r2)))"

lemma unit_ns_Nil: "unit_ns [] = None"
  by (simp add: unit_ns_def)

lemma duration_item_shorter:
  assumes "duration_item s = Some (v, r)"
  shows "length r < length s"
proof -
  let ?t = "dropWhile is_digit s"
  let ?r2 = "if ?t \<noteq> [] \<and> hd ?t = CHR ''.'' then dropWhile is_digit (tl ?t) else ?t"
  have r: "r = dropWhile is_unit_char ?r2"
    and u: "unit_ns (takeWhile is_unit_char ?r2) \<noteq> None"
    using assms by (auto simp: duration_item_def Let_def split: if_splits option.splits)
  have "takeWhile is_unit_char ?r2 \<noteq> []"
    using u unit_ns_Nil by metis
  then have "length r < length ?r2" unfolding r by (rule length_dropWhile_less)
  also have "length ?r2 \<le> length ?t"
    by (auto intro: order_trans [OF length_dropWhile_le])
  also have "\<dots> \<le> length s" by (rule length_dropWhile_le)
  finally show ?thesis .
qed

function parse_items :: "int \<Rightarrow> string \<Rightarrow> int option" where
  "parse_items d s =
     (if s = [] then Some d
      else case duration_item s of
        None \<Rightarrow> None
      | Some (v, r) \<Rightarrow> if 2 ^ 63 < d + v then None else parse_items (d + v) r)"
  by pat_completeness auto
termination
  by (relation "measure (\<lambda>(d, s). length s)") (auto dest: duration_item_shorter)

declare parse_items.simps [simp del]

definition ParseDuration :: "string \<Rightarrow> duration option" where
  "ParseDuration s =
     (let neg = (s \<noteq> [] \<and> hd s = CHR ''-'');
          r = (if s \<noteq> [] \<and> (hd s = CHR ''-'' \<or> hd s = CHR ''+'') then tl s else s)
      in if r = ''0'' then Some 0
         else if r = [] then None
         else (case parse_items 0 r of
             None \<Rightarrow> None
           | Some d \<Rightarrow>
               if neg then Some (- word_of_int d)
               else if 2 ^ 63 \<le> d then None else Some (word_of_int d)))"

declare unit_ns_def [str_simps] is_unit_char_def [str_simps] duration_item_def [str_simps]
  parse_items.simps [str_simps] ParseDuration_def [str_simps]

section \<open>Targets\<close>

definition isLoopback :: "string \<Rightarrow> bool" where
  "isLoopback host =
     (if EqualFold host ''localhost'' then True
      else case ParseIP host of None \<Rightarrow> False | Some a \<Rightarrow> IsLoopback a)"

definition valid_port :: "string \<Rightarrow> bool" where
  "valid_port p = (case Atoi p of None \<Rightarrow> False | Some n \<Rightarrow> 1 \<le> n \<and> n \<le> 65535)"

text \<open>The check of the address that follows the scheme in \<open>ParseTarget\<close>.\<close>

definition finish_target :: "target \<Rightarrow> (target_error, target) result" where
  "finish_target t =
     (case SplitHostPort (tg_Address t) of
        Err _ \<Rightarrow> Err TargetForm
      | Ok (host, port) \<Rightarrow>
          if host = [] \<or> port = [] \<or> ContainsAny (tg_Address t) ''/?#@'' then Err TargetForm
          else if \<not> valid_port port then Err TargetPort
          else if tg_Scheme t = [] then
            Ok (t\<lparr>tg_Scheme := if port = ''443'' then ''https'' else ''http''\<rparr>)
          else Ok t)"

definition ParseTarget :: "string \<Rightarrow> (target_error, target) result" where
  "ParseTarget raw =
     (case Cut raw ''://'' of (scheme, rest, found) \<Rightarrow>
        if found then
          let sch = ToLower scheme in
          if sch \<noteq> ''http'' \<and> sch \<noteq> ''https'' then Err (TargetScheme sch)
          else finish_target \<lparr>tg_Scheme = sch, tg_Address = TrimSuffix rest ''/'', tg_Explicit = True\<rparr>
        else finish_target \<lparr>tg_Scheme = [], tg_Address = raw, tg_Explicit = False\<rparr>)"

definition Loopback :: "target \<Rightarrow> bool" where
  "Loopback t = (case SplitHostPort (tg_Address t) of Err _ \<Rightarrow> False | Ok (host, _) \<Rightarrow> isLoopback host)"

section \<open>Domains and rules\<close>

definition NormalizeDomain :: "string \<Rightarrow> string" where
  "NormalizeDomain domain = TrimSuffix (ToLower (TrimSpace domain)) ''.''"

definition valid_label_char :: "char \<Rightarrow> bool" where
  "valid_label_char c \<longleftrightarrow> (97 \<le> byte c \<and> byte c \<le> 122) \<or> is_digit c \<or> c = CHR ''-'' \<or> c = CHR ''_''"

definition valid_label :: "string \<Rightarrow> bool" where
  "valid_label l \<longleftrightarrow> l \<noteq> [] \<and> length l \<le> 63 \<and> hd l \<noteq> CHR ''-'' \<and> last l \<noteq> CHR ''-'' \<and> list_all valid_label_char l"

definition validDomain :: "string \<Rightarrow> bool" where
  "validDomain domain =
     (if ParseIP domain \<noteq> None then True
      else if domain = [] \<or> 253 < length domain then False
      else list_all valid_label (Split domain (CHR ''.'')))"

definition ValidateRule :: "redirect_rule \<Rightarrow> bool \<Rightarrow> rule_error option" where
  "ValidateRule rule allowRemote =
     (if rr_Domains rule = [] then Some DomainsEmpty
      else if rr_Include rule = [] then Some IncludeEmpty
      else case ParseTarget (rr_Target rule) of
        Err e \<Rightarrow> Some (BadTarget e)
      | Ok target \<Rightarrow>
          if \<not> Loopback target \<and> \<not> allowRemote then Some TargetNotLoopback
          else if \<not> Loopback target \<and> tg_Scheme target = ''http'' \<and> \<not> tg_Explicit target
          then Some (PlaintextRemote (rr_Target rule))
          else case List.find (\<lambda>d. \<not> validDomain (NormalizeDomain d)) (rr_Domains rule) of
            Some d \<Rightarrow> Some (RuleDomainInvalid d)
          | None \<Rightarrow>
              (case List.find (\<lambda>p. \<not> HasPrefix p ''/'') (rr_Include rule @ rr_Exclude rule) of
                 Some p \<Rightarrow> Some (PrefixNoSlash p)
               | None \<Rightarrow> None))"

section \<open>Validation of a configuration\<close>

definition validateListen :: "string \<Rightarrow> bool \<Rightarrow> config_error option" where
  "validateListen address allowRemote =
     (case SplitHostPort address of
        Err _ \<Rightarrow> Some ListenForm
      | Ok (host, port) \<Rightarrow>
          if \<not> valid_port port then Some (ListenPort port)
          else if \<not> allowRemote \<and> \<not> isLoopback host then Some ListenNotLoopback
          else None)"

fun validate_rules_from :: "nat \<Rightarrow> redirect_rule list \<Rightarrow> bool \<Rightarrow> config_error option" where
  "validate_rules_from i [] allowRemote = None"
| "validate_rules_from i (r # rs) allowRemote =
     (case ValidateRule r allowRemote of
        Some e \<Rightarrow> Some (InRule i e)
      | None \<Rightarrow> validate_rules_from (Suc i) rs allowRemote)"

definition validate_hamsterd :: "config \<Rightarrow> config_error option" where
  "validate_hamsterd c =
     (case List.find (\<lambda>d. d = [] \<or> ContainsAny d ''/?#:'') (cf_Domains c) of
        Some d \<Rightarrow> Some (DomainInvalid d)
      | None \<Rightarrow>
          let k = cf_Cache c in
          if cc_MaxSizeMiB k \<le> 0 then Some MaxSizeInvalid
          else if cc_MaxObjectMiB k \<le> 0 \<or> cc_MaxSizeMiB k < cc_MaxObjectMiB k then Some MaxObjectInvalid
          else if ParseDuration (cc_DefaultTTL k) = None then Some TTLInvalid
          else None)"

definition Validate :: "config \<Rightarrow> service \<Rightarrow> config_error option" where
  "Validate c svc =
     (if cf_Version c \<noteq> 1 then Some (UnsupportedVersion (cf_Version c))
      else case validateListen (cf_Listen c) (cf_AllowRemoteClients c) of
        Some e \<Rightarrow> Some e
      | None \<Rightarrow>
          if cf_ControlAPI c \<and> svc \<noteq> Lemmingd then Some ControlAPIService
          else if cf_ConnectPorts c \<noteq> [] \<and> \<not> cf_AllowRemoteClients c then Some ConnectPortsLocal
          else case List.find (\<lambda>p. p < 1 \<or> 65535 < p) (cf_ConnectPorts c) of
            Some p \<Rightarrow> Some (ConnectPortInvalid p)
          | None \<Rightarrow>
              if svc = Hamsterd then validate_hamsterd c
              else if svc = Lemmingd then validate_rules_from 0 (cf_Rules c) (cf_AllowRemoteTargets c)
              else Some (UnknownService svc))"

section \<open>Choosing between new and legacy fields\<close>

fun firstNonEmpty :: "string list \<Rightarrow> string" where
  "firstNonEmpty [] = []"
| "firstNonEmpty (v # vs) = (if v \<noteq> [] then v else firstNonEmpty vs)"

fun firstNonNil :: "'a list option list \<Rightarrow> 'a list option" where
  "firstNonNil [] = None"
| "firstNonNil (Some v # vs) = Some v"
| "firstNonNil (None # vs) = firstNonNil vs"


section \<open>Targets that parse\<close>

text \<open>What every parsed target satisfies; the proxy dials \<open>tg_Address\<close>.\<close>

definition good_target :: "target \<Rightarrow> bool" where
  "good_target t \<longleftrightarrow>
     (tg_Scheme t = ''http'' \<or> tg_Scheme t = ''https'') \<and> \<not> ContainsAny (tg_Address t) ''/?#@'' \<and>
     (case SplitHostPort (tg_Address t) of Err _ \<Rightarrow> False
      | Ok (host, port) \<Rightarrow> host \<noteq> [] \<and> valid_port port)"

lemma valid_port_ne: "valid_port p \<Longrightarrow> p \<noteq> []"
  by (auto simp: valid_port_def ParseInt_def parse_digits_def)

lemma finish_target_good:
  "finish_target t = Ok u \<Longrightarrow> tg_Scheme t \<in> {[], ''http'', ''https''} \<Longrightarrow> good_target u"
  by (auto simp: finish_target_def good_target_def split: sum.splits prod.splits if_splits)

lemma finish_target_fixed:
  "good_target t \<Longrightarrow> finish_target t = Ok t"
  by (auto simp: finish_target_def good_target_def dest: valid_port_ne split: sum.splits prod.splits)

lemma finish_target_keeps:
  "finish_target t = Ok u \<Longrightarrow> tg_Address u = tg_Address t \<and> tg_Explicit u = tg_Explicit t
    \<and> (tg_Scheme t \<noteq> [] \<longrightarrow> tg_Scheme u = tg_Scheme t)"
  by (auto simp: finish_target_def split: sum.splits prod.splits if_splits)

lemma ParseTarget_good: "ParseTarget raw = Ok t \<Longrightarrow> good_target t"
  by (auto simp: ParseTarget_def Let_def split: prod.splits if_splits
      elim!: finish_target_good [THEN iffD1 [OF refl]])

lemma good_target_no_slash: "good_target t \<Longrightarrow> CHR ''/'' \<notin> set (tg_Address t)"
  by (auto simp: good_target_def ContainsAny_iff)

lemma TrimSuffix_notin: "c \<notin> set s \<Longrightarrow> TrimSuffix s [c] = s"
  using TrimSuffix_cases [of s "[c]"] by (metis in_set_conv_decomp)

lemma Cut_http: "Cut (''http://'' @ a) ''://'' = (''http'', a, True)"
  by (simp add: HasPrefix_def)

lemma Cut_https: "Cut (''https://'' @ a) ''://'' = (''https'', a, True)"
  by (simp add: HasPrefix_def)

lemma ParseTarget_render:
  assumes "good_target t"
  shows "ParseTarget (tg_Scheme t @ ''://'' @ tg_Address t) = Ok (t\<lparr>tg_Explicit := True\<rparr>)"
proof -
  have trim: "TrimSuffix (tg_Address t) ''/'' = tg_Address t"
    using good_target_no_slash [OF assms] by (rule TrimSuffix_notin)
  have low: "ToLower ''http'' = ''http''" "ToLower ''https'' = ''https''"
    by (simp_all add: str_simps)
  have fin: "finish_target (t\<lparr>tg_Explicit := True\<rparr>) = Ok (t\<lparr>tg_Explicit := True\<rparr>)"
    using assms by (intro finish_target_fixed) (simp add: good_target_def)
  have rec: "t\<lparr>tg_Explicit := True\<rparr> = \<lparr>tg_Scheme = tg_Scheme t, tg_Address = tg_Address t, tg_Explicit = True\<rparr>"
    by simp
  have "tg_Scheme t = ''http'' \<or> tg_Scheme t = ''https''"
    using assms by (simp add: good_target_def)
  then show ?thesis
  proof
    assume s: "tg_Scheme t = ''http''"
    then show ?thesis
      using fin trim low Cut_http [of "tg_Address t"] by (simp add: ParseTarget_def rec del: Cut.simps)
  next
    assume s: "tg_Scheme t = ''https''"
    then show ?thesis
      using fin trim low Cut_https [of "tg_Address t"] by (simp add: ParseTarget_def rec del: Cut.simps)
  qed
qed

section \<open>Domains\<close>

lemma valid_label_no_colon: "valid_label l \<Longrightarrow> CHR '':'' \<notin> set l"
  by (auto simp: valid_label_def valid_label_char_def list_all_iff is_digit_def)

lemma validDomain_not_hostport:
  assumes "validDomain d"
  shows "\<exists>e. SplitHostPort d = Err e"
proof (cases "ParseIP d")
  case None
  with assms have "\<forall>l \<in> set (Split d (CHR ''.'')). valid_label l"
    by (auto simp: validDomain_def list_all_iff split: if_splits)
  then have "CHR '':'' \<notin> set d"
    using Split_char [of "CHR '':''" d "CHR ''.''"] valid_label_no_colon by auto
  then show ?thesis using SplitHostPort_no_colon by blast
next
  case (Some a)
  then show ?thesis by (rule ParseIP_SplitHostPort)
qed

section \<open>Facts about validated rules\<close>

lemma ValidateRule_None:
  "ValidateRule r allow = None \<longleftrightarrow>
     rr_Domains r \<noteq> [] \<and> rr_Include r \<noteq> [] \<and>
     (\<exists>t. ParseTarget (rr_Target r) = Ok t \<and>
        (Loopback t \<or> allow \<and> (tg_Scheme t = ''https'' \<or> tg_Explicit t))) \<and>
     (\<forall>d \<in> set (rr_Domains r). validDomain (NormalizeDomain d)) \<and>
     (\<forall>p \<in> set (rr_Include r @ rr_Exclude r). HasPrefix p ''/'')"
proof (cases "ParseTarget (rr_Target r)")
  case (Inl e)
  then show ?thesis by (simp add: ValidateRule_def)
next
  case (Inr t)
  have "tg_Scheme t = ''http'' \<or> tg_Scheme t = ''https''"
    using ParseTarget_good [OF Inr] by (simp add: good_target_def)
  with Inr show ?thesis
    by (auto simp: ValidateRule_def find_case_None)
qed

lemma validate_rules_from_None:
  "validate_rules_from i rs allow = None \<longleftrightarrow> (\<forall>r \<in> set rs. ValidateRule r allow = None)"
  by (induction rs arbitrary: i) (auto split: option.splits)

lemma validate_rules_from_Some:
  "validate_rules_from i rs allow = Some e \<Longrightarrow>
   \<exists>k er. e = InRule (i + k) er \<and> k < length rs \<and> ValidateRule (rs ! k) allow = Some er
     \<and> (\<forall>j < k. ValidateRule (rs ! j) allow = None)"
proof (induction rs arbitrary: i)
  case Nil
  then show ?case by simp
next
  case (Cons r rs)
  show ?case
  proof (cases "ValidateRule r allow")
    case None
    with Cons.prems have "validate_rules_from (Suc i) rs allow = Some e" by simp
    from Cons.IH [OF this] obtain k er where "e = InRule (Suc i + k) er" "k < length rs"
      "ValidateRule (rs ! k) allow = Some er" "\<forall>j < k. ValidateRule (rs ! j) allow = None"
      by blast
    with None show ?thesis
      by (intro exI [of _ "Suc k"] exI [of _ er]) (auto simp: less_Suc_eq_0_disj nth_Cons')
  next
    case (Some a)
    with Cons.prems show ?thesis by auto
  qed
qed

lemma Validate_None_listen:
  assumes "Validate c svc = None"
  obtains h p where "SplitHostPort (cf_Listen c) = Ok (h, p)" "valid_port p"
    "cf_AllowRemoteClients c \<or> isLoopback h"
  using assms by (auto simp: Validate_def validateListen_def split: if_splits option.splits sum.splits prod.splits)

lemma Validate_None_lemmingd:
  "Validate c Lemmingd = None \<Longrightarrow> \<forall>r \<in> set (cf_Rules c). ValidateRule r (cf_AllowRemoteTargets c) = None"
  by (auto simp: Validate_def validate_rules_from_None Hamsterd_def Lemmingd_def split: if_splits option.splits)

section \<open>Properties\<close>

text \<open>
  A target that parses can be dialled: its scheme is http or https, and its address is a host
  and a port between 1 and 65535, with no path, query, fragment or user part.
\<close>

theorem ParseTarget_dialable:
  assumes "ParseTarget raw = Ok t"
  shows "tg_Scheme t \<in> {''http'', ''https''} \<and>
    (\<exists>host port n. SplitHostPort (tg_Address t) = Ok (host, port) \<and> host \<noteq> [] \<and>
       Atoi port = Some n \<and> 1 \<le> n \<and> n \<le> 65535) \<and>
    set (tg_Address t) \<inter> set ''/?#@'' = {}"
  using ParseTarget_good [OF assms]
  by (auto simp: good_target_def valid_port_def ContainsAny_iff split: sum.splits prod.splits option.splits)

lemma ParseTarget_dialable_witness:
  "\<exists>t. ParseTarget ''HTTPS://app.test:8443/'' = Ok t \<and> tg_Scheme t \<in> {''http'', ''https''} \<and>
     (\<exists>host port n. SplitHostPort (tg_Address t) = Ok (host, port) \<and> host \<noteq> [] \<and> Atoi port = Some n \<and> n \<le> 65535)"
proof -
  have p: "ParseTarget ''HTTPS://app.test:8443/'' =
      Ok \<lparr>tg_Scheme = ''https'', tg_Address = ''app.test:8443'', tg_Explicit = True\<rparr>"
    by code_simp
  show ?thesis using ParseTarget_dialable [OF p] p by auto
qed

text \<open>
  Printing a parsed target as scheme, ://, address and parsing it again gives the same scheme
  and address, now explicit; so a rule can be stored in the explicit form without changing where it goes.
\<close>

theorem ParseTarget_roundtrip:
  assumes "ParseTarget raw = Ok t"
  shows "ParseTarget (tg_Scheme t @ ''://'' @ tg_Address t) = Ok (t\<lparr>tg_Explicit := True\<rparr>)"
  using ParseTarget_render [OF ParseTarget_good [OF assms]] .

lemma ParseTarget_roundtrip_witness:
  "ParseTarget ''https://localhost:443'' = Ok \<lparr>tg_Scheme = ''https'', tg_Address = ''localhost:443'', tg_Explicit = True\<rparr>"
proof -
  have "ParseTarget ''localhost:443'' = Ok \<lparr>tg_Scheme = ''https'', tg_Address = ''localhost:443'', tg_Explicit = False\<rparr>"
    by code_simp
  from ParseTarget_roundtrip [OF this] show ?thesis by simp
qed

text \<open>
  \<open>ValidateRule\<close> accepts exactly the rules with domains and include prefixes, a target that
  parses and is loopback or else remote, allowed and not plaintext by default, valid domains, and
  prefixes that all start with a slash.
\<close>

theorem ValidateRule_accepts:
  "ValidateRule r allow = None \<longleftrightarrow>
     rr_Domains r \<noteq> [] \<and> rr_Include r \<noteq> [] \<and>
     (\<exists>t. ParseTarget (rr_Target r) = Ok t \<and>
        (Loopback t \<or> allow \<and> (tg_Scheme t = ''https'' \<or> tg_Explicit t))) \<and>
     list_all (\<lambda>d. validDomain (NormalizeDomain d)) (rr_Domains r) \<and>
     list_all (\<lambda>p. HasPrefix p ''/'') (rr_Include r @ rr_Exclude r)"
  by (simp add: ValidateRule_None list_all_iff)

text \<open>
  A configuration error of lemmingd that names a rule names the first invalid one, with the
  error of that rule.
\<close>

theorem Validate_first_rule:
  assumes "Validate c Lemmingd = Some (InRule i e)"
  shows "i < length (cf_Rules c) \<and> ValidateRule (cf_Rules c ! i) (cf_AllowRemoteTargets c) = Some e \<and>
    list_all (\<lambda>r. ValidateRule r (cf_AllowRemoteTargets c) = None) (take i (cf_Rules c))"
proof -
  have "validate_rules_from 0 (cf_Rules c) (cf_AllowRemoteTargets c) = Some (InRule i e)"
    using assms by (auto simp: Validate_def validateListen_def Lemmingd_def Hamsterd_def
        split: if_splits option.splits sum.splits prod.splits)
  from validate_rules_from_Some [OF this] show ?thesis
    by (auto simp: list_all_iff in_set_conv_nth)
qed

lemma Validate_first_rule_witness:
  "ValidateRule \<lparr>rr_Target = ''10.0.0.1:80'', rr_Domains = [''a.test''], rr_Include = [''/''], rr_Exclude = []\<rparr> False
     = Some TargetNotLoopback"
proof -
  have "Validate ((Default Lemmingd [])\<lparr>cf_Rules := [\<lparr>rr_Target = ''[::1]:80'', rr_Domains = [''b.test''],
        rr_Include = [''/''], rr_Exclude = []\<rparr>,
      \<lparr>rr_Target = ''10.0.0.1:80'', rr_Domains = [''a.test''], rr_Include = [''/''], rr_Exclude = []\<rparr>]\<rparr>) Lemmingd
    = Some (InRule 1 TargetNotLoopback)"
    by code_simp
  from Validate_first_rule [OF this] show ?thesis by (simp add: Default_def Lemmingd_def Hamsterd_def base_config_def)
qed

text \<open>The port of a target without a scheme is compared as text.\<close>

lemma padded_https_port:
  "ParseTarget ''a.test:0443'' = Ok \<lparr>tg_Scheme = ''http'', tg_Address = ''a.test:0443'', tg_Explicit = False\<rparr>"
  by code_simp

end
