(* ===== verification/GoJson.thy ===== *)
theory GoJson
  imports Prelude
begin

text \<open>
  What the program uses of \<open>encoding/json\<close>, on JSON values. A number keeps its literal, an
  object its members in order. Decoding into a Go value takes the value it starts from, because
  \<open>null\<close> leaves a string, number or boolean as it was; \<open>None\<close> is an error. Member names match
  a field exactly or, failing that, up to the case of letters. The text of a document is the
  sequence of values its tokens form and whether nothing else follows them.
\<close>

datatype json = JNull | JBool bool | JNum string | JStr string | JArr "json list"
  | JObj "(string \<times> json) list"

type_synonym doc = "json list \<times> bool"

section \<open>Decoding\<close>

definition dec_string :: "json \<Rightarrow> string \<Rightarrow> string option" where
  "dec_string j old = (case j of JStr s \<Rightarrow> Some s | JNull \<Rightarrow> Some old | _ \<Rightarrow> None)"

definition dec_int :: "json \<Rightarrow> int \<Rightarrow> int option" where
  "dec_int j old = (case j of JNum s \<Rightarrow> ParseInt s | JNull \<Rightarrow> Some old | _ \<Rightarrow> None)"

definition dec_bool :: "json \<Rightarrow> bool \<Rightarrow> bool option" where
  "dec_bool j old = (case j of JBool b \<Rightarrow> Some b | JNull \<Rightarrow> Some old | _ \<Rightarrow> None)"

text \<open>Elements are decoded into those of the old slice while it lasts, then into zero values.\<close>

fun dec_elems :: "(json \<Rightarrow> 'a \<Rightarrow> 'a option) \<Rightarrow> 'a \<Rightarrow> json list \<Rightarrow> 'a list \<Rightarrow> 'a list option" where
  "dec_elems f z [] old = Some []"
| "dec_elems f z (j # js) old =
     (case f j (case old of [] \<Rightarrow> z | x # _ \<Rightarrow> x) of
        None \<Rightarrow> None
      | Some y \<Rightarrow> map_option (\<lambda>ys. y # ys) (dec_elems f z js (tl old)))"

text \<open>A slice is an option: \<open>None\<close> is nil.\<close>

definition dec_slice :: "(json \<Rightarrow> 'a \<Rightarrow> 'a option) \<Rightarrow> 'a \<Rightarrow> json \<Rightarrow> 'a list option \<Rightarrow> 'a list option option" where
  "dec_slice f z j old =
     (case j of
        JNull \<Rightarrow> Some None
      | JArr js \<Rightarrow> map_option Some (dec_elems f z js (case old of None \<Rightarrow> [] | Some xs \<Rightarrow> xs))
      | _ \<Rightarrow> None)"

definition dec_strings :: "json \<Rightarrow> string list option \<Rightarrow> string list option option" where
  "dec_strings = dec_slice dec_string []"

definition field_name :: "string list \<Rightarrow> string \<Rightarrow> string option" where
  "field_name names k =
     (if k \<in> set names then Some k else List.find (\<lambda>n. EqualFold n k) names)"

text \<open>
  Members in order; an unknown one is an error when the decoder is strict
  (\<open>DisallowUnknownFields\<close>) and skipped otherwise.
\<close>

fun dec_members :: "bool \<Rightarrow> string list \<Rightarrow> (string \<Rightarrow> json \<Rightarrow> 's \<Rightarrow> 's option) \<Rightarrow>
    (string \<times> json) list \<Rightarrow> 's \<Rightarrow> 's option" where
  "dec_members strict names f [] s = Some s"
| "dec_members strict names f ((k, j) # kvs) s =
     (case field_name names k of
        None \<Rightarrow> if strict then None else dec_members strict names f kvs s
      | Some n \<Rightarrow> (case f n j s of None \<Rightarrow> None | Some s' \<Rightarrow> dec_members strict names f kvs s'))"

definition dec_struct :: "bool \<Rightarrow> string list \<Rightarrow> (string \<Rightarrow> json \<Rightarrow> 's \<Rightarrow> 's option) \<Rightarrow> json \<Rightarrow> 's \<Rightarrow> 's option" where
  "dec_struct strict names f j s =
     (case j of JObj kvs \<Rightarrow> dec_members strict names f kvs s | JNull \<Rightarrow> Some s | _ \<Rightarrow> None)"

text \<open>A decoder that reads one value and then demands the end of the input.\<close>

definition single_value :: "doc \<Rightarrow> json option" where
  "single_value d = (case d of ([j], True) \<Rightarrow> Some j | _ \<Rightarrow> None)"

section \<open>Encoding\<close>

definition enc_int :: "int \<Rightarrow> json" where "enc_int i = JNum (FormatInt i)"

definition enc_strings :: "string list \<Rightarrow> json" where
  "enc_strings xs = JArr (map JStr xs)"

section \<open>Lemmas\<close>

lemma dec_elems_map:
  "(\<And>x old. x \<in> set xs \<Longrightarrow> f (g x) old = Some x) \<Longrightarrow> dec_elems f z (map g xs) old = Some xs"
  by (induction xs arbitrary: old) auto

lemma dec_strings_enc [simp]: "dec_strings (enc_strings xs) old = Some (Some xs)"
  by (simp add: dec_strings_def enc_strings_def dec_slice_def dec_elems_map dec_string_def)

lemma dec_string_JStr [simp]: "dec_string (JStr s) old = Some s"
  by (simp add: dec_string_def)

lemma dec_bool_JBool [simp]: "dec_bool (JBool b) old = Some b"
  by (simp add: dec_bool_def)

lemma dec_int_enc [simp]:
  "min_int64 \<le> i \<Longrightarrow> i \<le> max_int64 \<Longrightarrow> dec_int (enc_int i) old = Some i"
  by (simp add: dec_int_def enc_int_def ParseInt_FormatInt)

lemma field_name_exact [simp]: "k \<in> set names \<Longrightarrow> field_name names k = Some k"
  by (simp add: field_name_def)

lemma dec_members_append:
  "dec_members strict names f (xs @ ys) s =
     Option.bind (dec_members strict names f xs s) (dec_members strict names f ys)"
  by (induction strict names f xs s rule: dec_members.induct) (auto split: option.splits)


text \<open>An invariant of every member's decoder is an invariant of the object's decoder.\<close>

lemma dec_members_inv:
  assumes "\<forall>n j s s'. P s \<longrightarrow> f n j s = Some s' \<longrightarrow> P s'"
  shows "P s \<Longrightarrow> dec_members strict names f kvs s = Some s' \<Longrightarrow> P s'"
proof (induction kvs arbitrary: s)
  case Nil
  then show ?case by simp
next
  case (Cons kv kvs)
  obtain k j where kv: "kv = (k, j)" by (cases kv)
  show ?case
  proof (cases "field_name names k")
    case None
    with Cons kv show ?thesis by (auto split: if_splits)
  next
    case (Some n)
    with Cons.prems kv obtain t where t: "f n j s = Some t" "dec_members strict names f kvs t = Some s'"
      by (auto split: option.splits)
    with assms Cons.prems have "P t" by blast
    with t show ?thesis using Cons.IH by blast
  qed
qed

lemma dec_struct_inv:
  assumes "\<forall>n j s s'. P s \<longrightarrow> f n j s = Some s' \<longrightarrow> P s'"
  shows "P s \<Longrightarrow> dec_struct strict names f j s = Some s' \<Longrightarrow> P s'"
  using dec_members_inv [OF assms] by (auto simp: dec_struct_def split: json.splits)

lemma dec_int_bounds:
  "dec_int j old = Some i \<Longrightarrow> min_int64 \<le> old \<and> old \<le> max_int64 \<Longrightarrow> min_int64 \<le> i \<and> i \<le> max_int64"
  by (auto simp: dec_int_def split: json.splits dest: ParseInt_bounds)

end
