(* ===== verification/GoFile.thy ===== *)
theory GoFile
  imports Prelude
begin

unbundle bit_operations_syntax

text \<open>
  The part of the file system the program works on: a map from paths to files with their
  content, permission bits, and whether they are regular files. \<open>write_atomic\<close> is the sequence
  of system calls the program uses for every file it replaces (temporary file, chmod, write,
  close, rename, deferred removal of the temporary file); it returns the states the file system
  goes through, so that a crash between two calls can be looked at, and the error, if a call fails.
\<close>

type_synonym perm = "32 word"

record 'c gofile =
  file_data :: 'c
  file_perm :: perm
  file_regular :: bool

type_synonym 'c fs = "string \<Rightarrow> 'c gofile option"

datatype write_step = CreateTemp | ChmodTemp | WriteTemp | CloseTemp | RenameTemp

text \<open>
  \<open>fail\<close> is the call that fails, if one does; \<open>part\<close> is what a failed or unfinished write has
  left in the temporary file.
\<close>

definition write_atomic ::
  "string \<Rightarrow> 'c \<Rightarrow> write_step option \<Rightarrow> string \<Rightarrow> 'c \<Rightarrow> perm \<Rightarrow> 'c fs \<Rightarrow> 'c fs list \<times> write_step option" where
  "write_atomic tmp part fail path data p fs =
     (let f1 = fs(tmp \<mapsto> \<lparr>file_data = part, file_perm = 384, file_regular = True\<rparr>);
          f2 = fs(tmp \<mapsto> \<lparr>file_data = part, file_perm = p, file_regular = True\<rparr>);
          f3 = fs(tmp \<mapsto> \<lparr>file_data = data, file_perm = p, file_regular = True\<rparr>);
          f4 = (fs(path \<mapsto> \<lparr>file_data = data, file_perm = p, file_regular = True\<rparr>))(tmp := None)
      in if fail = Some CreateTemp then ([fs], fail)
         else if fail = Some ChmodTemp then ([f1, f1(tmp := None)], fail)
         else if fail = Some WriteTemp then ([f1, f2, f2(tmp := None)], fail)
         else if fail = Some CloseTemp then ([f1, f2, f3, f3(tmp := None)], fail)
         else if fail = Some RenameTemp then ([f1, f2, f3, f3(tmp := None)], fail)
         else ([f1, f2, f3, f4], None))"

definition after_write :: "'c fs list \<times> write_step option \<Rightarrow> 'c fs" where
  "after_write r = last (fst r)"

lemma write_atomic_error: "snd (write_atomic tmp part fail path data p fs) = fail"
  by (auto simp: write_atomic_def Let_def split: if_splits) (cases fail; metis write_step.exhaust)

lemma write_atomic_final:
  assumes "fs tmp = None" "tmp \<noteq> path"
  shows "after_write (write_atomic tmp part fail path data p fs) =
     (if fail = None then fs(path \<mapsto> \<lparr>file_data = data, file_perm = p, file_regular = True\<rparr>) else fs)"
proof -
  have "fs(tmp := None) = fs" using assms(1) by auto
  moreover have "\<And>v. (fs(path \<mapsto> v))(tmp := None) = fs(path \<mapsto> v)" using assms by auto
  ultimately show ?thesis
    by (cases fail; cases "the fail") (auto simp: after_write_def write_atomic_def Let_def)
qed

text \<open>Every state on the way has the old file or the whole new one at \<open>path\<close>.\<close>

lemma write_atomic_states:
  assumes "tmp \<noteq> path" "s \<in> set (fst (write_atomic tmp part fail path data p fs))"
  shows "s path = fs path \<or> s path = Some \<lparr>file_data = data, file_perm = p, file_regular = True\<rparr>"
  using assms by (auto simp: write_atomic_def Let_def split: if_splits)

lemma write_atomic_frame:
  assumes "q \<noteq> tmp" "q \<noteq> path" "s \<in> set (fst (write_atomic tmp part fail path data p fs))"
  shows "s q = fs q"
  using assms by (auto simp: write_atomic_def Let_def split: if_splits)

section \<open>The interface of a file with an owner\<close>

text \<open>
  A file that several processes write in turn and whose writer puts a token into it: who stops takes away the file only if it still has
  its own token. \<open>owner\<close> is the token of the file as it is read back.
\<close>

locale owned_file =
  fixes valid :: "'a \<Rightarrow> bool"
    and token :: "'a \<Rightarrow> 't"
    and publish :: "'a \<Rightarrow> 's \<Rightarrow> 's"
    and owner :: "'s \<Rightarrow> 't option"
    and release :: "'t \<Rightarrow> 's \<Rightarrow> 's"
  assumes owner_publish: "valid a \<Longrightarrow> owner (publish a s) = Some (token a)"
    and release_own: "owner s = Some t \<Longrightarrow> owner (release t s) = None"
    and release_other: "owner s \<noteq> Some t \<Longrightarrow> release t s = s"
begin

lemma release_published: "valid a \<Longrightarrow> owner (release (token a) (publish a s)) = None"
  by (simp add: owner_publish release_own)

lemma release_after_other: "valid b \<Longrightarrow> token b \<noteq> t \<Longrightarrow> release t (publish b s) = publish b s"
  by (simp add: owner_publish release_other)

lemma release_twice: "release t (release t s) = release t s"
  using release_own release_other by (metis option.distinct(1))

text \<open>Of two writers that stop in any order, the file of the second goes only when the second stops.\<close>

lemma release_order:
  assumes "valid a" "valid b" "token a \<noteq> token b"
  shows "owner (release (token a) (publish b (publish a s))) = Some (token b)"
    "owner (release (token b) (release (token a) (publish b (publish a s)))) = None"
  using assms by (simp_all add: release_after_other owner_publish release_own)

end

end
