(* ===== verification/ConfigFile.thy ===== *)
theory ConfigFile
  imports Config GoJson GoFile
begin

unbundle bit_operations_syntax

text \<open>
  The files of \<open>internal/config\<close>: the JSON form of a configuration with its legacy field
  names (\<open>decode\<close> and the encoding of \<open>writeConfig\<close>), the permission check, and
  \<open>LoadOrCreate\<close>. A file holds a JSON document (theory \<open>GoJson\<close>). \<open>rd path\<close> tells whether
  the system calls that open, inspect and read an existing file succeed. The permission check is that of all
  systems but Windows, where the code makes none. The code compares the text of a legacy section with \<open>{}\<close>; on
  values, an empty object written with spaces is read like it, where the code reports an error.
\<close>

section \<open>Rules in JSON\<close>

record rule_json =
  rj_Target :: string
  rj_Domains :: "string list option"
  rj_Include :: "string list option"
  rj_Exclude :: "string list option"
  rj_LegacyTarget :: string
  rj_LegacyDomains :: "string list option"
  rj_LegacyInclude :: "string list option"
  rj_LegacyExclude :: "string list option"

definition zero_rule_json :: rule_json where
  "zero_rule_json = \<lparr>rj_Target = [], rj_Domains = None, rj_Include = None, rj_Exclude = None,
     rj_LegacyTarget = [], rj_LegacyDomains = None, rj_LegacyInclude = None, rj_LegacyExclude = None\<rparr>"

definition rule_names :: "string list" where
  "rule_names = [''target'', ''domains'', ''include_paths'', ''exclude_paths'',
     ''LocalSocket'', ''Domains'', ''StartWithWL'', ''StartWithBL'']"

definition dec_rule_field :: "string \<Rightarrow> json \<Rightarrow> rule_json \<Rightarrow> rule_json option" where
  "dec_rule_field n j r =
     (if n = ''target'' then map_option (\<lambda>v. r\<lparr>rj_Target := v\<rparr>) (dec_string j (rj_Target r))
      else if n = ''domains'' then map_option (\<lambda>v. r\<lparr>rj_Domains := v\<rparr>) (dec_strings j (rj_Domains r))
      else if n = ''include_paths'' then map_option (\<lambda>v. r\<lparr>rj_Include := v\<rparr>) (dec_strings j (rj_Include r))
      else if n = ''exclude_paths'' then map_option (\<lambda>v. r\<lparr>rj_Exclude := v\<rparr>) (dec_strings j (rj_Exclude r))
      else if n = ''LocalSocket'' then map_option (\<lambda>v. r\<lparr>rj_LegacyTarget := v\<rparr>) (dec_string j (rj_LegacyTarget r))
      else if n = ''Domains'' then map_option (\<lambda>v. r\<lparr>rj_LegacyDomains := v\<rparr>) (dec_strings j (rj_LegacyDomains r))
      else if n = ''StartWithWL'' then map_option (\<lambda>v. r\<lparr>rj_LegacyInclude := v\<rparr>) (dec_strings j (rj_LegacyInclude r))
      else map_option (\<lambda>v. r\<lparr>rj_LegacyExclude := v\<rparr>) (dec_strings j (rj_LegacyExclude r)))"

definition slice_list :: "'a list option \<Rightarrow> 'a list" where
  "slice_list sl = (case sl of None \<Rightarrow> [] | Some xs \<Rightarrow> xs)"

text \<open>
  \<open>RedirectRule.UnmarshalJSON\<close> calls \<open>json.Unmarshal\<close>, so members it does not know are
  skipped, whatever the outer decoder does.
\<close>

definition UnmarshalJSON :: "json \<Rightarrow> redirect_rule option" where
  "UnmarshalJSON j =
     (case dec_struct False rule_names dec_rule_field j zero_rule_json of
        None \<Rightarrow> None
      | Some raw \<Rightarrow> Some \<lparr>rr_Target = firstNonEmpty [rj_Target raw, rj_LegacyTarget raw],
          rr_Domains = slice_list (firstNonNil [rj_Domains raw, rj_LegacyDomains raw]),
          rr_Include = slice_list (firstNonNil [rj_Include raw, rj_LegacyInclude raw]),
          rr_Exclude = slice_list (firstNonNil [rj_Exclude raw, rj_LegacyExclude raw])\<rparr>)"

definition zero_redirect_rule :: redirect_rule where
  "zero_redirect_rule = \<lparr>rr_Target = [], rr_Domains = [], rr_Include = [], rr_Exclude = []\<rparr>"

definition dec_rules :: "json \<Rightarrow> redirect_rule list option \<Rightarrow> redirect_rule list option option" where
  "dec_rules = dec_slice (\<lambda>j _. UnmarshalJSON j) zero_redirect_rule"

definition omit_empty :: "string \<Rightarrow> string list \<Rightarrow> (string \<times> json) list" where
  "omit_empty k xs = (if xs = [] then [] else [(k, enc_strings xs)])"

definition enc_rule :: "redirect_rule \<Rightarrow> json" where
  "enc_rule r = JObj ([(''target'', JStr (rr_Target r)), (''domains'', enc_strings (rr_Domains r)),
     (''include_paths'', enc_strings (rr_Include r))] @ omit_empty ''exclude_paths'' (rr_Exclude r))"

section \<open>Configurations in JSON\<close>

record file_config =
  fc_Config :: config
  fc_FormatVersion :: string
  fc_Socket :: string
  fc_Custom :: "json option"

definition zero_config :: config where
  "zero_config = base_config\<lparr>cf_Version := 0\<rparr>"

definition zero_file_config :: file_config where
  "zero_file_config = \<lparr>fc_Config = zero_config, fc_FormatVersion = [], fc_Socket = [], fc_Custom = None\<rparr>"

definition cache_names :: "string list" where
  "cache_names = [''directory'', ''max_size_mib'', ''max_object_mib'', ''default_ttl'']"

definition dec_cache_field :: "string \<Rightarrow> json \<Rightarrow> cache_config \<Rightarrow> cache_config option" where
  "dec_cache_field n j c =
     (if n = ''directory'' then map_option (\<lambda>v. c\<lparr>cc_Directory := v\<rparr>) (dec_string j (cc_Directory c))
      else if n = ''max_size_mib'' then map_option (\<lambda>v. c\<lparr>cc_MaxSizeMiB := v\<rparr>) (dec_int j (cc_MaxSizeMiB c))
      else if n = ''max_object_mib'' then map_option (\<lambda>v. c\<lparr>cc_MaxObjectMiB := v\<rparr>) (dec_int j (cc_MaxObjectMiB c))
      else map_option (\<lambda>v. c\<lparr>cc_DefaultTTL := v\<rparr>) (dec_string j (cc_DefaultTTL c)))"

definition config_names :: "string list" where
  "config_names = [''version'', ''listen'', ''allow_remote_clients'', ''allow_remote_targets'',
     ''allowed_connect_ports'', ''control_api'', ''domains'', ''cache'', ''rules'',
     ''FormatVersion'', ''Socket'', ''CustomConfig'']"

definition dec_config_field :: "string \<Rightarrow> json \<Rightarrow> config \<Rightarrow> config option" where
  "dec_config_field n j c =
     (if n = ''version'' then map_option (\<lambda>v. c\<lparr>cf_Version := v\<rparr>) (dec_int j (cf_Version c))
      else if n = ''listen'' then map_option (\<lambda>v. c\<lparr>cf_Listen := v\<rparr>) (dec_string j (cf_Listen c))
      else if n = ''allow_remote_clients'' then
        map_option (\<lambda>v. c\<lparr>cf_AllowRemoteClients := v\<rparr>) (dec_bool j (cf_AllowRemoteClients c))
      else if n = ''allow_remote_targets'' then
        map_option (\<lambda>v. c\<lparr>cf_AllowRemoteTargets := v\<rparr>) (dec_bool j (cf_AllowRemoteTargets c))
      else if n = ''allowed_connect_ports'' then
        map_option (\<lambda>v. c\<lparr>cf_ConnectPorts := slice_list v\<rparr>) (dec_slice dec_int 0 j (Some (cf_ConnectPorts c)))
      else if n = ''control_api'' then map_option (\<lambda>v. c\<lparr>cf_ControlAPI := v\<rparr>) (dec_bool j (cf_ControlAPI c))
      else if n = ''domains'' then
        map_option (\<lambda>v. c\<lparr>cf_Domains := slice_list v\<rparr>) (dec_strings j (Some (cf_Domains c)))
      else if n = ''cache'' then
        map_option (\<lambda>v. c\<lparr>cf_Cache := v\<rparr>) (dec_struct True cache_names dec_cache_field j (cf_Cache c))
      else map_option (\<lambda>v. c\<lparr>cf_Rules := slice_list v\<rparr>) (dec_rules j (Some (cf_Rules c))))"

definition dec_file_field :: "string \<Rightarrow> json \<Rightarrow> file_config \<Rightarrow> file_config option" where
  "dec_file_field n j f =
     (if n = ''FormatVersion'' then map_option (\<lambda>v. f\<lparr>fc_FormatVersion := v\<rparr>) (dec_string j (fc_FormatVersion f))
      else if n = ''Socket'' then map_option (\<lambda>v. f\<lparr>fc_Socket := v\<rparr>) (dec_string j (fc_Socket f))
      else if n = ''CustomConfig'' then Some (f\<lparr>fc_Custom := Some j\<rparr>)
      else map_option (\<lambda>v. f\<lparr>fc_Config := v\<rparr>) (dec_config_field n j (fc_Config f)))"

definition custom_present :: "json option \<Rightarrow> bool" where
  "custom_present oj = (case oj of None \<Rightarrow> False | Some j \<Rightarrow> j \<noteq> JNull \<and> j \<noteq> JObj [])"

text \<open>What \<open>decode\<close> does with the decoded file: legacy version, socket and rules.\<close>

definition upgrade :: "file_config \<Rightarrow> config option" where
  "upgrade raw =
     (let c0 = fc_Config raw;
          c1 = (if cf_Version c0 = 0 \<and> fc_FormatVersion raw \<noteq> [] then c0\<lparr>cf_Version := 1\<rparr> else c0);
          c2 = (if cf_Listen c1 = [] then c1\<lparr>cf_Listen := fc_Socket raw\<rparr> else c1);
          c3 = (if \<not> cf_AllowRemoteClients c2 \<and> HasPrefix (cf_Listen c2) '':''
                then c2\<lparr>cf_Listen := ''127.0.0.1'' @ cf_Listen c2\<rparr> else c2)
      in if cf_Rules c3 = [] \<and> custom_present (fc_Custom raw)
         then map_option (\<lambda>rs. c3\<lparr>cf_Rules := slice_list rs\<rparr>) (dec_rules (the (fc_Custom raw)) (Some (cf_Rules c3)))
         else Some c3)"

definition decode :: "doc \<Rightarrow> config option" where
  "decode d =
     (case single_value d of
        None \<Rightarrow> None
      | Some j \<Rightarrow> Option.bind (dec_struct True config_names dec_file_field j zero_file_config) upgrade)"

definition enc_cache :: "cache_config \<Rightarrow> json" where
  "enc_cache k = JObj ((if cc_Directory k = [] then [] else [(''directory'', JStr (cc_Directory k))]) @
     [(''max_size_mib'', enc_int (cc_MaxSizeMiB k)), (''max_object_mib'', enc_int (cc_MaxObjectMiB k)),
      (''default_ttl'', JStr (cc_DefaultTTL k))])"

definition enc_flag :: "string \<Rightarrow> bool \<Rightarrow> (string \<times> json) list" where
  "enc_flag k b = (if b then [(k, JBool True)] else [])"

definition enc_config :: "config \<Rightarrow> json" where
  "enc_config c = JObj ([(''version'', enc_int (cf_Version c)), (''listen'', JStr (cf_Listen c))]
     @ enc_flag ''allow_remote_clients'' (cf_AllowRemoteClients c)
     @ enc_flag ''allow_remote_targets'' (cf_AllowRemoteTargets c)
     @ (if cf_ConnectPorts c = [] then [] else [(''allowed_connect_ports'', JArr (map enc_int (cf_ConnectPorts c)))])
     @ enc_flag ''control_api'' (cf_ControlAPI c)
     @ omit_empty ''domains'' (cf_Domains c)
     @ (if cf_Cache c = zero_cache then [] else [(''cache'', enc_cache (cf_Cache c))])
     @ (if cf_Rules c = [] then [] else [(''rules'', JArr (map enc_rule (cf_Rules c)))]))"

definition config_doc :: "config \<Rightarrow> doc" where
  "config_doc c = ([enc_config c], True)"

section \<open>Reading and creating the configuration file\<close>

datatype read_error = NotExist | ReadFailed | NotRegular | WritableByOthers

definition checkPrivate :: "perm \<Rightarrow> bool" where
  "checkPrivate p \<longleftrightarrow> p AND 18 = 0"

definition readPrivate :: "(string \<Rightarrow> bool) \<Rightarrow> string \<Rightarrow> doc fs \<Rightarrow> (read_error, doc) result" where
  "readPrivate rd path fs =
     (case fs path of
        None \<Rightarrow> Err NotExist
      | Some f \<Rightarrow>
          if \<not> rd path then Err ReadFailed
          else if \<not> file_regular f then Err NotRegular
          else if \<not> checkPrivate (file_perm f) then Err WritableByOthers
          else Ok (file_data f))"

text \<open>Before the file, \<open>writeConfig\<close> makes the directory and secures it.\<close>

datatype config_step = MakeDirectory | SecureDirectory | FileStep write_step

definition writeConfig ::
  "string \<Rightarrow> doc \<Rightarrow> config_step option \<Rightarrow> string \<Rightarrow> config \<Rightarrow> doc fs \<Rightarrow> doc fs list \<times> config_step option" where
  "writeConfig tmp part fail path c fs =
     (case fail of
        Some MakeDirectory \<Rightarrow> ([fs], fail)
      | Some SecureDirectory \<Rightarrow> ([fs], fail)
      | Some (FileStep st) \<Rightarrow>
          (fst (write_atomic tmp part (Some st) path (config_doc c) 384 fs), fail)
      | None \<Rightarrow> (fst (write_atomic tmp part None path (config_doc c) 384 fs), None))"

datatype load_error = LoadRead read_error | LoadWrite config_step | LoadParse | LoadInvalid config_error

text \<open>The result is the configuration and whether it was created, with the new file system.\<close>

definition LoadOrCreate ::
  "(string \<Rightarrow> bool) \<Rightarrow> string \<Rightarrow> doc \<Rightarrow> config_step option \<Rightarrow> string \<Rightarrow> service \<Rightarrow> string \<Rightarrow> doc fs \<Rightarrow>
   (load_error, config \<times> bool) result \<times> doc fs" where
  "LoadOrCreate rd tmp part fail path svc dir fs =
     (case readPrivate rd path fs of
        Err NotExist \<Rightarrow>
          (let cfg = Default svc dir; w = writeConfig tmp part fail path cfg fs
           in case snd w of
                Some e \<Rightarrow> (Err (LoadWrite e), last (fst w))
              | None \<Rightarrow> (Ok (cfg, True), last (fst w)))
      | Err e \<Rightarrow> (Err (LoadRead e), fs)
      | Ok data \<Rightarrow>
          (case decode data of
             None \<Rightarrow> (Err LoadParse, fs)
           | Some c \<Rightarrow>
               let cfg = fill_defaults svc dir c
               in case Validate cfg svc of
                    Some e \<Rightarrow> (Err (LoadInvalid e), fs)
                  | None \<Rightarrow> (Ok (cfg, False), fs)))"

section \<open>Round trip\<close>

lemma UnmarshalJSON_enc [simp]: "UnmarshalJSON (enc_rule r) = Some r"
  by (cases "rr_Exclude r")
    (simp_all add: UnmarshalJSON_def enc_rule_def dec_struct_def omit_empty_def rule_names_def
      dec_rule_field_def zero_rule_json_def slice_list_def field_name_def)

lemma dec_rules_enc [simp]: "dec_rules (JArr (map enc_rule rs)) old = Some (Some rs)"
  by (simp add: dec_rules_def dec_slice_def dec_elems_map)

definition int64 :: "int \<Rightarrow> bool" where
  "int64 i \<longleftrightarrow> min_int64 \<le> i \<and> i \<le> max_int64"

definition config_int64 :: "config \<Rightarrow> bool" where
  "config_int64 c \<longleftrightarrow> int64 (cf_Version c) \<and> list_all int64 (cf_ConnectPorts c)
     \<and> int64 (cc_MaxSizeMiB (cf_Cache c)) \<and> int64 (cc_MaxObjectMiB (cf_Cache c))"

lemma dec_cache_enc:
  assumes "int64 (cc_MaxSizeMiB k)" "int64 (cc_MaxObjectMiB k)"
  shows "dec_struct True cache_names dec_cache_field (enc_cache k) zero_cache = Some k"
  using assms by (cases "cc_Directory k")
    (simp_all add: enc_cache_def dec_struct_def cache_names_def dec_cache_field_def field_name_def
      zero_cache_def int64_def)

lemma dec_ports_enc:
  "list_all int64 ps \<Longrightarrow> dec_slice dec_int 0 (JArr (map enc_int ps)) old = Some (Some ps)"
  by (auto simp: dec_slice_def list_all_iff int64_def intro!: dec_elems_map)

definition with_rules :: "config \<Rightarrow> file_config" where
  "with_rules c = zero_file_config\<lparr>fc_Config := c\<rparr>"

lemma dec_file_config:
  "n \<notin> {''FormatVersion'', ''Socket'', ''CustomConfig''} \<Longrightarrow>
   dec_file_field n j (with_rules c) = map_option with_rules (dec_config_field n j c)"
  by (cases "dec_config_field n j c") (simp_all add: dec_file_field_def with_rules_def)

abbreviation members :: "(string \<times> json) list \<Rightarrow> config \<Rightarrow> file_config option" where
  "members kvs c \<equiv> dec_members True config_names dec_file_field kvs (with_rules c)"

lemmas member_simps = dec_file_config dec_config_field_def config_names_def enc_flag_def
  omit_empty_def slice_list_def

text \<open>Each optional member, written only when it is not zero, is decoded into a zero field.\<close>

lemma member_clients: "\<not> cf_AllowRemoteClients s \<Longrightarrow>
    members (enc_flag ''allow_remote_clients'' b) s = Some (with_rules (s\<lparr>cf_AllowRemoteClients := b\<rparr>))"
  by (cases s; cases b) (simp_all add: member_simps)

lemma member_targets: "\<not> cf_AllowRemoteTargets s \<Longrightarrow>
    members (enc_flag ''allow_remote_targets'' b) s = Some (with_rules (s\<lparr>cf_AllowRemoteTargets := b\<rparr>))"
  by (cases s; cases b) (simp_all add: member_simps)

lemma member_control: "\<not> cf_ControlAPI s \<Longrightarrow>
    members (enc_flag ''control_api'' b) s = Some (with_rules (s\<lparr>cf_ControlAPI := b\<rparr>))"
  by (cases s; cases b) (simp_all add: member_simps)

lemma member_ports: "cf_ConnectPorts s = [] \<Longrightarrow> list_all int64 ps \<Longrightarrow>
    members (if ps = [] then [] else [(''allowed_connect_ports'', JArr (map enc_int ps))]) s
      = Some (with_rules (s\<lparr>cf_ConnectPorts := ps\<rparr>))"
  by (cases s; cases "ps = []") (simp_all add: member_simps dec_ports_enc)

lemma member_domains: "cf_Domains s = [] \<Longrightarrow>
    members (omit_empty ''domains'' ds) s = Some (with_rules (s\<lparr>cf_Domains := ds\<rparr>))"
  by (cases s; cases "ds = []") (simp_all add: member_simps)

lemma member_cache: "cf_Cache s = zero_cache \<Longrightarrow> int64 (cc_MaxSizeMiB k) \<Longrightarrow> int64 (cc_MaxObjectMiB k) \<Longrightarrow>
    members (if k = zero_cache then [] else [(''cache'', enc_cache k)]) s = Some (with_rules (s\<lparr>cf_Cache := k\<rparr>))"
  by (cases s; cases "k = zero_cache") (simp_all add: member_simps dec_cache_enc)

lemma member_rules: "cf_Rules s = [] \<Longrightarrow>
    members (if rs = [] then [] else [(''rules'', JArr (map enc_rule rs))]) s = Some (with_rules (s\<lparr>cf_Rules := rs\<rparr>))"
  by (cases s; cases "rs = []") (simp_all add: member_simps)

lemma dec_config_roundtrip:
  assumes "config_int64 c"
  shows "dec_struct True config_names dec_file_field (enc_config c) zero_file_config = Some (with_rules c)"
proof -
  have z: "zero_file_config = with_rules zero_config"
    by (simp add: zero_file_config_def with_rules_def)
  have head: "members [(''version'', enc_int (cf_Version c)), (''listen'', JStr (cf_Listen c))] zero_config
      = Some (with_rules (zero_config\<lparr>cf_Version := cf_Version c, cf_Listen := cf_Listen c\<rparr>))"
    using assms by (simp add: member_simps config_int64_def int64_def)
  have "list_all int64 (cf_ConnectPorts c)" "int64 (cc_MaxSizeMiB (cf_Cache c))"
    "int64 (cc_MaxObjectMiB (cf_Cache c))"
    using assms by (simp_all add: config_int64_def)
  then show ?thesis
    unfolding z enc_config_def dec_struct_def json.case dec_members_append head
    by (simp add: member_clients member_targets member_control member_ports member_domains
        member_cache member_rules zero_config_def base_config_def) (cases c, simp)
qed

text \<open>A decoded configuration never listens on a bare port unless remote clients are allowed.\<close>

definition decodable :: "config \<Rightarrow> bool" where
  "decodable c \<longleftrightarrow> config_int64 c \<and> (cf_AllowRemoteClients c \<or> \<not> HasPrefix (cf_Listen c) '':'')"

lemma upgrade_plain: "decodable c \<Longrightarrow> upgrade (with_rules c) = Some c"
  by (auto simp: upgrade_def with_rules_def zero_file_config_def decodable_def custom_present_def Let_def)

lemma decode_config_doc: "decodable c \<Longrightarrow> decode (config_doc c) = Some c"
  by (simp add: decode_def config_doc_def single_value_def dec_config_roundtrip upgrade_plain
      decodable_def [of c])


section \<open>Decoded configurations\<close>

definition cache_int64 :: "cache_config \<Rightarrow> bool" where
  "cache_int64 k \<longleftrightarrow> int64 (cc_MaxSizeMiB k) \<and> int64 (cc_MaxObjectMiB k)"

lemma dec_cache_int64:
  "cache_int64 k \<Longrightarrow> dec_cache_field n j k = Some k' \<Longrightarrow> cache_int64 k'"
  by (auto simp: dec_cache_field_def cache_int64_def int64_def dest: dec_int_bounds split: if_splits)

lemma dec_config_int64:
  "cache_int64 (cf_Cache c) \<Longrightarrow> dec_config_field n j c = Some c' \<Longrightarrow> cache_int64 (cf_Cache c')"
proof -
  have inv: "\<forall>n j k k'. cache_int64 k \<longrightarrow> dec_cache_field n j k = Some k' \<longrightarrow> cache_int64 k'"
    using dec_cache_int64 by blast
  assume "cache_int64 (cf_Cache c)" "dec_config_field n j c = Some c'"
  then show ?thesis
    using dec_struct_inv [OF inv, of "cf_Cache c"] by (auto simp: dec_config_field_def split: if_splits)
qed

lemma dec_file_int64:
  "cache_int64 (cf_Cache (fc_Config f)) \<Longrightarrow> dec_file_field n j f = Some f' \<Longrightarrow> cache_int64 (cf_Cache (fc_Config f'))"
  by (auto simp: dec_file_field_def dest: dec_config_int64 split: if_splits)

lemma upgrade_cache: "upgrade f = Some c \<Longrightarrow> cf_Cache c = cf_Cache (fc_Config f)"
  by (auto simp: upgrade_def Let_def split: if_splits)

lemma decode_int64:
  assumes "decode d = Some c"
  shows "cache_int64 (cf_Cache c)"
proof -
  obtain j f where j: "dec_struct True config_names dec_file_field j zero_file_config = Some f"
    and u: "upgrade f = Some c"
    using assms by (auto simp: decode_def Option.bind_eq_Some_conv split: option.splits)
  have "cache_int64 (cf_Cache (fc_Config zero_file_config))"
    by (simp add: zero_file_config_def zero_config_def base_config_def zero_cache_def cache_int64_def
        int64_def min_int64_def max_int64_def)
  moreover have "\<forall>n j f f'. cache_int64 (cf_Cache (fc_Config f)) \<longrightarrow> dec_file_field n j f = Some f'
      \<longrightarrow> cache_int64 (cf_Cache (fc_Config f'))"
    using dec_file_int64 by blast
  ultimately have "cache_int64 (cf_Cache (fc_Config f))"
    using dec_struct_inv [of "\<lambda>f. cache_int64 (cf_Cache (fc_Config f))"] j by blast
  then show ?thesis using upgrade_cache [OF u] by simp
qed

lemma isLoopback_Nil: "\<not> isLoopback []"
  by (simp add: isLoopback_def str_simps)

lemma SplitHostPort_colon_hd:
  assumes "SplitHostPort ('':'' @ s) = Ok (h, p)"
  shows "h = []"
proof -
  obtain i where i: "LastIndexByte (CHR '':'' # s) (CHR '':'') = Some i"
    using LastIndexByte_None [of "CHR '':'' # s" "CHR '':''"] by auto
  then show ?thesis
    using assms by (cases i) (auto simp: SplitHostPort_def split_tail_def split: if_splits)
qed

text \<open>What passes validation for lemmingd can be written and read back.\<close>

lemma Validate_decodable:
  assumes "Validate c svc = None" "cache_int64 (cf_Cache c)"
  shows "decodable c"
proof -
  have "cf_Version c = 1" "\<forall>p \<in> set (cf_ConnectPorts c). 1 \<le> p \<and> p \<le> 65535"
    using assms(1) by (auto simp: Validate_def find_case_None not_less split: if_splits option.splits)
  then have i: "config_int64 c"
    using assms(2) by (auto simp: config_int64_def cache_int64_def int64_def list_all_iff min_int64_def max_int64_def)
  obtain h p where h: "SplitHostPort (cf_Listen c) = Ok (h, p)" "cf_AllowRemoteClients c \<or> isLoopback h"
    using Validate_None_listen [OF assms(1)] by metis
  have "cf_AllowRemoteClients c" if pre: "HasPrefix (cf_Listen c) '':''"
  proof -
    obtain r where "cf_Listen c = '':'' @ r" using pre by (auto simp: HasPrefix_iff)
    then have "h = []" using h(1) SplitHostPort_colon_hd by metis
    with h(2) isLoopback_Nil show ?thesis by simp
  qed
  with i show ?thesis by (auto simp: decodable_def)
qed

section \<open>Properties\<close>

text \<open>
  C14: The configuration file round trips: decoding what \<open>writeConfig\<close> writes for a valid
  configuration whose sizes are 64-bit integers gives that configuration back, rules included.
\<close>

theorem config_file_roundtrip:
  assumes "Validate c svc = None" "cache_int64 (cf_Cache c)"
  shows "decode (config_doc c) = Some c"
  using assms by (intro decode_config_doc Validate_decodable)

lemma config_file_roundtrip_witness:
  "decode (config_doc ((Default Lemmingd [])\<lparr>cf_ControlAPI := True, cf_Rules := [\<lparr>rr_Target = ''[::1]:80'',
      rr_Domains = [''b.test''], rr_Include = [''/''], rr_Exclude = [''/x'']\<rparr>]\<rparr>)) =
   Some ((Default Lemmingd [])\<lparr>cf_ControlAPI := True, cf_Rules := [\<lparr>rr_Target = ''[::1]:80'',
      rr_Domains = [''b.test''], rr_Include = [''/''], rr_Exclude = [''/x'']\<rparr>]\<rparr>)"
  by (rule config_file_roundtrip [where svc = Lemmingd]) code_simp+

lemma Validate_Default:
  assumes "svc = Hamsterd \<or> svc = Lemmingd"
  shows "Validate (Default svc dir) svc = None"
proof -
  have "validateListen ''127.0.0.1:8080'' False = None" "validateListen ''127.0.0.1:18080'' False = None"
    "ParseDuration ''1h'' \<noteq> None" "Lemmingd \<noteq> Hamsterd"
    by code_simp+
  then show ?thesis
    using assms by (auto simp: Validate_def validate_hamsterd_def Default_def base_config_def default_cache_def)
qed

lemma cache_int64_Default: "cache_int64 (cf_Cache (Default svc dir))"
  by (simp add: Default_def base_config_def default_cache_def zero_cache_def cache_int64_def int64_def
      min_int64_def max_int64_def)

lemma fill_defaults_Default: "fill_defaults svc dir (Default svc dir) = Default svc dir"
  by (simp add: fill_defaults_def Default_def Let_def)

text \<open>
  C15: Both services only ever start on a valid configuration: whatever \<open>LoadOrCreate\<close> returns
  passes \<open>Validate\<close>, whether it was read or created; and after creating a file, starting
  again reads back the configuration that was created.
\<close>

theorem LoadOrCreate_valid:
  assumes "svc = Hamsterd \<or> svc = Lemmingd" "fs tmp = None" "tmp \<noteq> path"
    and "LoadOrCreate rd tmp part fail path svc dir fs = (Ok (c, created), fs')"
  shows "Validate c svc = None \<and>
    (created \<longrightarrow> fs path = None \<and> LoadOrCreate (\<lambda>_. True) tmp part fail path svc dir fs' = (Ok (c, False), fs')) \<and>
    (\<not> created \<longrightarrow> fs' = fs)"
proof (cases "readPrivate rd path fs")
  case (Inr data)
  then show ?thesis
    using assms(4) by (auto simp: LoadOrCreate_def Let_def split: option.splits)
next
  case (Inl e)
  show ?thesis
  proof (cases e)
    case NotExist
    then have none: "fs path = None" using Inl by (auto simp: readPrivate_def split: option.splits if_splits)
    have c: "c = Default svc dir" "created" "fail = None"
      "fs' = after_write (write_atomic tmp part None path (config_doc c) 384 fs)"
      using assms(4) Inl NotExist
      by (auto simp: LoadOrCreate_def Let_def writeConfig_def after_write_def split: option.splits config_step.splits)
    have v: "Validate c svc = None" using Validate_Default [OF assms(1)] c(1) by simp
    then have "decode (config_doc c) = Some c"
      using cache_int64_Default c(1) by (intro decode_config_doc Validate_decodable) auto
    moreover have "fs' path = Some \<lparr>file_data = config_doc c, file_perm = 384, file_regular = True\<rparr>"
      using c write_atomic_final [of fs tmp path] assms(2,3) by simp
    ultimately have "LoadOrCreate (\<lambda>_. True) tmp part fail path svc dir fs' = (Ok (c, False), fs')"
      using v c(1) by (simp add: LoadOrCreate_def readPrivate_def checkPrivate_def fill_defaults_Default Let_def)
    with v none c(2) show ?thesis by simp
  qed (use Inl assms(4) in \<open>simp_all add: LoadOrCreate_def\<close>)
qed

lemma LoadOrCreate_valid_witness:
  "\<exists>fs'. LoadOrCreate (\<lambda>_. True) ''t'' ([], True) None ''c'' Hamsterd ''/cache'' (\<lambda>_. None) =
      (Ok (Default Hamsterd ''/cache'', True), fs') \<and>
    LoadOrCreate (\<lambda>_. True) ''t'' ([], True) None ''c'' Hamsterd ''/cache'' fs' = (Ok (Default Hamsterd ''/cache'', False), fs')"
proof -
  have "\<exists>fs'. LoadOrCreate (\<lambda>_. True) ''t'' ([], True) None ''c'' Hamsterd ''/cache'' (\<lambda>_. None) =
      (Ok (Default Hamsterd ''/cache'', True), fs')"
    by (simp add: LoadOrCreate_def readPrivate_def writeConfig_def Let_def)
  then obtain fs' where w: "LoadOrCreate (\<lambda>_. True) ''t'' ([], True) None ''c'' Hamsterd ''/cache'' (\<lambda>_. None) =
      (Ok (Default Hamsterd ''/cache'', True), fs')" ..
  show ?thesis
    using LoadOrCreate_valid [OF disjI1 [OF refl] _ _ w] w by (intro exI [of _ fs']) simp
qed

text \<open>
  Replacing a configuration is atomic: in every state the file system goes through, with any
  call failing and the process stopping anywhere, the path holds the old file or the whole
  new one, private to its owner, and no file but the temporary one is touched.
\<close>

theorem writeConfig_atomic:
  assumes "tmp \<noteq> path"
  shows "list_all (\<lambda>s. (s path = fs path \<or>
      s path = Some \<lparr>file_data = config_doc c, file_perm = 384, file_regular = True\<rparr>) \<and>
    (\<forall>q. q \<noteq> tmp \<longrightarrow> q \<noteq> path \<longrightarrow> s q = fs q)) (fst (writeConfig tmp part fail path c fs))"
  unfolding list_all_iff
proof (intro ballI conjI allI impI)
  fix s
  assume "s \<in> set (fst (writeConfig tmp part fail path c fs))"
  then have cases: "s = fs \<or> (\<exists>st. s \<in> set (fst (write_atomic tmp part st path (config_doc c) 384 fs)))"
    by (auto simp: writeConfig_def split: option.splits config_step.splits)
  then show "s path = fs path \<or> s path = Some \<lparr>file_data = config_doc c, file_perm = 384, file_regular = True\<rparr>"
    by (auto dest: write_atomic_states [OF assms])
  fix q
  assume q: "q \<noteq> tmp" "q \<noteq> path"
  show "s q = fs q" using cases by (auto dest: write_atomic_frame [OF q])
qed

lemma writeConfig_atomic_witness:
  "list_all (\<lambda>s. s ''c'' = None \<or> s ''c'' = Some \<lparr>file_data = config_doc (Default Lemmingd []), file_perm = 384, file_regular = True\<rparr>)
     (fst (writeConfig ''t'' ([], False) (Some (FileStep WriteTemp)) ''c'' (Default Lemmingd []) (\<lambda>_. None)))"
proof -
  have "''t'' \<noteq> ''c''" by simp
  from writeConfig_atomic [OF this, of "\<lambda>_. None"] show ?thesis by (simp add: list_all_iff)
qed

end
