(* ===== verification/Redirect.thy ===== *)
theory Redirect
  imports Config GoHttp
begin

text \<open>
  \<open>internal/redirect/redirect.go\<close>: the table from browser-visible hosts to routing rules.
  The Go map is an association list with one entry per host, in the order of insertion; the
  code sorts whatever it collects by ranging over the map, so the order is not observable.
  The locale \<open>host_table\<close> is the interface of such a table; the router is built against it.
\<close>

section \<open>Data\<close>

record rule =
  rl_Scheme :: string
  rl_Target :: string
  rl_Include :: "string list"
  rl_Exclude :: "string list"

record router = hosts :: "(string \<times> rule) list"

datatype router_error = RouterTarget target_error | DuplicateDomain string

section \<open>Building a router\<close>

definition normalizeHost :: "string \<Rightarrow> string" where
  "normalizeHost hostPort =
     (let hp = TrimSuffix (ToLower (TrimSpace hostPort)) ''.''
      in case SplitHostPort hp of
           Ok (host, _) \<Rightarrow> TrimSuffix (ToLower host) ''.''
         | Err _ \<Rightarrow> hp)"

definition empty_router :: router where
  "empty_router = \<lparr>hosts = []\<rparr>"

definition host_rule :: "router \<Rightarrow> string \<Rightarrow> rule option" where
  "host_rule r h = map_of (hosts r) h"

definition add_host :: "string \<Rightarrow> rule \<Rightarrow> router \<Rightarrow> router" where
  "add_host h rule r = r\<lparr>hosts := hosts r @ [(h, rule)]\<rparr>"

fun add_domains :: "rule \<Rightarrow> string list \<Rightarrow> router \<Rightarrow> (router_error, router) result" where
  "add_domains rule [] r = Ok r"
| "add_domains rule (d # ds) r =
     (let host = normalizeHost d
      in if host_rule r host \<noteq> None then Err (DuplicateDomain d)
         else add_domains rule ds (add_host host rule r))"

definition rule_of :: "redirect_rule \<Rightarrow> target \<Rightarrow> rule" where
  "rule_of src t = \<lparr>rl_Scheme = tg_Scheme t, rl_Target = tg_Address t,
     rl_Include = rr_Include src, rl_Exclude = rr_Exclude src\<rparr>"

fun add_rules :: "redirect_rule list \<Rightarrow> router \<Rightarrow> (router_error, router) result" where
  "add_rules [] r = Ok r"
| "add_rules (src # srcs) r =
     (case ParseTarget (rr_Target src) of
        Err e \<Rightarrow> Err (RouterTarget e)
      | Ok t \<Rightarrow>
          (case add_domains (rule_of src t) (rr_Domains src) r of
             Err e \<Rightarrow> Err e
           | Ok r' \<Rightarrow> add_rules srcs r'))"

definition New :: "redirect_rule list \<Rightarrow> (router_error, router) result" where
  "New rules = add_rules rules empty_router"

section \<open>Listings\<close>

definition Domains :: "router \<Rightarrow> string list" where
  "Domains r = sort (map fst (hosts r))"

fun collect :: "('a \<Rightarrow> string option) \<Rightarrow> 'a list \<Rightarrow> string list \<Rightarrow> string list" where
  "collect f [] acc = acc"
| "collect f (x # xs) acc =
     (case f x of
        Some t \<Rightarrow> collect f xs (if t \<in> set acc then acc else acc @ [t])
      | None \<Rightarrow> collect f xs acc)"

definition Targets :: "router \<Rightarrow> string list" where
  "Targets r = sort (collect (\<lambda>(_, rule). Some (rl_Target rule)) (hosts r) [])"

definition PlaintextRemoteTargets :: "router \<Rightarrow> string list" where
  "PlaintextRemoteTargets r = sort (collect (\<lambda>(_, rule).
     if rl_Scheme rule = ''http''
        \<and> \<not> Loopback \<lparr>tg_Scheme = rl_Scheme rule, tg_Address = rl_Target rule, tg_Explicit = False\<rparr>
     then Some (rl_Target rule) else None) (hosts r) [])"

section \<open>Routing\<close>

fun has_prefix_in :: "string \<Rightarrow> string list \<Rightarrow> bool" where
  "has_prefix_in path [] = False"
| "has_prefix_in path (p # ps) = (if HasPrefix path p then True else has_prefix_in path ps)"

definition matches :: "string \<Rightarrow> rule \<Rightarrow> bool" where
  "matches path rule =
     (if has_prefix_in path (rl_Exclude rule) then False else has_prefix_in path (rl_Include rule))"

definition zero_rule :: rule where
  "zero_rule = \<lparr>rl_Scheme = [], rl_Target = [], rl_Include = [], rl_Exclude = []\<rparr>"

definition Lookup :: "router \<Rightarrow> string \<Rightarrow> string \<Rightarrow> rule \<times> bool \<times> bool" where
  "Lookup r hostPort path =
     (case host_rule r (normalizeHost hostPort) of
        None \<Rightarrow> (zero_rule, False, False)
      | Some rule \<Rightarrow> (rule, True, matches path rule))"

definition Intercepts :: "router \<Rightarrow> string \<Rightarrow> bool" where
  "Intercepts r hostPort \<longleftrightarrow> host_rule r (normalizeHost hostPort) \<noteq> None"

text \<open>\<open>Rewrite\<close> is called with a request that has a URL; \<open>u\<close> is \<open>*request.URL\<close>.\<close>

definition request_rule :: "router \<Rightarrow> request \<Rightarrow> url \<Rightarrow> rule option" where
  "request_rule r request u =
     (case host_rule r (normalizeHost (url_host u)) of
        Some rule \<Rightarrow> Some rule
      | None \<Rightarrow> host_rule r (normalizeHost (req_host request)))"

definition Rewrite :: "router \<Rightarrow> request \<Rightarrow> url \<Rightarrow> request \<times> bool" where
  "Rewrite r request u =
     (case request_rule r request u of
        None \<Rightarrow> (request, False)
      | Some rule \<Rightarrow>
          if \<not> matches (url_path u) rule then (request, False)
          else (request\<lparr>req_url := Some (u\<lparr>url_scheme := rl_Scheme rule, url_host := rl_Target rule\<rparr>),
                  req_host := (if req_host request = [] then url_host u else req_host request)\<rparr>, True))"

section \<open>The interface of a host table\<close>

locale host_table =
  fixes empty :: "'m"
    and insert :: "string \<Rightarrow> 'v \<Rightarrow> 'm \<Rightarrow> 'm"
    and lookup :: "'m \<Rightarrow> string \<Rightarrow> 'v option"
    and keys :: "'m \<Rightarrow> string list"
  assumes lookup_empty: "lookup empty k = None"
    and lookup_insert: "lookup m k = None \<Longrightarrow> lookup (insert k v m) j = (if j = k then Some v else lookup m j)"
    and keys_empty: "keys empty = []"
    and keys_insert: "lookup m k = None \<Longrightarrow> keys (insert k v m) = keys m @ [k]"
begin

text \<open>Inserting pairs with pairwise different new keys gives exactly these pairs.\<close>

lemma lookup_fold_insert:
  "distinct (map fst kvs) \<Longrightarrow> \<forall>k \<in> set (map fst kvs). lookup m k = None \<Longrightarrow>
   lookup (fold (\<lambda>(k, v). insert k v) kvs m) j =
     (case map_of kvs j of Some v \<Rightarrow> Some v | None \<Rightarrow> lookup m j)"
proof (induction kvs arbitrary: m)
  case Nil
  then show ?case by simp
next
  case (Cons kv kvs)
  obtain k v where kv: "kv = (k, v)" by (cases kv)
  have fresh: "lookup m k = None" using Cons.prems kv by simp
  have "\<forall>i \<in> set (map fst kvs). lookup (insert k v m) i = None"
    using Cons.prems kv fresh by (auto simp: lookup_insert)
  then have "lookup (fold (\<lambda>(k, v). insert k v) kvs (insert k v m)) j =
      (case map_of kvs j of Some w \<Rightarrow> Some w | None \<Rightarrow> lookup (insert k v m) j)"
    using Cons.prems kv by (intro Cons.IH) auto
  moreover have "j = k \<Longrightarrow> map_of kvs j = None"
    using Cons.prems kv by (auto simp: map_of_eq_None_iff)
  ultimately show ?case
    using kv fresh by (auto simp: lookup_insert split: option.splits)
qed

lemma keys_fold_insert:
  "distinct (map fst kvs) \<Longrightarrow> \<forall>k \<in> set (map fst kvs). lookup m k = None \<Longrightarrow>
   keys (fold (\<lambda>(k, v). insert k v) kvs m) = keys m @ map fst kvs"
proof (induction kvs arbitrary: m)
  case Nil
  then show ?case by simp
next
  case (Cons kv kvs)
  obtain k v where kv: "kv = (k, v)" by (cases kv)
  have fresh: "lookup m k = None" using Cons.prems kv by simp
  have "\<forall>i \<in> set (map fst kvs). lookup (insert k v m) i = None"
    using Cons.prems kv fresh by (auto simp: lookup_insert)
  then show ?case
    using Cons.IH [of "insert k v m"] Cons.prems kv fresh by (simp add: keys_insert)
qed

lemma lookup_table:
  assumes "distinct (map fst kvs)"
  shows "lookup (fold (\<lambda>(k, v). insert k v) kvs empty) = map_of kvs"
  using lookup_fold_insert [OF assms, of empty] by (auto simp: lookup_empty fun_eq_iff split: option.splits)

lemma keys_table:
  assumes "distinct (map fst kvs)"
  shows "keys (fold (\<lambda>(k, v). insert k v) kvs empty) = map fst kvs"
  using keys_fold_insert [OF assms, of empty] by (simp add: lookup_empty keys_empty)

end

interpretation rt: host_table empty_router add_host host_rule "\<lambda>r. map fst (hosts r)"
  by unfold_locales (auto simp: empty_router_def add_host_def host_rule_def map_add_def
      split: option.splits)

section \<open>The router of a rule list\<close>

text \<open>The table a rule list describes: one pair per domain, in order.\<close>

definition rule_pairs :: "redirect_rule \<Rightarrow> (string \<times> rule) list" where
  "rule_pairs src = (case ParseTarget (rr_Target src) of
     Err _ \<Rightarrow> []
   | Ok t \<Rightarrow> map (\<lambda>d. (normalizeHost d, rule_of src t)) (rr_Domains src))"

definition all_pairs :: "redirect_rule list \<Rightarrow> (string \<times> rule) list" where
  "all_pairs rules = concat (map rule_pairs rules)"

definition rule_hosts :: "redirect_rule list \<Rightarrow> string list" where
  "rule_hosts rules = concat (map (\<lambda>r. map normalizeHost (rr_Domains r)) rules)"

lemma add_domains_Ok:
  "distinct (map normalizeHost ds) \<Longrightarrow> \<forall>d \<in> set ds. host_rule r (normalizeHost d) = None \<Longrightarrow>
   add_domains rule ds r = Ok (fold (\<lambda>(k, v). add_host k v) (map (\<lambda>d. (normalizeHost d, rule)) ds) r)"
proof (induction ds arbitrary: r)
  case Nil
  then show ?case by simp
next
  case (Cons d ds)
  have "\<forall>e \<in> set ds. host_rule (add_host (normalizeHost d) rule r) (normalizeHost e) = None"
    using Cons.prems by (auto simp: rt.lookup_insert) (metis imageI)
  then show ?case using Cons by simp
qed

lemma host_rule_fold:
  "distinct (map fst kvs) \<Longrightarrow> \<forall>k \<in> set (map fst kvs). host_rule m k = None \<Longrightarrow>
   host_rule (fold (\<lambda>(k, v). add_host k v) kvs m) j = None \<longleftrightarrow> host_rule m j = None \<and> j \<notin> set (map fst kvs)"
  using rt.lookup_fold_insert [of kvs m j] map_of_eq_None_iff [of kvs j]
  by (cases "map_of kvs j") auto

lemma add_rules_Ok:
  "\<forall>src \<in> set srcs. \<exists>t. ParseTarget (rr_Target src) = Ok t \<Longrightarrow> distinct (rule_hosts srcs) \<Longrightarrow>
   \<forall>h \<in> set (rule_hosts srcs). host_rule r h = None \<Longrightarrow>
   add_rules srcs r = Ok (fold (\<lambda>(k, v). add_host k v) (all_pairs srcs) r)"
proof (induction srcs arbitrary: r)
  case Nil
  then show ?case by (simp add: all_pairs_def)
next
  case (Cons src srcs)
  obtain t where t: "ParseTarget (rr_Target src) = Ok t" using Cons.prems by auto
  let ?kvs = "map (\<lambda>d. (normalizeHost d, rule_of src t)) (rr_Domains src)"
  let ?r = "fold (\<lambda>(k, v). add_host k v) ?kvs r"
  have dom: "add_domains (rule_of src t) (rr_Domains src) r = Ok ?r"
    using Cons.prems by (intro add_domains_Ok) (auto simp: rule_hosts_def)
  have fst: "map fst ?kvs = map normalizeHost (rr_Domains src)" by (simp add: comp_def)
  have disj: "set (rule_hosts srcs) \<inter> set (map fst ?kvs) = {}"
    and dist: "distinct (map fst ?kvs)"
    using Cons.prems(2) unfolding fst by (simp_all add: rule_hosts_def Int_commute)
  have none: "\<forall>k \<in> set (map fst ?kvs). host_rule r k = None" "\<forall>h \<in> set (rule_hosts srcs). host_rule r h = None"
    using Cons.prems(3) unfolding fst by (auto simp: rule_hosts_def)
  have "\<forall>h \<in> set (rule_hosts srcs). host_rule ?r h = None"
    using host_rule_fold [OF dist none(1)] none(2) disj by blast
  then have "add_rules srcs ?r = Ok (fold (\<lambda>(k, v). add_host k v) (all_pairs srcs) ?r)"
    using Cons.prems by (intro Cons.IH) (auto simp: rule_hosts_def)
  then show ?case using t dom by (simp add: all_pairs_def rule_pairs_def)
qed

lemma rule_hosts_pairs:
  "\<forall>src \<in> set srcs. \<exists>t. ParseTarget (rr_Target src) = Ok t \<Longrightarrow> map fst (all_pairs srcs) = rule_hosts srcs"
  by (induction srcs) (auto simp: all_pairs_def rule_pairs_def rule_hosts_def)

lemma New_Ok:
  assumes "\<forall>src \<in> set srcs. \<exists>t. ParseTarget (rr_Target src) = Ok t" "distinct (rule_hosts srcs)"
  shows "\<exists>r. New srcs = Ok r \<and> host_rule r = map_of (all_pairs srcs) \<and> map fst (hosts r) = rule_hosts srcs"
proof -
  have "add_rules srcs empty_router = Ok (fold (\<lambda>(k, v). add_host k v) (all_pairs srcs) empty_router)"
    using assms by (intro add_rules_Ok) (auto simp: rt.lookup_empty)
  moreover have "distinct (map fst (all_pairs srcs))"
    using assms rule_hosts_pairs by simp
  ultimately show ?thesis
    using rt.lookup_table [of "all_pairs srcs"] rt.keys_table [of "all_pairs srcs"] rule_hosts_pairs [OF assms(1)]
    by (auto simp: New_def)
qed


lemma add_domains_OkD:
  "add_domains rule ds r = Ok r' \<Longrightarrow>
   distinct (map normalizeHost ds) \<and> (\<forall>d \<in> set ds. host_rule r (normalizeHost d) = None)"
proof (induction ds arbitrary: r)
  case Nil
  then show ?case by simp
next
  case (Cons d ds)
  have none: "host_rule r (normalizeHost d) = None"
    and rec: "add_domains rule ds (add_host (normalizeHost d) rule r) = Ok r'"
    using Cons.prems by (auto simp: Let_def split: if_splits)
  have all: "distinct (map normalizeHost ds)"
    "\<forall>e \<in> set ds. host_rule (add_host (normalizeHost d) rule r) (normalizeHost e) = None"
    using Cons.IH [OF rec] by auto
  then have "\<forall>e \<in> set ds. normalizeHost e \<noteq> normalizeHost d \<and> host_rule r (normalizeHost e) = None"
    using none by (auto simp: rt.lookup_insert split: if_splits)
  with all none show ?case by auto
qed

lemma add_rules_OkD:
  "add_rules srcs r = Ok r' \<Longrightarrow>
   (\<forall>src \<in> set srcs. \<exists>t. ParseTarget (rr_Target src) = Ok t) \<and> distinct (rule_hosts srcs)
   \<and> (\<forall>h \<in> set (rule_hosts srcs). host_rule r h = None)"
proof (induction srcs arbitrary: r)
  case Nil
  then show ?case by (simp add: rule_hosts_def)
next
  case (Cons src srcs)
  obtain t r1 where t: "ParseTarget (rr_Target src) = Ok t"
    and dom: "add_domains (rule_of src t) (rr_Domains src) r = Ok r1"
    and rec: "add_rules srcs r1 = Ok r'"
    using Cons.prems by (auto split: sum.splits)
  let ?kvs = "map (\<lambda>d. (normalizeHost d, rule_of src t)) (rr_Domains src)"
  have d: "distinct (map normalizeHost (rr_Domains src))"
    "\<forall>d \<in> set (rr_Domains src). host_rule r (normalizeHost d) = None"
    using add_domains_OkD [OF dom] by auto
  have r1: "r1 = fold (\<lambda>(k, v). add_host k v) ?kvs r"
    using dom add_domains_Ok [OF d] by simp
  have fst: "map fst ?kvs = map normalizeHost (rr_Domains src)" by (simp add: comp_def)
  have "distinct (map fst ?kvs)" "\<forall>k \<in> set (map fst ?kvs). host_rule r k = None"
    using d unfolding fst by auto
  then have none: "\<And>j. host_rule r1 j = None \<longleftrightarrow> host_rule r j = None \<and> j \<notin> set (map normalizeHost (rr_Domains src))"
    using host_rule_fold [of ?kvs r] unfolding r1 fst by blast
  have IH: "\<forall>src \<in> set srcs. \<exists>t. ParseTarget (rr_Target src) = Ok t" "distinct (rule_hosts srcs)"
    "\<forall>h \<in> set (rule_hosts srcs). host_rule r1 h = None"
    using Cons.IH [OF rec] by auto
  have split: "rule_hosts (src # srcs) = map normalizeHost (rr_Domains src) @ rule_hosts srcs"
    by (simp add: rule_hosts_def)
  show ?case
    unfolding split using IH none d t by auto
qed

text \<open>\<open>New\<close> succeeds exactly on rules whose targets parse and whose hosts are all different.\<close>

lemma New_iff:
  "(\<exists>r. New srcs = Ok r) \<longleftrightarrow>
   (\<forall>src \<in> set srcs. \<exists>t. ParseTarget (rr_Target src) = Ok t) \<and> distinct (rule_hosts srcs)"
  using New_Ok [of srcs] add_rules_OkD [of srcs empty_router] by (auto simp: New_def)

lemma New_table:
  assumes "New srcs = Ok r"
  shows "host_rule r = map_of (all_pairs srcs)" "map fst (hosts r) = rule_hosts srcs"
    "distinct (rule_hosts srcs)"
  using New_Ok [of srcs] New_iff [of srcs] assms by auto

lemma New_host_rule:
  assumes "New srcs = Ok r" "src \<in> set srcs" "d \<in> set (rr_Domains src)" "ParseTarget (rr_Target src) = Ok t"
  shows "host_rule r (normalizeHost d) = Some (rule_of src t)"
proof -
  have p: "\<forall>src \<in> set srcs. \<exists>t. ParseTarget (rr_Target src) = Ok t"
    using assms(1) New_iff by blast
  have "(normalizeHost d, rule_of src t) \<in> set (all_pairs srcs)"
    using assms by (force simp: all_pairs_def rule_pairs_def)
  moreover have "distinct (map fst (all_pairs srcs))"
    using rule_hosts_pairs [OF p] New_table [OF assms(1)] by simp
  ultimately show ?thesis using New_table(1) [OF assms(1)] by (metis map_of_is_SomeI)
qed

lemma New_host_rule_cases:
  assumes "New srcs = Ok r" "host_rule r h = Some rule"
  obtains src t d where "src \<in> set srcs" "d \<in> set (rr_Domains src)" "h = normalizeHost d"
    "ParseTarget (rr_Target src) = Ok t" "rule = rule_of src t"
proof -
  have "(h, rule) \<in> set (all_pairs srcs)"
    using assms New_table(1) [OF assms(1)] by (metis map_of_SomeD)
  then obtain src where src: "src \<in> set srcs" "(h, rule) \<in> set (rule_pairs src)"
    by (auto simp: all_pairs_def)
  then obtain t where "ParseTarget (rr_Target src) = Ok t"
    by (cases "ParseTarget (rr_Target src)") (auto simp: rule_pairs_def)
  with src that show ?thesis by (auto simp: rule_pairs_def)
qed

section \<open>Facts about routing and listings\<close>

lemma has_prefix_in_iff: "has_prefix_in path ps \<longleftrightarrow> (\<exists>p \<in> set ps. HasPrefix path p)"
  by (induction ps) auto

lemma matches_iff:
  "matches path rule \<longleftrightarrow> (\<exists>p \<in> set (rl_Include rule). HasPrefix path p) \<and> \<not> (\<exists>p \<in> set (rl_Exclude rule). HasPrefix path p)"
  by (auto simp: matches_def has_prefix_in_iff)

lemma set_collect: "set (collect f xs acc) = set acc \<union> {t. \<exists>x \<in> set xs. f x = Some t}"
  by (induction f xs acc rule: collect.induct) (auto split: option.splits if_splits)

lemma distinct_collect: "distinct acc \<Longrightarrow> distinct (collect f xs acc)"
  by (induction f xs acc rule: collect.induct) (auto split: option.splits)

lemma set_Targets: "set (Targets r) = rl_Target ` snd ` set (hosts r)"
  by (auto simp: Targets_def set_collect image_iff split_beta)

lemma set_Domains: "set (Domains r) = fst ` set (hosts r)"
  by (simp add: Domains_def)

lemma host_rule_Targets: "host_rule r h = Some rule \<Longrightarrow> rl_Target rule \<in> set (Targets r)"
  by (auto simp: host_rule_def set_Targets image_iff dest!: map_of_SomeD) force

lemma host_rule_Domains: "host_rule r h = Some rule \<Longrightarrow> h \<in> set (Domains r)"
  by (auto simp: host_rule_def set_Domains image_iff dest!: map_of_SomeD) force

lemma normalizeHost_domain:
  "validDomain (NormalizeDomain d) \<Longrightarrow> normalizeHost d = NormalizeDomain d"
  using validDomain_not_hostport [of "NormalizeDomain d"]
  by (auto simp: normalizeHost_def NormalizeDomain_def Let_def)

section \<open>Properties\<close>

text \<open>
  \<open>New\<close> succeeds exactly on rule lists whose targets all parse and whose domains are all
  different after normalisation.
\<close>

theorem New_succeeds_iff:
  "(\<exists>r. New srcs = Ok r) \<longleftrightarrow>
     list_all (\<lambda>src. \<exists>t. ParseTarget (rr_Target src) = Ok t) srcs \<and> distinct (rule_hosts srcs)"
  by (simp add: New_iff list_all_iff)

text \<open>
  C13: The router decides as its rule list says: a host is intercepted iff it is, up to case, port
  and trailing dot, a domain of some rule; the rule found is that rule with its parsed target; and
  a path is routed iff it has an include prefix and no exclude prefix of it.
\<close>

theorem Lookup_decides:
  assumes "New rules = Ok r" "Lookup r hostPort path = (rule, intercepted, routed)"
  shows "(intercepted \<longleftrightarrow> normalizeHost hostPort \<in> set (rule_hosts rules)) \<and>
    (intercepted \<longrightarrow> (\<exists>src t. src \<in> set rules \<and> normalizeHost hostPort \<in> set (map normalizeHost (rr_Domains src)) \<and>
       ParseTarget (rr_Target src) = Ok t \<and> rule = rule_of src t \<and>
       (routed \<longleftrightarrow> (\<exists>p \<in> set (rr_Include src). HasPrefix path p) \<and> \<not> (\<exists>p \<in> set (rr_Exclude src). HasPrefix path p)))) \<and>
    (routed \<longrightarrow> intercepted)"
proof (cases "host_rule r (normalizeHost hostPort)")
  case None
  then have "normalizeHost hostPort \<notin> set (rule_hosts rules)"
    using New_table(2) [OF assms(1), symmetric] by (simp add: host_rule_def map_of_eq_None_iff)
  with None assms(2) show ?thesis by (simp add: Lookup_def)
next
  case (Some w)
  then have w: "rule = w" "intercepted" "routed = matches path w"
    using assms(2) by (auto simp: Lookup_def)
  obtain src t d where src: "src \<in> set rules" "d \<in> set (rr_Domains src)" "normalizeHost hostPort = normalizeHost d"
    "ParseTarget (rr_Target src) = Ok t" "w = rule_of src t"
    using New_host_rule_cases [OF assms(1) Some] .
  then have "normalizeHost hostPort \<in> set (rule_hosts rules)" by (auto simp: rule_hosts_def)
  moreover have "matches path w \<longleftrightarrow> (\<exists>p \<in> set (rr_Include src). HasPrefix path p) \<and> \<not> (\<exists>p \<in> set (rr_Exclude src). HasPrefix path p)"
    using src by (simp add: matches_iff rule_of_def)
  ultimately show ?thesis using w src by auto
qed

definition example_rules :: "redirect_rule list" where
  "example_rules =
     [\<lparr>rr_Target = ''127.0.0.1:81'', rr_Domains = [''App.test''], rr_Include = [''/''], rr_Exclude = [''/api'']\<rparr>,
      \<lparr>rr_Target = ''https://localhost:443'', rr_Domains = [''b.test''], rr_Include = [''/v1''], rr_Exclude = []\<rparr>]"

lemma New_example: "\<exists>r. New example_rules = Ok r \<and> host_rule r ''app.test'' = Some
    \<lparr>rl_Scheme = ''http'', rl_Target = ''127.0.0.1:81'', rl_Include = [''/''], rl_Exclude = [''/api'']\<rparr>"
proof -
  have "map_option (\<lambda>r. host_rule r ''app.test'') (case New example_rules of Ok r \<Rightarrow> Some r | Err _ \<Rightarrow> None) =
    Some (Some \<lparr>rl_Scheme = ''http'', rl_Target = ''127.0.0.1:81'', rl_Include = [''/''], rl_Exclude = [''/api'']\<rparr>)"
    by code_simp
  then show ?thesis by (auto split: sum.splits)
qed

lemma Lookup_decides_witness:
  "\<exists>r rule routed. New example_rules = Ok r \<and> Lookup r ''APP.test.:443'' ''/api/x'' = (rule, True, routed) \<and>
     (\<exists>src t. src \<in> set example_rules \<and> ParseTarget (rr_Target src) = Ok t \<and> rule = rule_of src t)"
proof -
  obtain r where r: "New example_rules = Ok r" using New_example by blast
  obtain rule i routed where l: "Lookup r ''APP.test.:443'' ''/api/x'' = (rule, i, routed)"
    by (metis prod_cases3)
  have "normalizeHost ''APP.test.:443'' \<in> set (rule_hosts example_rules)" by code_simp
  with Lookup_decides [OF r l] have i "\<exists>src t. src \<in> set example_rules \<and> ParseTarget (rr_Target src) = Ok t \<and> rule = rule_of src t"
    by auto
  with r l show ?thesis by auto
qed

text \<open>
  C2: With rules validated without allow_remote_targets, a rewritten request is sent to a
  loopback address only; its path, method, headers and browser-visible Host are those of the
  original request. A request that is not rewritten is returned as it is.
\<close>

theorem Rewrite_stays_local:
  assumes "New rules = Ok r" "\<forall>src \<in> set rules. ValidateRule src False = None"
    and "Rewrite r request u = (request', changed)"
  shows "(\<not> changed \<longrightarrow> request' = request) \<and>
    (changed \<longrightarrow> (\<exists>u'. req_url request' = Some u' \<and>
       Loopback \<lparr>tg_Scheme = url_scheme u', tg_Address = url_host u', tg_Explicit = False\<rparr> \<and>
       url_scheme u' \<in> {''http'', ''https''} \<and> url_path u' = url_path u \<and>
       req_method request' = req_method request \<and> req_header request' = req_header request \<and>
       req_host request' = (if req_host request = [] then url_host u else req_host request)))"
proof (cases "request_rule r request u")
  case None
  with assms(3) show ?thesis by (simp add: Rewrite_def)
next
  case (Some rule)
  then obtain h where "host_rule r h = Some rule"
    by (auto simp: request_rule_def split: option.splits)
  then obtain src t where src: "src \<in> set rules" "ParseTarget (rr_Target src) = Ok t" "rule = rule_of src t"
    using New_host_rule_cases [OF assms(1)] by metis
  then have "Loopback t" using assms(2) by (auto simp: ValidateRule_None)
  then have "Loopback \<lparr>tg_Scheme = tg_Scheme t, tg_Address = tg_Address t, tg_Explicit = False\<rparr>"
    by (simp add: Loopback_def)
  moreover have "tg_Scheme t \<in> {''http'', ''https''}"
    using ParseTarget_good [OF src(2)] by (simp add: good_target_def)
  ultimately show ?thesis
    using assms(3) Some src(3) by (auto simp: Rewrite_def rule_of_def split: if_splits)
qed

lemma Rewrite_stays_local_witness:
  "\<exists>r u'. New example_rules = Ok r \<and>
     req_url (fst (Rewrite r \<lparr>req_method = ''GET'', req_url = None, req_host = ''app.test'', req_header = []\<rparr>
       \<lparr>url_scheme = ''https'', url_user = False, url_host = ''app.test:443'', url_path = ''/x'', url_query = [], url_fragment = []\<rparr>)) = Some u' \<and>
     Loopback \<lparr>tg_Scheme = url_scheme u', tg_Address = url_host u', tg_Explicit = False\<rparr>"
proof -
  let ?req = "\<lparr>req_method = ''GET'', req_url = None, req_host = ''app.test'', req_header = []\<rparr>"
  let ?u = "\<lparr>url_scheme = ''https'', url_user = False, url_host = ''app.test:443'', url_path = ''/x'', url_query = [], url_fragment = []\<rparr>"
  obtain r where r: "New example_rules = Ok r" "host_rule r ''app.test'' = Some
    \<lparr>rl_Scheme = ''http'', rl_Target = ''127.0.0.1:81'', rl_Include = [''/''], rl_Exclude = [''/api'']\<rparr>"
    using New_example by blast
  have v: "\<forall>src \<in> set example_rules. ValidateRule src False = None" by code_simp
  have n: "normalizeHost ''app.test:443'' = ''app.test''" by code_simp
  have "snd (Rewrite r ?req ?u)"
    by (simp add: Rewrite_def request_rule_def n r(2) matches_iff str_simps)
  with Rewrite_stays_local [OF r(1) v, of ?req ?u] r(1) show ?thesis
    by (cases "Rewrite r ?req ?u") auto
qed

text \<open>
  The listings are exact: \<open>Domains\<close> and \<open>Targets\<close> are sorted, without duplicates, and hold
  exactly the hosts of the rules and the addresses requests can be sent to.
\<close>

theorem Listings_exact:
  assumes "New rules = Ok r"
  shows "sorted (Domains r) \<and> distinct (Domains r) \<and> set (Domains r) = set (rule_hosts rules) \<and>
    sorted (Targets r) \<and> distinct (Targets r) \<and>
    set (Targets r) = {rl_Target rule |rule. \<exists>h. host_rule r h = Some rule}"
proof -
  note t = New_table [OF assms]
  have "distinct (Targets r)" "sorted (Targets r)" by (simp_all add: Targets_def distinct_collect)
  moreover have "set (Targets r) = {rl_Target rule |rule. \<exists>h. host_rule r h = Some rule}"
  proof -
    have "\<And>h rule. (h, rule) \<in> set (hosts r) \<longleftrightarrow> host_rule r h = Some rule"
      using t(2,3) by (simp add: host_rule_def)
    then show ?thesis unfolding set_Targets by (force simp: image_iff)
  qed
  moreover have "set (map fst (hosts r)) = set (rule_hosts rules)" "distinct (map fst (hosts r))"
    using t(2,3) by simp_all
  ultimately show ?thesis by (simp add: Domains_def)
qed

lemma Listings_exact_witness:
  "\<exists>r. New example_rules = Ok r \<and> set (Domains r) = {''app.test'', ''b.test''}"
proof -
  obtain r where r: "New example_rules = Ok r" using New_example by blast
  moreover have "rule_hosts example_rules = [''app.test'', ''b.test'']" by code_simp
  ultimately show ?thesis using Listings_exact [OF r] by auto
qed

end
