(* ===== verification/AutoRules.thy ===== *)
theory AutoRules
  imports ConfigFile Redirect
begin

unbundle bit_operations_syntax

text \<open>
  \<open>internal/config/auto.go\<close>: the file of rules that the control API adds, the check of a whole
  rule list, and the merge of the auto rules into the configuration file. The locale
  \<open>rule_store\<close> is what the service relies on: rules that were saved are the rules loaded next.
\<close>

section \<open>The auto rules file\<close>

definition AutoRulesFile :: string where "AutoRulesFile = ''rules.auto.json''"
definition MaxAutoRules :: nat where "MaxAutoRules = 100"

text \<open>\<open>filepath.Join(filepath.Dir(path), AutoRulesFile)\<close> for a path that is already clean.\<close>

definition AutoRulesPath :: "string \<Rightarrow> string" where
  "AutoRulesPath configPath =
     (case LastIndexByte configPath (CHR ''/'') of
        None \<Rightarrow> AutoRulesFile
      | Some i \<Rightarrow> take (Suc i) configPath @ AutoRulesFile)"

record auto_rule_json =
  aj_Target :: string
  aj_Domains :: "string list option"
  aj_Include :: "string list option"
  aj_Exclude :: "string list option"

record auto_rules =
  ar_Version :: int
  ar_Rules :: "auto_rule_json list option"

definition zero_auto_rule :: auto_rule_json where
  "zero_auto_rule = \<lparr>aj_Target = [], aj_Domains = None, aj_Include = None, aj_Exclude = None\<rparr>"

definition dec_auto_rule_field :: "string \<Rightarrow> json \<Rightarrow> auto_rule_json \<Rightarrow> auto_rule_json option" where
  "dec_auto_rule_field n j r =
     (if n = ''target'' then map_option (\<lambda>v. r\<lparr>aj_Target := v\<rparr>) (dec_string j (aj_Target r))
      else if n = ''domains'' then map_option (\<lambda>v. r\<lparr>aj_Domains := v\<rparr>) (dec_strings j (aj_Domains r))
      else if n = ''include_paths'' then map_option (\<lambda>v. r\<lparr>aj_Include := v\<rparr>) (dec_strings j (aj_Include r))
      else map_option (\<lambda>v. r\<lparr>aj_Exclude := v\<rparr>) (dec_strings j (aj_Exclude r)))"

definition auto_rule_names :: "string list" where
  "auto_rule_names = [''target'', ''domains'', ''include_paths'', ''exclude_paths'']"

definition dec_auto_rule :: "json \<Rightarrow> auto_rule_json \<Rightarrow> auto_rule_json option" where
  "dec_auto_rule = dec_struct True auto_rule_names dec_auto_rule_field"

definition dec_auto_field :: "string \<Rightarrow> json \<Rightarrow> auto_rules \<Rightarrow> auto_rules option" where
  "dec_auto_field n j f =
     (if n = ''version'' then map_option (\<lambda>v. f\<lparr>ar_Version := v\<rparr>) (dec_int j (ar_Version f))
      else map_option (\<lambda>v. f\<lparr>ar_Rules := v\<rparr>) (dec_slice dec_auto_rule zero_auto_rule j (ar_Rules f)))"

definition from_auto_rule :: "auto_rule_json \<Rightarrow> redirect_rule" where
  "from_auto_rule a = \<lparr>rr_Target = aj_Target a, rr_Domains = slice_list (aj_Domains a),
     rr_Include = slice_list (aj_Include a), rr_Exclude = slice_list (aj_Exclude a)\<rparr>"

definition auto_doc :: "redirect_rule list \<Rightarrow> doc" where
  "auto_doc rules = ([JObj [(''version'', enc_int 1), (''rules'', JArr (map enc_rule rules))]], True)"

datatype auto_error = AutoRead read_error | AutoParse | AutoTrailing | AutoVersion int | AutoTooMany

definition parse_auto :: "doc \<Rightarrow> (auto_error, redirect_rule list) result" where
  "parse_auto d =
     (case d of (js, clean) \<Rightarrow>
        (case js of
           [] \<Rightarrow> Err AutoParse
         | j # rest \<Rightarrow>
             (case dec_struct True [''version'', ''rules''] dec_auto_field j \<lparr>ar_Version = 0, ar_Rules = None\<rparr> of
                None \<Rightarrow> Err AutoParse
              | Some f \<Rightarrow>
                  if rest \<noteq> [] \<or> \<not> clean then Err AutoTrailing
                  else if ar_Version f \<noteq> 1 then Err (AutoVersion (ar_Version f))
                  else if MaxAutoRules < length (slice_list (ar_Rules f)) then Err AutoTooMany
                  else Ok (map from_auto_rule (slice_list (ar_Rules f))))))"

definition LoadAutoRules :: "(string \<Rightarrow> bool) \<Rightarrow> string \<Rightarrow> doc fs \<Rightarrow> (auto_error, redirect_rule list) result" where
  "LoadAutoRules rd path fs =
     (case readPrivate rd path fs of
        Err NotExist \<Rightarrow> Ok []
      | Err e \<Rightarrow> Err (AutoRead e)
      | Ok data \<Rightarrow> parse_auto data)"

text \<open>
  How the system calls of one save go: the temporary name, what a cut-short write leaves, the
  call of the atomic write that fails, and whether removing the file fails.
\<close>

record save_io =
  io_tmp :: string
  io_part :: doc
  io_fail :: "write_step option"
  io_remove_fails :: bool

datatype save_error = SaveWrite write_step | SaveRemove

definition writeFileAtomic :: "save_io \<Rightarrow> string \<Rightarrow> doc \<Rightarrow> perm \<Rightarrow> doc fs \<Rightarrow> doc fs list \<times> write_step option" where
  "writeFileAtomic io path data p fs = write_atomic (io_tmp io) (io_part io) (io_fail io) path data p fs"

definition WriteAutoRules :: "save_io \<Rightarrow> string \<Rightarrow> redirect_rule list \<Rightarrow> doc fs \<Rightarrow> doc fs \<times> save_error option" where
  "WriteAutoRules io path rules fs =
     (if rules = [] then
        (if fs path = None then (fs, None)
         else if io_remove_fails io then (fs, Some SaveRemove)
         else (fs(path := None), None))
      else
        (let w = writeFileAtomic io path (auto_doc rules) 384 fs
         in (after_write w, map_option SaveWrite (snd w))))"

section \<open>Validation of a rule list\<close>

fun check_domains :: "string list \<Rightarrow> string list \<Rightarrow> (rule_error, string list) result" where
  "check_domains seen [] = Ok seen"
| "check_domains seen (d # ds) =
     (let key = NormalizeDomain d
      in if key \<in> set seen then Err (AlreadyRouted d) else check_domains (key # seen) ds)"

fun validate_all :: "nat \<Rightarrow> string list \<Rightarrow> redirect_rule list \<Rightarrow> bool \<Rightarrow> config_error option" where
  "validate_all i seen [] allow = None"
| "validate_all i seen (r # rs) allow =
     (case ValidateRule r allow of
        Some e \<Rightarrow> Some (InRule i e)
      | None \<Rightarrow>
          (case check_domains seen (rr_Domains r) of
             Err e \<Rightarrow> Some (InRule i e)
           | Ok seen' \<Rightarrow> validate_all (Suc i) seen' rs allow))"

definition ValidateRules :: "redirect_rule list \<Rightarrow> bool \<Rightarrow> config_error option" where
  "ValidateRules rules allow = validate_all 0 [] rules allow"

section \<open>Merging the auto rules\<close>

datatype 'v merge_error = MergeAuto auto_error | MergeRead read_error | MergeResolve | MergeStat | MergeParse
  | MergeVerify 'v | ErrInvalidMerge config_error | MergeBackup write_step | MergeInstall write_step
  | MergeRemove save_error

record merge_result =
  mr_Merged :: nat
  mr_Backup :: string

record merge_io =
  mi_read :: "string \<Rightarrow> bool"
  mi_resolve :: "string \<Rightarrow> string option"
  mi_stat :: bool
  mi_backup :: save_io
  mi_install :: save_io
  mi_remove :: save_io

text \<open>The last part of \<open>MergeAutoRules\<close>: back up, install the merged file, remove the auto rules.\<close>

definition install_merge ::
  "merge_io \<Rightarrow> string \<Rightarrow> string \<Rightarrow> doc \<Rightarrow> config \<Rightarrow> nat \<Rightarrow> doc fs \<Rightarrow> doc fs \<times> ('v merge_error, merge_result) result" where
  "install_merge io configPath target data cfg n fs =
     (let backup = configPath @ ''.bak'';
          p = (case fs target of None \<Rightarrow> 0 | Some f \<Rightarrow> file_perm f);
          w1 = writeFileAtomic (mi_backup io) backup data 384 fs
      in case snd w1 of
           Some e \<Rightarrow> (after_write w1, Err (MergeBackup e))
         | None \<Rightarrow>
             let w2 = writeFileAtomic (mi_install io) target (config_doc cfg) (p AND NOT 18) (after_write w1)
             in case snd w2 of
                  Some e \<Rightarrow> (after_write w2, Err (MergeInstall e))
                | None \<Rightarrow>
                    (case WriteAutoRules (mi_remove io) (AutoRulesPath configPath) [] (after_write w2) of
                       (fs', Some e) \<Rightarrow> (fs', Err (MergeRemove e))
                     | (fs', None) \<Rightarrow> (fs', Ok \<lparr>mr_Merged = n, mr_Backup = backup\<rparr>)))"

text \<open>
  \<open>verify\<close> is the callback that may refuse the configuration read from disk (\<open>None\<close> when the
  caller passes nil); \<open>mi_resolve\<close> is \<open>filepath.EvalSymlinks\<close>, and \<open>mi_stat\<close> whether the
  file can be inspected. The result is the new file
  system with the result or the error.
\<close>

definition MergeAutoRules ::
  "merge_io \<Rightarrow> string \<Rightarrow> (config \<Rightarrow> 'v option) option \<Rightarrow> doc fs \<Rightarrow> doc fs \<times> ('v merge_error, merge_result) result" where
  "MergeAutoRules io configPath verify fs =
     (let autoPath = AutoRulesPath configPath
      in case LoadAutoRules (mi_read io) autoPath fs of
        Err e \<Rightarrow> (fs, Err (MergeAuto e))
      | Ok auto \<Rightarrow>
          if auto = [] then (fs, Ok \<lparr>mr_Merged = 0, mr_Backup = []\<rparr>)
          else (case mi_resolve io configPath of
            None \<Rightarrow> (fs, Err MergeResolve)
          | Some target \<Rightarrow>
              (case readPrivate (mi_read io) target fs of
                 Err e \<Rightarrow> (fs, Err (MergeRead e))
               | Ok data \<Rightarrow>
                   if \<not> mi_stat io then (fs, Err MergeStat)
                   else (case decode data of
                      None \<Rightarrow> (fs, Err MergeParse)
                    | Some cfg0 \<Rightarrow>
                        (case Option.bind verify (\<lambda>v. v cfg0) of
                           Some e \<Rightarrow> (fs, Err (MergeVerify e))
                         | None \<Rightarrow>
                             let cfg = cfg0\<lparr>cf_Rules := cf_Rules cfg0 @ auto\<rparr>
                             in case Validate cfg Lemmingd of
                                  Some e \<Rightarrow> (fs, Err (ErrInvalidMerge e))
                                | None \<Rightarrow>
                                    (case ValidateRules (cf_Rules cfg) (cf_AllowRemoteTargets cfg) of
                                       Some e \<Rightarrow> (fs, Err (ErrInvalidMerge e))
                                     | None \<Rightarrow>
                                         install_merge io configPath target data cfg (length auto) fs))))))"

section \<open>Saved rules are loaded rules\<close>

lemma dec_auto_rule_enc:
  "dec_auto_rule (enc_rule r) zero_auto_rule =
     Some \<lparr>aj_Target = rr_Target r, aj_Domains = Some (rr_Domains r), aj_Include = Some (rr_Include r),
       aj_Exclude = (if rr_Exclude r = [] then None else Some (rr_Exclude r))\<rparr>"
  by (simp add: dec_auto_rule_def dec_struct_def enc_rule_def omit_empty_def auto_rule_names_def
      dec_auto_rule_field_def zero_auto_rule_def)

definition to_auto_rule :: "redirect_rule \<Rightarrow> auto_rule_json" where
  "to_auto_rule r = \<lparr>aj_Target = rr_Target r, aj_Domains = Some (rr_Domains r), aj_Include = Some (rr_Include r),
     aj_Exclude = (if rr_Exclude r = [] then None else Some (rr_Exclude r))\<rparr>"

lemma from_to_auto_rule [simp]: "from_auto_rule (to_auto_rule r) = r"
  by (simp add: from_auto_rule_def to_auto_rule_def slice_list_def)

lemma dec_elems_auto:
  "dec_elems dec_auto_rule zero_auto_rule (map enc_rule rs) [] = Some (map to_auto_rule rs)"
  by (induction rs) (simp_all add: dec_auto_rule_enc to_auto_rule_def)

lemma parse_auto_doc:
  assumes "length rules \<le> MaxAutoRules"
  shows "parse_auto (auto_doc rules) = Ok rules"
  using assms by (simp add: parse_auto_def auto_doc_def dec_struct_def dec_auto_field_def dec_slice_def
      dec_elems_auto min_int64_def max_int64_def slice_list_def comp_def)

text \<open>What one save may assume of the temporary name it draws.\<close>

definition fresh_tmp :: "save_io \<Rightarrow> string \<Rightarrow> doc fs \<Rightarrow> bool" where
  "fresh_tmp io path fs \<longleftrightarrow> fs (io_tmp io) = None \<and> io_tmp io \<noteq> path"

lemma WriteAutoRules_ok:
  assumes "fresh_tmp io path fs" "WriteAutoRules io path rules fs = (fs', None)"
  shows "fs' = fs(path := if rules = [] then None
      else Some \<lparr>file_data = auto_doc rules, file_perm = 384, file_regular = True\<rparr>)"
  using assms write_atomic_final [of fs "io_tmp io" path "io_part io" "io_fail io" "auto_doc rules" 384]
    write_atomic_error [of "io_tmp io" "io_part io" "io_fail io" path "auto_doc rules" 384 fs]
  by (auto simp: WriteAutoRules_def writeFileAtomic_def fresh_tmp_def Let_def split: if_splits)

lemma WriteAutoRules_error:
  assumes "fresh_tmp io path fs" "WriteAutoRules io path rules fs = (fs', Some e)"
  shows "fs' = fs"
  using assms write_atomic_final [of fs "io_tmp io" path "io_part io" "io_fail io" "auto_doc rules" 384]
    write_atomic_error [of "io_tmp io" "io_part io" "io_fail io" path "auto_doc rules" 384 fs]
  by (auto simp: WriteAutoRules_def writeFileAtomic_def fresh_tmp_def Let_def split: if_splits)

lemma LoadAutoRules_written:
  assumes "length rules \<le> MaxAutoRules" "rd path"
    "fs path = (if rules = [] then None else Some \<lparr>file_data = auto_doc rules, file_perm = 384, file_regular = True\<rparr>)"
  shows "LoadAutoRules rd path fs = Ok rules"
  using assms by (auto simp: LoadAutoRules_def readPrivate_def checkPrivate_def parse_auto_doc)

locale rule_store =
  fixes save :: "'io \<Rightarrow> redirect_rule list \<Rightarrow> 's \<Rightarrow> 's \<times> 'e option"
    and load :: "'s \<Rightarrow> ('f, redirect_rule list) result"
    and fits :: "'io \<Rightarrow> 's \<Rightarrow> bool"
  assumes save_ok: "fits io s \<Longrightarrow> length rules \<le> MaxAutoRules \<Longrightarrow> save io rules s = (s', None) \<Longrightarrow> load s' = Ok rules"
    and save_error: "fits io s \<Longrightarrow> save io rules s = (s', Some e) \<Longrightarrow> s' = s"
begin

text \<open>Whatever the outcome of a save, the store holds the rules of the last one that succeeded.\<close>

lemma load_after_save:
  assumes "fits io s" "length rules \<le> MaxAutoRules" "load s = Ok old" "save io rules s = (s', e)"
  shows "load s' = Ok (if e = None then rules else old)"
proof (cases e)
  case None
  with assms save_ok show ?thesis by auto
next
  case (Some x)
  with assms have "s' = s" using save_error [of io s rules s' x] by simp
  with assms Some show ?thesis by simp
qed

end

interpretation auto_store: rule_store "\<lambda>io. WriteAutoRules io path" "LoadAutoRules (\<lambda>_. True) path"
    "\<lambda>io. fresh_tmp io path" for path
  by unfold_locales (auto dest: WriteAutoRules_ok WriteAutoRules_error intro!: LoadAutoRules_written)

section \<open>Validated rule lists\<close>

definition rule_keys :: "redirect_rule list \<Rightarrow> string list" where
  "rule_keys rules = concat (map (\<lambda>r. map NormalizeDomain (rr_Domains r)) rules)"

lemma check_domains_Ok:
  "check_domains seen ds = Ok seen' \<longleftrightarrow>
     distinct (map NormalizeDomain ds) \<and> set (map NormalizeDomain ds) \<inter> set seen = {}
     \<and> seen' = rev (map NormalizeDomain ds) @ seen"
  by (induction ds arbitrary: seen) (auto simp: Let_def)

lemma check_domains_Err: "check_domains seen ds = Err e \<Longrightarrow> \<exists>d \<in> set ds. e = AlreadyRouted d"
  by (induction ds arbitrary: seen) (auto simp: Let_def split: if_splits)

lemma validate_all_None:
  "validate_all i seen rs allow = None \<longleftrightarrow>
     (\<forall>r \<in> set rs. ValidateRule r allow = None) \<and> distinct (rule_keys rs) \<and> set (rule_keys rs) \<inter> set seen = {}"
proof (induction rs arbitrary: i seen)
  case Nil
  then show ?case by (simp add: rule_keys_def)
next
  case (Cons r rs)
  have keys: "rule_keys (r # rs) = map NormalizeDomain (rr_Domains r) @ rule_keys rs"
    by (simp add: rule_keys_def)
  show ?case
  proof (cases "check_domains seen (rr_Domains r)")
    case (Inl e)
    then have "\<not> (distinct (map NormalizeDomain (rr_Domains r)) \<and> set (map NormalizeDomain (rr_Domains r)) \<inter> set seen = {})"
      using check_domains_Ok [of seen "rr_Domains r" "rev (map NormalizeDomain (rr_Domains r)) @ seen"] by auto
    with Inl show ?thesis unfolding keys by (auto split: option.split)
  next
    case (Inr seen')
    then have "distinct (map NormalizeDomain (rr_Domains r))" "set (map NormalizeDomain (rr_Domains r)) \<inter> set seen = {}"
      "set seen' = set (map NormalizeDomain (rr_Domains r)) \<union> set seen"
      by (auto simp: check_domains_Ok)
    with Inr Cons.IH show ?thesis unfolding keys by (auto split: option.split)
  qed
qed

lemma ValidateRules_None:
  "ValidateRules rs allow = None \<longleftrightarrow> (\<forall>r \<in> set rs. ValidateRule r allow = None) \<and> distinct (rule_keys rs)"
  by (simp add: ValidateRules_def validate_all_None)

lemma rule_hosts_keys:
  "\<forall>r \<in> set rs. ValidateRule r allow = None \<Longrightarrow> rule_hosts rs = rule_keys rs"
  by (induction rs) (auto simp: rule_hosts_def rule_keys_def ValidateRule_None normalizeHost_domain)

lemma ValidateRules_New:
  assumes "ValidateRules rs allow = None"
  shows "\<exists>r. New rs = Ok r \<and> map fst (hosts r) = rule_keys rs"
proof -
  have v: "\<forall>r \<in> set rs. ValidateRule r allow = None" "distinct (rule_keys rs)"
    using assms by (simp_all add: ValidateRules_None)
  moreover from v have "\<forall>src \<in> set rs. \<exists>t. ParseTarget (rr_Target src) = Ok t"
    by (auto simp: ValidateRule_None)
  ultimately show ?thesis
    using New_Ok [of rs] rule_hosts_keys [OF v(1)] by auto
qed

lemma ValidateRules_append:
  "ValidateRules (xs @ ys) allow = None \<Longrightarrow> ValidateRules xs allow = None"
  by (auto simp: ValidateRules_None rule_keys_def)


section \<open>Merging\<close>

text \<open>
  What a merge may assume of its paths: the file it replaces, its backup and the auto rules
  file are different files, and the two temporary names are free and different from them.
\<close>

definition merge_paths :: "merge_io \<Rightarrow> string \<Rightarrow> string \<Rightarrow> doc fs \<Rightarrow> bool" where
  "merge_paths io configPath target fs \<longleftrightarrow>
     mi_resolve io configPath = Some target \<and>
     distinct [target, configPath @ ''.bak'', AutoRulesPath configPath] \<and>
     (\<forall>t \<in> {io_tmp (mi_backup io), io_tmp (mi_install io)}.
        fs t = None \<and> t \<notin> {target, configPath @ ''.bak'', AutoRulesPath configPath})"

text \<open>The state of the two rule files: the configuration on disk and the auto rules.\<close>

definition on_disk :: "merge_io \<Rightarrow> string \<Rightarrow> string \<Rightarrow> doc fs \<Rightarrow> config \<Rightarrow> redirect_rule list \<Rightarrow> bool" where
  "on_disk io configPath target fs c auto \<longleftrightarrow>
     (\<exists>d. readPrivate (mi_read io) target fs = Ok d \<and> decode d = Some c) \<and>
     LoadAutoRules (mi_read io) (AutoRulesPath configPath) fs = Ok auto"

lemma and_not_disjoint: "(p :: 'a::len word) AND m = 0 \<Longrightarrow> p AND NOT m = p"
proof -
  assume "p AND m = 0"
  moreover have "p = p AND (m OR NOT m)" by simp
  ultimately show ?thesis by (metis bit.conj_disj_distrib or.left_neutral)
qed

lemma checkPrivate_mask: "checkPrivate p \<Longrightarrow> p AND NOT 18 = p"
  unfolding checkPrivate_def by (rule and_not_disjoint)

lemma readPrivate_cong:
  "fs path = fs' path \<Longrightarrow> readPrivate rd path fs = readPrivate rd path fs'"
  by (simp add: readPrivate_def)

lemma LoadAutoRules_cong:
  "fs path = fs' path \<Longrightarrow> LoadAutoRules rd path fs = LoadAutoRules rd path fs'"
  by (simp add: LoadAutoRules_def readPrivate_def)

lemma writeFileAtomic_result:
  assumes "fresh_tmp io path fs"
  shows "writeFileAtomic io path data p fs = w \<Longrightarrow>
     snd w = io_fail io \<and> after_write w =
     (if io_fail io = None then fs(path \<mapsto> \<lparr>file_data = data, file_perm = p, file_regular = True\<rparr>) else fs)"
  using assms write_atomic_error [of "io_tmp io" "io_part io" "io_fail io" path data p fs]
    write_atomic_final [of fs "io_tmp io" path "io_part io" "io_fail io" data p]
  by (auto simp: writeFileAtomic_def fresh_tmp_def)

text \<open>The last part of a merge, once the merged configuration has passed validation.\<close>

definition merge_files :: "merge_io \<Rightarrow> string \<Rightarrow> string \<Rightarrow> doc \<Rightarrow> perm \<Rightarrow> config \<Rightarrow> doc fs \<Rightarrow> doc fs" where
  "merge_files io configPath target data p cfg fs =
     (let f1 = fs(configPath @ ''.bak'' \<mapsto> \<lparr>file_data = data, file_perm = 384, file_regular = True\<rparr>);
          f2 = f1(target \<mapsto> \<lparr>file_data = config_doc cfg, file_perm = p, file_regular = True\<rparr>)
      in if io_fail (mi_backup io) \<noteq> None then fs
         else if io_fail (mi_install io) \<noteq> None then f1
         else if io_remove_fails (mi_remove io) then f2
         else f2(AutoRulesPath configPath := None))"

lemma install_merge_result:
  assumes paths: "merge_paths io configPath target fs" and f: "fs target = Some f" "checkPrivate (file_perm f)"
    and auto: "fs (AutoRulesPath configPath) \<noteq> None"
    and inst: "install_merge io configPath target d cfg n fs = (fs', res)"
  shows "fs' = merge_files io configPath target d (file_perm f) cfg fs \<and>
    ((\<exists>r. res = Ok r) \<longleftrightarrow> io_fail (mi_backup io) = None \<and> io_fail (mi_install io) = None
       \<and> \<not> io_remove_fails (mi_remove io)) \<and>
    (\<forall>r. res = Ok r \<longrightarrow> r = \<lparr>mr_Merged = n, mr_Backup = configPath @ ''.bak''\<rparr>)"
proof -
  let ?bak = "configPath @ ''.bak''"
  obtain w1 where w1: "writeFileAtomic (mi_backup io) ?bak d 384 fs = w1" by simp
  obtain w2 where w2: "writeFileAtomic (mi_install io) target (config_doc cfg) (file_perm f) (after_write w1) = w2"
    by simp
  have mask: "file_perm f AND NOT 18 = file_perm f" using f(2) by (rule checkPrivate_mask)
  have fresh1: "fresh_tmp (mi_backup io) ?bak fs"
    using paths by (simp add: merge_paths_def fresh_tmp_def)
  note r1 = writeFileAtomic_result [OF fresh1 w1]
  have "fresh_tmp (mi_install io) target (after_write w1)"
    using paths r1 by (simp add: merge_paths_def fresh_tmp_def)
  note r2 = writeFileAtomic_result [OF this w2]
  have un: "install_merge io configPath target d cfg n fs =
     (case snd w1 of
        Some e \<Rightarrow> (after_write w1, Err (MergeBackup e))
      | None \<Rightarrow>
          (case snd w2 of
             Some e \<Rightarrow> (after_write w2, Err (MergeInstall e))
           | None \<Rightarrow>
               (case WriteAutoRules (mi_remove io) (AutoRulesPath configPath) [] (after_write w2) of
                  (fs', Some e) \<Rightarrow> (fs', Err (MergeRemove e))
                | (fs', None) \<Rightarrow> (fs', Ok \<lparr>mr_Merged = n, mr_Backup = ?bak\<rparr>))))"
    by (simp only: install_merge_def Let_def f(1) option.case mask w1 w2)
  show ?thesis
  proof (cases "io_fail (mi_backup io)")
    case (Some e)
    then have "snd w1 = Some e" "after_write w1 = fs" using r1 by simp_all
    with inst [unfolded un] have "fs' = fs" "res = Err (MergeBackup e)" by simp_all
    with Some show ?thesis by (simp add: merge_files_def)
  next
    case None
    note ok1 = this
    let ?f1 = "fs(?bak \<mapsto> \<lparr>file_data = d, file_perm = 384, file_regular = True\<rparr>)"
    have a1: "snd w1 = None" "after_write w1 = ?f1" using r1 ok1 by simp_all
    show ?thesis
    proof (cases "io_fail (mi_install io)")
      case (Some e)
      then have "snd w2 = Some e" "after_write w2 = ?f1" using r2 a1 by simp_all
      with inst [unfolded un] a1(1) have "fs' = ?f1" "res = Err (MergeInstall e)" by simp_all
      with Some ok1 show ?thesis by (simp add: merge_files_def)
    next
      case None
      then have a2: "snd w2 = None" "after_write w2 =
          ?f1(target \<mapsto> \<lparr>file_data = config_doc cfg, file_perm = file_perm f, file_regular = True\<rparr>)"
        using r2 a1 by simp_all
      have "after_write w2 (AutoRulesPath configPath) \<noteq> None"
        using a2(2) paths auto by (auto simp: merge_paths_def)
      with inst [unfolded un] a1(1) a2(1) have
        "fs' = (if io_remove_fails (mi_remove io) then after_write w2
                else (after_write w2)(AutoRulesPath configPath := None))"
        "res = (if io_remove_fails (mi_remove io) then Err (MergeRemove SaveRemove)
                else Ok \<lparr>mr_Merged = n, mr_Backup = ?bak\<rparr>)"
        by (auto simp: WriteAutoRules_def split: if_splits)
      with None ok1 a2(2) show ?thesis by (simp add: merge_files_def)
    qed
  qed
qed

text \<open>Whether the merge gets past its checks, with the rules it then installs.\<close>

definition merge_checks :: "merge_io \<Rightarrow> config \<Rightarrow> redirect_rule list \<Rightarrow> (config \<Rightarrow> 'v option) option \<Rightarrow> bool" where
  "merge_checks io c auto verify \<longleftrightarrow> mi_stat io \<and> auto \<noteq> [] \<and> Option.bind verify (\<lambda>v. v c) = None
     \<and> Validate (c\<lparr>cf_Rules := cf_Rules c @ auto\<rparr>) Lemmingd = None
     \<and> ValidateRules (cf_Rules c @ auto) (cf_AllowRemoteTargets c) = None"

lemma MergeAutoRules_unfold:
  assumes load: "LoadAutoRules (mi_read io) (AutoRulesPath configPath) fs = Ok auto"
    and res: "mi_resolve io configPath = Some target"
    and d: "readPrivate (mi_read io) target fs = Ok d" "decode d = Some c"
  shows "merge_checks io c auto verify \<Longrightarrow> MergeAutoRules io configPath verify fs =
      install_merge io configPath target d (c\<lparr>cf_Rules := cf_Rules c @ auto\<rparr>) (length auto) fs"
    and "\<not> merge_checks io c auto verify \<Longrightarrow> fst (MergeAutoRules io configPath verify fs) = fs"
    and "\<not> merge_checks io c auto verify \<Longrightarrow> auto \<noteq> [] \<Longrightarrow> \<exists>e. snd (MergeAutoRules io configPath verify fs) = Err e"
  using assms by (auto simp: MergeAutoRules_def merge_checks_def Let_def split: option.splits)

lemma merge_target:
  assumes "on_disk io configPath target fs c auto"
  obtains d f where "fs target = Some f" "checkPrivate (file_perm f)" "file_regular f"
    "mi_read io target" "file_data f = d" "decode d = Some c" "readPrivate (mi_read io) target fs = Ok d"
  using assms by (auto simp: on_disk_def readPrivate_def split: option.splits if_splits)

lemma merge_auto_present:
  assumes "on_disk io configPath target fs c auto" "auto \<noteq> []"
  shows "fs (AutoRulesPath configPath) \<noteq> None"
proof
  assume "fs (AutoRulesPath configPath) = None"
  then have "LoadAutoRules (mi_read io) (AutoRulesPath configPath) fs = Ok []"
    by (simp add: LoadAutoRules_def readPrivate_def)
  with assms show False by (simp add: on_disk_def)
qed

lemma merge_files_target:
  assumes "merge_paths io configPath target fs"
  shows "merge_files io configPath target d p cfg fs target =
    (if io_fail (mi_backup io) = None \<and> io_fail (mi_install io) = None
     then Some \<lparr>file_data = config_doc cfg, file_perm = p, file_regular = True\<rparr> else fs target)"
  and "merge_files io configPath target d p cfg fs (AutoRulesPath configPath) =
    (if io_fail (mi_backup io) = None \<and> io_fail (mi_install io) = None \<and> \<not> io_remove_fails (mi_remove io)
     then None else fs (AutoRulesPath configPath))"
  and "io_fail (mi_backup io) = None \<Longrightarrow> merge_files io configPath target d p cfg fs (configPath @ ''.bak'') =
    Some \<lparr>file_data = d, file_perm = 384, file_regular = True\<rparr>"
  using assms by (auto simp: merge_files_def merge_paths_def Let_def)

lemma Validate_config_decodable:
  assumes "decode d = Some c" "Validate (c\<lparr>cf_Rules := rs\<rparr>) svc = None"
  shows "decode (config_doc (c\<lparr>cf_Rules := rs\<rparr>)) = Some (c\<lparr>cf_Rules := rs\<rparr>)"
  using Validate_decodable [OF assms(2)] decode_int64 [OF assms(1)] by (intro decode_config_doc) simp

lemma merge_files_on_disk:
  assumes paths: "merge_paths io configPath target fs" and disk: "on_disk io configPath target fs c auto"
    and f: "fs target = Some f" "checkPrivate (file_perm f)" "mi_read io target"
    and dec: "decode (config_doc cfg) = Some cfg"
  shows "on_disk io configPath target (merge_files io configPath target d (file_perm f) cfg fs)
    (if io_fail (mi_backup io) = None \<and> io_fail (mi_install io) = None then cfg else c)
    (if io_fail (mi_backup io) = None \<and> io_fail (mi_install io) = None \<and> \<not> io_remove_fails (mi_remove io)
     then [] else auto)"
proof -
  let ?fs' = "merge_files io configPath target d (file_perm f) cfg fs"
  note t = merge_files_target [OF paths, where d = d and p = "file_perm f" and cfg = cfg]
  obtain d0 where d0: "readPrivate (mi_read io) target fs = Ok d0" "decode d0 = Some c"
    using disk by (auto simp: on_disk_def)
  have "\<exists>d1. readPrivate (mi_read io) target ?fs' = Ok d1 \<and> decode d1 =
      Some (if io_fail (mi_backup io) = None \<and> io_fail (mi_install io) = None then cfg else c)"
  proof (cases "io_fail (mi_backup io) = None \<and> io_fail (mi_install io) = None")
    case True
    with t(1) dec f show ?thesis by (simp add: readPrivate_def)
  next
    case False
    with t(1) have "?fs' target = fs target" by simp
    with False d0 show ?thesis using readPrivate_cong [of ?fs' target fs] by auto
  qed
  moreover have "LoadAutoRules (mi_read io) (AutoRulesPath configPath) ?fs' =
      Ok (if io_fail (mi_backup io) = None \<and> io_fail (mi_install io) = None \<and> \<not> io_remove_fails (mi_remove io)
          then [] else auto)"
    using t(2) disk LoadAutoRules_cong [of ?fs' "AutoRulesPath configPath" fs]
    by (auto simp: on_disk_def LoadAutoRules_def readPrivate_def split: if_splits)
  ultimately show ?thesis by (simp add: on_disk_def)
qed

text \<open>All there is to know of a merge: either the checks refuse it, or its writes decide.\<close>

lemma MergeAutoRules_result:
  assumes paths: "merge_paths io configPath target fs" and disk: "on_disk io configPath target fs c auto"
    and merge: "MergeAutoRules io configPath verify fs = (fs', res)"
    and checks: "merge_checks io c auto verify"
  obtains d f where "fs' = merge_files io configPath target d (file_perm f)
        (c\<lparr>cf_Rules := cf_Rules c @ auto\<rparr>) fs"
    "fs target = Some f" "checkPrivate (file_perm f)" "mi_read io target" "file_data f = d" "decode d = Some c"
    "(\<exists>r. res = Ok r) \<longleftrightarrow> io_fail (mi_backup io) = None \<and> io_fail (mi_install io) = None
       \<and> \<not> io_remove_fails (mi_remove io)"
    "\<forall>r. res = Ok r \<longrightarrow> r = \<lparr>mr_Merged = length auto, mr_Backup = configPath @ ''.bak''\<rparr>"
proof -
  obtain d f where f: "fs target = Some f" "checkPrivate (file_perm f)" "mi_read io target" "file_data f = d"
    "decode d = Some c" "readPrivate (mi_read io) target fs = Ok d"
    using merge_target [OF disk] by metis
  have "auto \<noteq> []" using checks by (simp add: merge_checks_def)
  then have present: "fs (AutoRulesPath configPath) \<noteq> None" using disk merge_auto_present by blast
  have load: "LoadAutoRules (mi_read io) (AutoRulesPath configPath) fs = Ok auto"
    and res: "mi_resolve io configPath = Some target"
    using disk paths by (simp_all add: on_disk_def merge_paths_def)
  have "install_merge io configPath target d (c\<lparr>cf_Rules := cf_Rules c @ auto\<rparr>) (length auto) fs = (fs', res)"
    using MergeAutoRules_unfold(1) [OF load res f(6,5) checks] merge by simp
  from install_merge_result [OF paths f(1,2) present this] f show ?thesis
    using that [of d f] by blast
qed

text \<open>What a merge does to the auto rules file, whatever the state of the configuration file.\<close>

lemma LoadAutoRules_read_error:
  "LoadAutoRules (\<lambda>_. True) path fs = Ok auto \<Longrightarrow> LoadAutoRules rd path fs = Ok auto \<or> (\<exists>e. LoadAutoRules rd path fs = Err e)"
  by (cases "LoadAutoRules rd path fs") (auto simp: LoadAutoRules_def readPrivate_def split: option.splits if_splits)

lemma MergeAutoRules_auto_file:
  assumes paths: "merge_paths io configPath target fs"
    and load: "LoadAutoRules (\<lambda>_. True) (AutoRulesPath configPath) fs = Ok auto"
    and merge: "MergeAutoRules io configPath verify fs = (fs', res)"
  shows "LoadAutoRules (\<lambda>_. True) (AutoRulesPath configPath) fs' = Ok (case res of Err _ \<Rightarrow> auto | Ok _ \<Rightarrow> [])"
proof (cases "LoadAutoRules (mi_read io) (AutoRulesPath configPath) fs")
  case (Inl e)
  then have "fs' = fs" "res = Err (MergeAuto e)" using merge by (simp_all add: MergeAutoRules_def Let_def)
  then show ?thesis using load by simp
next
  case (Inr a)
  then have a: "a = auto" using LoadAutoRules_read_error [OF load, of "mi_read io"] by auto
  have res: "mi_resolve io configPath = Some target" using paths by (simp add: merge_paths_def)
  show ?thesis
  proof (cases "\<exists>c. on_disk io configPath target fs c auto")
    case True
    then obtain c where c: "on_disk io configPath target fs c auto" ..
    then obtain d where d: "readPrivate (mi_read io) target fs = Ok d" "decode d = Some c"
      by (auto simp: on_disk_def)
    show ?thesis
    proof (cases "merge_checks io c auto verify")
      case True
      obtain d' f where "fs' = merge_files io configPath target d' (file_perm f) (c\<lparr>cf_Rules := cf_Rules c @ auto\<rparr>) fs"
          "fs target = Some f"
        and ok: "(\<exists>r. res = Ok r) \<longleftrightarrow> io_fail (mi_backup io) = None \<and> io_fail (mi_install io) = None
          \<and> \<not> io_remove_fails (mi_remove io)"
        using MergeAutoRules_result [OF paths c merge True] by blast
      then have "fs' (AutoRulesPath configPath) = (if \<exists>r. res = Ok r then None else fs (AutoRulesPath configPath))"
        using merge_files_target(2) [OF paths] ok by simp
      then show ?thesis
        using load LoadAutoRules_cong [of fs' "AutoRulesPath configPath" fs "\<lambda>_. True"]
        by (cases res) (auto simp: LoadAutoRules_def readPrivate_def)
    next
      case False
      then have "fs' = fs" "auto \<noteq> [] \<longrightarrow> (\<exists>e. res = Err e)"
        using MergeAutoRules_unfold(2,3) [OF Inr [unfolded a] res d False] merge by auto
      then show ?thesis using load by (cases res) auto
    qed
  next
    case False
    then have none: "\<And>d. readPrivate (mi_read io) target fs = Ok d \<Longrightarrow> decode d = None"
      using Inr a by (auto simp: on_disk_def)
    have "fs' = fs \<and> (auto \<noteq> [] \<longrightarrow> (\<exists>e. res = Err e))"
    proof (cases "auto = []")
      case True
      then have "(fs, Ok \<lparr>mr_Merged = 0, mr_Backup = []\<rparr>) = (fs', res)"
        using merge Inr a by (simp add: MergeAutoRules_def Let_def)
      with True show ?thesis by simp
    next
      case ne: False
      show ?thesis
      proof (cases "readPrivate (mi_read io) target fs")
        case (Inl e)
        then have "(fs, Err (MergeRead e)) = (fs', res)"
          using merge \<open>LoadAutoRules _ _ fs = Inr a\<close> a ne res by (simp add: MergeAutoRules_def Let_def)
        then show ?thesis by auto
      next
        case (Inr d)
        then have "(fs, Err MergeParse) = (fs', res)"
          if "mi_stat io"
          using that merge \<open>LoadAutoRules _ _ fs = Inr a\<close> a ne res none [OF Inr] by (simp add: MergeAutoRules_def Let_def)
        moreover have "(fs, Err MergeStat) = (fs', res)" if "\<not> mi_stat io"
          using that merge \<open>LoadAutoRules _ _ fs = Inr a\<close> a ne res Inr by (simp add: MergeAutoRules_def Let_def)
        ultimately show ?thesis by auto
      qed
    qed
    then show ?thesis using load by (cases res) auto
  qed
qed

section \<open>An example\<close>

definition example_rule :: "string \<Rightarrow> string \<Rightarrow> redirect_rule" where
  "example_rule target domain =
     \<lparr>rr_Target = target, rr_Domains = [domain], rr_Include = [''/''], rr_Exclude = [''/api'']\<rparr>"

definition example_config :: config where
  "example_config = (Default Lemmingd [])\<lparr>cf_Rules := [example_rule ''127.0.0.1:81'' ''a.test'']\<rparr>"

definition example_auto :: "redirect_rule list" where
  "example_auto = [example_rule ''127.0.0.1:82'' ''b.test'']"

definition example_io :: save_io where
  "example_io = \<lparr>io_tmp = ''t'', io_part = ([], True), io_fail = None, io_remove_fails = False\<rparr>"

definition example_merge :: merge_io where
  "example_merge = \<lparr>mi_read = (\<lambda>_. True), mi_resolve = Some, mi_stat = True, mi_backup = example_io,
     mi_install = example_io, mi_remove = example_io\<rparr>"

definition example_fs :: "doc fs" where
  "example_fs = (\<lambda>_. None)
     (''c'' \<mapsto> \<lparr>file_data = config_doc example_config, file_perm = 384, file_regular = True\<rparr>,
      ''rules.auto.json'' \<mapsto> \<lparr>file_data = auto_doc example_auto, file_perm = 384, file_regular = True\<rparr>)"

lemma example_valid: "Validate example_config Lemmingd = None"
  by code_simp

lemma auto_path_c [simp]: "AutoRulesPath ''c'' = ''rules.auto.json''"
  by code_simp

lemma example_merge_paths: "merge_paths example_merge ''c'' ''c'' example_fs"
  by (simp add: merge_paths_def example_merge_def example_io_def example_fs_def)

lemma example_decode: "decode (config_doc example_config) = Some example_config"
proof -
  have "cache_int64 (cf_Cache example_config)" by code_simp
  then show ?thesis using Validate_decodable [OF example_valid] by (simp add: decode_config_doc)
qed

lemma example_on_disk: "on_disk example_merge ''c'' ''c'' example_fs example_config example_auto"
  using example_decode
  by (simp add: on_disk_def example_merge_def example_fs_def readPrivate_def checkPrivate_def
      LoadAutoRules_written MaxAutoRules_def example_auto_def del: ex_simps)

lemma example_merge_ok:
  "snd (MergeAutoRules example_merge ''c'' (None :: (config \<Rightarrow> unit option) option) example_fs)
     = Ok \<lparr>mr_Merged = 1, mr_Backup = ''c.bak''\<rparr>"
  by code_simp

section \<open>Properties\<close>

lemma MergeAutoRules_Ok:
  assumes "merge_paths io configPath target fs" "on_disk io configPath target fs c auto" "auto \<noteq> []"
    and "MergeAutoRules io configPath verify fs = (fs', Ok r)"
  shows "mr_Merged r = length auto \<and>
    on_disk io configPath target fs' (c\<lparr>cf_Rules := cf_Rules c @ auto\<rparr>) [] \<and>
    fs' (AutoRulesPath configPath) = None \<and>
    (\<exists>f. fs' (mr_Backup r) = Some f \<and> decode (file_data f) = Some c) \<and>
    ValidateRules (cf_Rules c @ auto) (cf_AllowRemoteTargets c) = None"
proof -
  have load: "LoadAutoRules (mi_read io) (AutoRulesPath configPath) fs = Ok auto"
    and res: "mi_resolve io configPath = Some target"
    using assms(1,2) by (simp_all add: on_disk_def merge_paths_def)
  obtain d0 where d0: "readPrivate (mi_read io) target fs = Ok d0" "decode d0 = Some c"
    using assms(2) by (auto simp: on_disk_def)
  have checks: "merge_checks io c auto verify"
    using MergeAutoRules_unfold(3) [OF load res d0, of verify] assms(3,4) by auto
  then have valid: "Validate (c\<lparr>cf_Rules := cf_Rules c @ auto\<rparr>) Lemmingd = None"
    "ValidateRules (cf_Rules c @ auto) (cf_AllowRemoteTargets c) = None"
    by (simp_all add: merge_checks_def)
  obtain d f where m: "fs' = merge_files io configPath target d (file_perm f) (c\<lparr>cf_Rules := cf_Rules c @ auto\<rparr>) fs"
    and f: "fs target = Some f" "checkPrivate (file_perm f)" "mi_read io target" "decode d = Some c"
    and ok: "io_fail (mi_backup io) = None" "io_fail (mi_install io) = None" "\<not> io_remove_fails (mi_remove io)"
    and r: "r = \<lparr>mr_Merged = length auto, mr_Backup = configPath @ ''.bak''\<rparr>"
    using MergeAutoRules_result [OF assms(1,2,4) checks] by (metis (no_types, lifting))
  have "decode (config_doc (c\<lparr>cf_Rules := cf_Rules c @ auto\<rparr>)) = Some (c\<lparr>cf_Rules := cf_Rules c @ auto\<rparr>)"
    using Validate_config_decodable [OF f(4) valid(1)] .
  from merge_files_on_disk [OF assms(1,2) f(1-3) this, of d]
    merge_files_target(2,3) [OF assms(1), of d "file_perm f" "c\<lparr>cf_Rules := cf_Rules c @ auto\<rparr>"]
  show ?thesis using m ok r f(4) valid(2) by simp
qed

text \<open>
  A merge that reports success has moved every auto rule into the configuration: the file on
  disk decodes to the old configuration with the auto rules appended, the auto rules file is gone,
  the backup holds the old document, and the whole list passed the rule check.
\<close>

theorem MergeAutoRules_success:
  assumes "merge_paths io configPath target fs" "on_disk io configPath target fs c auto" "auto \<noteq> []"
    and "MergeAutoRules io configPath verify fs = (fs', Ok r)"
  shows "mr_Merged r = length auto \<and>
    on_disk io configPath target fs' (c\<lparr>cf_Rules := cf_Rules c @ auto\<rparr>) [] \<and>
    fs' (AutoRulesPath configPath) = None \<and>
    (\<exists>f. fs' (mr_Backup r) = Some f \<and> decode (file_data f) = Some c) \<and>
    ValidateRules (cf_Rules c @ auto) (cf_AllowRemoteTargets c) = None"
  using MergeAutoRules_Ok [OF assms] .

lemma MergeAutoRules_success_witness:
  "on_disk example_merge ''c'' ''c''
     (fst (MergeAutoRules example_merge ''c'' (None :: (config \<Rightarrow> unit option) option) example_fs))
     (example_config\<lparr>cf_Rules := cf_Rules example_config @ example_auto\<rparr>) []"
proof -
  have "MergeAutoRules example_merge ''c'' (None :: (config \<Rightarrow> unit option) option) example_fs =
    (fst (MergeAutoRules example_merge ''c'' (None :: (config \<Rightarrow> unit option) option) example_fs),
     Ok \<lparr>mr_Merged = 1, mr_Backup = ''c.bak''\<rparr>)"
    using example_merge_ok by (metis prod.collapse)
  moreover have "example_auto \<noteq> []" by (simp add: example_auto_def)
  ultimately show ?thesis
    using MergeAutoRules_success [OF example_merge_paths example_on_disk] by blast
qed

text \<open>
  C4: Whatever call of a merge fails, and whoever refuses it, no rule is lost and none invented:
  afterwards the configuration on disk is the old one or the merged one, the auto rules are
  still there or removed, and they are removed only once the merged configuration is in place.
\<close>

theorem MergeAutoRules_keeps_rules:
  assumes "merge_paths io configPath target fs" "on_disk io configPath target fs c auto"
    and "MergeAutoRules io configPath verify fs = (fs', res)"
  shows "\<exists>c' auto'. on_disk io configPath target fs' c' auto' \<and>
    c' \<in> {c, c\<lparr>cf_Rules := cf_Rules c @ auto\<rparr>} \<and> auto' \<in> {auto, []} \<and>
    set (cf_Rules c') \<union> set auto' = set (cf_Rules c) \<union> set auto"
proof (cases "merge_checks io c auto verify")
  case True
  then have "Validate (c\<lparr>cf_Rules := cf_Rules c @ auto\<rparr>) Lemmingd = None" by (simp add: merge_checks_def)
  moreover obtain d f where m: "fs' = merge_files io configPath target d (file_perm f) (c\<lparr>cf_Rules := cf_Rules c @ auto\<rparr>) fs"
    and f: "fs target = Some f" "checkPrivate (file_perm f)" "mi_read io target" "decode d = Some c"
    using MergeAutoRules_result [OF assms True] by metis
  ultimately show ?thesis
    using merge_files_on_disk [OF assms(1,2) f(1-3) Validate_config_decodable [OF f(4)], of "cf_Rules c @ auto" Lemmingd d]
    unfolding m by (cases "io_fail (mi_backup io) = None \<and> io_fail (mi_install io) = None"; cases "io_remove_fails (mi_remove io)")
      (auto intro!: exI)
next
  case False
  have load: "LoadAutoRules (mi_read io) (AutoRulesPath configPath) fs = Ok auto"
    and res: "mi_resolve io configPath = Some target"
    using assms(1,2) by (simp_all add: on_disk_def merge_paths_def)
  obtain d0 where d0: "readPrivate (mi_read io) target fs = Ok d0" "decode d0 = Some c"
    using assms(2) by (auto simp: on_disk_def)
  have "fs' = fs" using MergeAutoRules_unfold(2) [OF load res d0 False] assms(3) by simp
  with assms(2) show ?thesis by (intro exI [of _ c] exI [of _ auto]) simp
qed

lemma MergeAutoRules_keeps_rules_witness:
  "\<exists>c' auto'. on_disk example_merge ''c'' ''c''
       (fst (MergeAutoRules example_merge ''c'' (Some (\<lambda>_. Some ())) example_fs)) c' auto' \<and>
     set (cf_Rules c') \<union> set auto' = set (cf_Rules example_config) \<union> set example_auto"
  using MergeAutoRules_keeps_rules [OF example_merge_paths example_on_disk prod.collapse [symmetric],
      where verify = "Some (\<lambda>_. Some ())"] by blast

text \<open>
  The auto rules file round trips, and a failed save changes nothing: whatever the outcome
  of a save, loading returns the rules of the last save that succeeded.
\<close>

theorem WriteAutoRules_load:
  assumes "fresh_tmp io path fs" "length rules \<le> MaxAutoRules"
    and "LoadAutoRules (\<lambda>_. True) path fs = Ok old" "WriteAutoRules io path rules fs = (fs', e)"
  shows "LoadAutoRules (\<lambda>_. True) path fs' = Ok (if e = None then rules else old)"
  using assms by (rule auto_store.load_after_save)

lemma WriteAutoRules_load_witness:
  "LoadAutoRules (\<lambda>_. True) ''r'' (fst (WriteAutoRules example_io ''r'' example_auto (\<lambda>_. None))) = Ok example_auto"
proof -
  obtain fs' e where w: "WriteAutoRules example_io ''r'' example_auto (\<lambda>_. None) = (fs', e)" by fastforce
  have "fresh_tmp example_io ''r'' (\<lambda>_. None)" "length example_auto \<le> MaxAutoRules"
    "LoadAutoRules (\<lambda>_. True) ''r'' (\<lambda>_. None) = Ok []"
    by (simp_all add: fresh_tmp_def example_io_def example_auto_def MaxAutoRules_def LoadAutoRules_def
        readPrivate_def)
  from WriteAutoRules_load [OF this w] have "LoadAutoRules (\<lambda>_. True) ''r'' fs' = Ok (if e = None then example_auto else [])" .
  moreover have "e = None"
    using w by (simp add: WriteAutoRules_def writeFileAtomic_def write_atomic_error example_io_def example_auto_def
        Let_def split: if_splits)
  ultimately show ?thesis by (simp add: w)
qed

text \<open>
  A rule list that passes \<open>ValidateRules\<close> can be routed: \<open>redirect.New\<close> succeeds on it, its
  table has exactly the hosts of the rules, and the same holds for every prefix of the list (the
  base rules under the auto rules).
\<close>

theorem ValidateRules_routable:
  assumes "ValidateRules (xs @ ys) allow = None"
  shows "(\<exists>r. New (xs @ ys) = Ok r \<and> map fst (hosts r) = rule_keys (xs @ ys)) \<and>
    (\<exists>r. New xs = Ok r \<and> map fst (hosts r) = rule_keys xs)"
  using assms ValidateRules_New ValidateRules_append by blast

lemma ValidateRules_routable_witness:
  "\<exists>r. New (cf_Rules example_config @ example_auto) = Ok r \<and> map fst (hosts r) = [''a.test'', ''b.test'']"
proof -
  have "ValidateRules (cf_Rules example_config @ example_auto) False = None"
    "rule_keys (cf_Rules example_config @ example_auto) = [''a.test'', ''b.test'']"
    by code_simp+
  then show ?thesis using ValidateRules_routable [of "cf_Rules example_config" example_auto False] by auto
qed

end
