(* ===== verification/Mitm.thy ===== *)
theory Mitm
  imports GoHttp
begin

text \<open>
  \<open>internal/proxycore/mitm.go\<close>: what the proxy decides inside an intercepted CONNECT tunnel:
  the name the certificate is for, the scheme and authority every decrypted request gets, the
  check of the Host header, the listener that hands out one connection, and the log filter. The
  TLS handshake and \<open>http.Server\<close> are outside; a tunnel is the text of the CONNECT host, whether
  the 200 line could be written, and the first byte the client sent.
\<close>

section \<open>Host names\<close>

definition normalizeHostname :: "string \<Rightarrow> string" where
  "normalizeHostname host = TrimSuffix (ToLower (TrimSpace host)) ''.''"

definition hostOnly :: "string \<Rightarrow> string" where
  "hostOnly hostPort =
     (case SplitHostPort hostPort of
        Ok (host, _) \<Rightarrow> host
      | Err _ \<Rightarrow> TrimSuffix (TrimPrefix hostPort ''['') '']'')"

section \<open>Opening the tunnel\<close>

text \<open>
  \<open>CloseClient\<close>: the deferred close of the client connection, without serving. \<open>Serve\<close>: the
  certificate name, if the client starts TLS, the scheme and the authority.
\<close>

datatype tunnel = CloseClient | Serve "string option" string string

definition serveMITM :: "string \<Rightarrow> bool \<Rightarrow> nat option \<Rightarrow> tunnel" where
  "serveMITM connectHost written first =
     (let (h, port) = (case SplitHostPort connectHost of
            Err _ \<Rightarrow> (connectHost, ''443'')
          | Ok hp \<Rightarrow> hp);
          host = normalizeHostname h
      in if host = [] then CloseClient
         else if \<not> written then CloseClient
         else case first of
           None \<Rightarrow> CloseClient
         | Some b \<Rightarrow>
             let tls = (b = 0x16);
                 scheme = (if tls then ''https'' else ''http'');
                 defaultPort = (if tls then ''443'' else ''80'');
                 authority = (if port \<noteq> defaultPort then JoinHostPort host port else host)
             in Serve (if tls then Some host else None) scheme authority)"

text \<open>The connection states \<open>http.Server\<close> reports; a hijacked connection is not closed on return.\<close>

datatype conn_state = StateNew | StateActive | StateIdle | StateHijacked | StateClosed

record tunnel_state =
  tn_hijacked :: bool
  tn_listener_closed :: bool

definition tunnel_event :: "conn_state \<Rightarrow> tunnel_state \<Rightarrow> tunnel_state" where
  "tunnel_event e s =
     (case e of
        StateHijacked \<Rightarrow> s\<lparr>tn_hijacked := True, tn_listener_closed := True\<rparr>
      | StateClosed \<Rightarrow> s\<lparr>tn_listener_closed := True\<rparr>
      | _ \<Rightarrow> s)"

definition closes_client :: "tunnel_state \<Rightarrow> bool" where
  "closes_client s \<longleftrightarrow> \<not> tn_hijacked s"

section \<open>Requests inside the tunnel\<close>

datatype 'r mitm_reply = Refuse int string | Forward 'r

definition mitmHandler :: "string \<Rightarrow> string \<Rightarrow> request \<Rightarrow> url \<Rightarrow> request mitm_reply" where
  "mitmHandler scheme authority request u =
     (let expected = normalizeHostname (hostOnly authority)
      in if req_method request = ''CONNECT'' then
           Refuse 405 ''CONNECT is not allowed inside an intercepted tunnel''
         else if req_host request \<noteq> [] \<and> normalizeHostname (hostOnly (req_host request)) \<noteq> expected then
           Refuse 421 ''request host does not match the CONNECT host''
         else Forward (request\<lparr>req_url := Some (u\<lparr>url_scheme := scheme, url_host := authority\<rparr>)\<rparr>))"

section \<open>The error log\<close>

text \<open>\<open>Write\<close> of \<open>errorLogFilter\<close>: the line that is logged, if any.\<close>

definition log_filter :: "string \<Rightarrow> string option" where
  "log_filter message =
     (let txt = TrimSpace message
      in if list_ex (\<lambda>noise. HasSuffix txt noise) ['': EOF'', ''connection reset by peer'', ''broken pipe'', ''i/o timeout'']
         then None else Some txt)"

section \<open>The listener of one connection\<close>

record 'c single_listener =
  sl_conn :: "'c option"
  sl_closed :: bool

definition newSingleConnListener :: "'c \<Rightarrow> 'c single_listener" where
  "newSingleConnListener c = \<lparr>sl_conn = Some c, sl_closed = False\<rparr>"

datatype 'c accepted = Accepted 'c | AcceptClosed | AcceptBlocks

definition Accept :: "'c single_listener \<Rightarrow> 'c accepted \<times> 'c single_listener" where
  "Accept l =
     (case sl_conn l of
        Some c \<Rightarrow> (Accepted c, l\<lparr>sl_conn := None\<rparr>)
      | None \<Rightarrow> (if sl_closed l then AcceptClosed else AcceptBlocks, l))"

definition CloseListener :: "'c single_listener \<Rightarrow> 'c single_listener" where
  "CloseListener l = l\<lparr>sl_closed := True\<rparr>"

section \<open>Lemmas\<close>

lemma set_normalizeHostname: "c \<in> set (normalizeHostname h) \<Longrightarrow> \<exists>d \<in> set h. c = lower_char d"
  using set_TrimSuffix [of "ToLower (TrimSpace h)" "''.''"] set_TrimSpace [of h]
  by (auto simp: normalizeHostname_def ToLower_def)

lemma normalizeHostname_notin:
  assumes "c \<notin> set h" "\<not> (97 \<le> byte c \<and> byte c \<le> 122)"
  shows "c \<notin> set (normalizeHostname h)"
proof
  assume "c \<in> set (normalizeHostname h)"
  then obtain d where "d \<in> set h" "c = lower_char d" using set_normalizeHostname by blast
  then have "c = d" using assms(2) byte_lower_char [of d] by (auto simp: lower_char_def split: if_splits)
  with assms \<open>d \<in> set h\<close> show False by simp
qed

lemma hostOnly_plain:
  assumes "CHR ''['' \<notin> set h" "CHR '']'' \<notin> set h" "\<exists>e. SplitHostPort h = Err e"
  shows "hostOnly h = h"
proof -
  have "TrimPrefix h ''['' = h" using assms(1) by (auto simp: TrimPrefix_def HasPrefix_iff)
  moreover have "TrimSuffix h '']'' = h" using assms(2) by (auto simp: TrimSuffix_def HasSuffix_iff)
  ultimately show ?thesis using assms(3) by (auto simp: hostOnly_def)
qed

section \<open>Where a tunnel leads\<close>

text \<open>Host and port of a CONNECT request, as \<open>serveMITM\<close> reads them.\<close>

definition connect_address :: "string \<Rightarrow> string \<times> string" where
  "connect_address connectHost = (case SplitHostPort connectHost of Err _ \<Rightarrow> (connectHost, ''443'') | Ok hp \<Rightarrow> hp)"

text \<open>
  \<open>net/http\<close> accepts ports of digits only. An IPv6 literal is put into the URL without brackets when its port is the default of the
  scheme, so these tunnels are left out here; \<open>ipv6_tunnel_escapes\<close> shows where they lead.
\<close>

definition tunnel_address :: "string \<Rightarrow> string \<Rightarrow> string \<Rightarrow> bool" where
  "tunnel_address scheme h port \<longleftrightarrow> CHR ''['' \<notin> set h \<and> CHR '']'' \<notin> set h \<and> port \<noteq> [] \<and> list_all is_digit port \<and>
     (CHR '':'' \<in> set h \<longrightarrow> port \<noteq> scheme_port scheme)"

lemma colon_normalizeHostname: "CHR '':'' \<in> set (normalizeHostname h) \<Longrightarrow> CHR '':'' \<in> set h"
  using normalizeHostname_notin [of "CHR '':''" h] by auto

lemma digits_plain: "list_all is_digit p \<Longrightarrow> CHR '':'' \<notin> set p \<and> CHR ''['' \<notin> set p \<and> CHR '']'' \<notin> set p"
  by (auto simp: list_all_iff is_digit_def)

lemma serveMITM_cases:
  assumes "serveMITM connectHost written first = Serve cert scheme authority" "connect_address connectHost = (h, port)"
  shows "scheme = (if first = Some 22 then ''https'' else ''http'')" "cert = (if first = Some 22 then Some (normalizeHostname h) else None)"
    "authority = (if port \<noteq> scheme_port scheme then JoinHostPort (normalizeHostname h) port else normalizeHostname h)"
    "normalizeHostname h \<noteq> []"
  using assms by (auto simp: serveMITM_def connect_address_def scheme_port_def Let_def split: if_splits option.splits sum.splits prod.splits)

lemma tunnel_dial:
  assumes serve: "serveMITM connectHost written first = Serve cert scheme authority" "connect_address connectHost = (h, port)"
    and h: "tunnel_address scheme h port"
  shows "canonicalAddr scheme authority = JoinHostPort (normalizeHostname h) port" "url_hostname authority = normalizeHostname h"
    "hostOnly authority = normalizeHostname h"
proof -
  let ?n = "normalizeHostname h"
  note c = h [unfolded tunnel_address_def]
  have nb: "CHR ''['' \<notin> set ?n" "CHR '']'' \<notin> set ?n" by (rule normalizeHostname_notin; use c in simp)+
  note p = digits_plain [of port]
  have "SplitHostPort (JoinHostPort ?n port) = Ok (?n, port)" using nb p c by (intro SplitHostPort_Join) simp_all
  then have join: "hostOnly (JoinHostPort ?n port) = ?n" by (simp add: hostOnly_def)
  have bare: "CHR '':'' \<notin> set ?n" if "port = scheme_port scheme" using that c colon_normalizeHostname [of h] by blast
  note a = serveMITM_cases(3) [OF serve]
  show "canonicalAddr scheme authority = JoinHostPort ?n port"
    using a c nb bare by (auto simp: canonicalAddr_Join canonicalAddr_plain)
  show "url_hostname authority = ?n" using a c nb bare by (auto simp: url_Join url_plain)
  show "hostOnly authority = ?n" using a join nb bare by (auto intro!: hostOnly_plain simp: SplitHostPort_no_colon)
qed

text \<open>A CONNECT request to an IPv6 literal on the default port: its requests are sent to another host and port.\<close>

lemma ipv6_tunnel_escapes:
  "serveMITM ''[2001:db8::1:22]:443'' True (Some 22) = Serve (Some ''2001:db8::1:22'') ''https'' ''2001:db8::1:22''"
  "canonicalAddr ''https'' ''2001:db8::1:22'' = ''[2001:db8::1]:22''"
  by code_simp+

section \<open>Properties\<close>

text \<open>
  C16: A tunnel stays with its CONNECT host: the address \<open>net/http\<close> dials for every request that is forwarded from it is the host and the
  port of the CONNECT request (443 when it names none), with the scheme the client really speaks; the certificate shown is for that host; and a
  request that names another host is not forwarded. This holds for host names and IPv4 literals on any port and for IPv6 literals with a
  port other than the default of the scheme.
\<close>

theorem tunnel_confined:
  assumes connect: "connect_address connectHost = (h, port)" "tunnel_address scheme h port"
    and serve: "serveMITM connectHost written first = Serve cert scheme authority"
    and forward: "mitmHandler scheme authority request u = Forward request'"
  shows "(\<exists>u'. req_url request' = Some u' \<and> url_scheme u' = scheme \<and>
      canonicalAddr scheme (url_host u') = JoinHostPort (normalizeHostname h) port \<and>
      url_hostname (url_host u') = normalizeHostname h \<and> url_path u' = url_path u) \<and>
    cert = (if scheme = ''https'' then Some (normalizeHostname h) else None) \<and>
    (scheme = ''https'' \<longleftrightarrow> first = Some 22) \<and>
    req_method request' \<noteq> ''CONNECT'' \<and>
    (req_host request = [] \<or>
     normalizeHostname (hostOnly (req_host request)) = normalizeHostname (normalizeHostname h))"
proof -
  note s = serveMITM_cases [OF serve connect(1)]
  note d = tunnel_dial [OF serve connect]
  have f: "request' = request\<lparr>req_url := Some (u\<lparr>url_scheme := scheme, url_host := authority\<rparr>)\<rparr>"
    "req_method request \<noteq> ''CONNECT''"
    "req_host request = [] \<or> normalizeHostname (hostOnly (req_host request)) = normalizeHostname (normalizeHostname h)"
    using forward d(3) by (auto simp: mitmHandler_def Let_def split: if_splits)
  have "scheme = ''https'' \<longleftrightarrow> first = Some 22" "cert = (if scheme = ''https'' then Some (normalizeHostname h) else None)"
    using s(1,2) by simp_all
  then show ?thesis using f d by simp
qed

lemma tunnel_confined_witness:
  "canonicalAddr ''https'' ''[::1]:8443'' = ''[::1]:8443'' \<and>
   (\<exists>r. mitmHandler ''https'' ''[::1]:8443''
     \<lparr>req_method = ''GET'', req_url = None, req_host = ''[::1]:8443'', req_header = []\<rparr>
     \<lparr>url_scheme = [], url_user = False, url_host = [], url_path = ''/x'', url_query = [], url_fragment = []\<rparr> = Forward r \<and>
     req_method r \<noteq> ''CONNECT'')"
proof -
  let ?req = "\<lparr>req_method = ''GET'', req_url = None, req_host = ''[::1]:8443'', req_header = []\<rparr>"
  let ?u = "\<lparr>url_scheme = [], url_user = False, url_host = [], url_path = ''/x'', url_query = [], url_fragment = []\<rparr>"
  have c: "connect_address ''[::1]:8443'' = (''::1'', ''8443'')" "tunnel_address ''https'' ''::1'' ''8443''"
    "serveMITM ''[::1]:8443'' True (Some 22) = Serve (Some ''::1'') ''https'' ''[::1]:8443''"
    "JoinHostPort (normalizeHostname ''::1'') ''8443'' = ''[::1]:8443''"
    by code_simp+
  have "mitmHandler ''https'' ''[::1]:8443'' ?req ?u =
      Forward (?req\<lparr>req_url := Some (?u\<lparr>url_scheme := ''https'', url_host := ''[::1]:8443''\<rparr>)\<rparr>)"
    by code_simp
  note f = this
  from tunnel_confined [OF c(1-3) f] c(4) have "canonicalAddr ''https'' ''[::1]:8443'' = ''[::1]:8443''" by simp
  then show ?thesis using f by simp
qed

section \<open>The listener serves once\<close>

datatype listener_op = OpAccept | OpClose

fun listener_run :: "listener_op list \<Rightarrow> 'c single_listener \<Rightarrow> 'c accepted list" where
  "listener_run [] l = []"
| "listener_run (OpAccept # ops) l = fst (Accept l) # listener_run ops (snd (Accept l))"
| "listener_run (OpClose # ops) l = listener_run ops (CloseListener l)"

lemma listener_run_used:
  "sl_conn l = None \<Longrightarrow> Accepted c \<notin> set (listener_run ops l)"
  by (induction ops l rule: listener_run.induct) (auto simp: Accept_def CloseListener_def)

text \<open>However accepts and closes are interleaved, the connection is handed out at most once, by the first accept.\<close>

lemma listener_run_once:
  "listener_run ops (newSingleConnListener c) = [] \<or>
   (\<exists>rs. listener_run ops (newSingleConnListener c) = Accepted c # rs \<and> Accepted c \<notin> set rs)"
proof -
  have "sl_conn l = Some c \<Longrightarrow> listener_run ops l = [] \<or>
      (\<exists>rs. listener_run ops l = Accepted c # rs \<and> Accepted c \<notin> set rs)" for l
    by (induction ops l rule: listener_run.induct)
      (auto simp: Accept_def CloseListener_def listener_run_used)
  then show ?thesis by (simp add: newSingleConnListener_def)
qed

end
