(* ===== verification/ProxyGuard.thy ===== *)
theory ProxyGuard
  imports Mitm Config
begin

unbundle bit_operations_syntax

text \<open>
  \<open>internal/proxycore/proxy.go\<close>: what a proxy with remote clients refuses. The trust list, the
  guard that checks names before and resolved addresses during a dial, the CONNECT ports, the
  hop-by-hop headers, the answers to failed requests, and how serving ends. goproxy runs the
  handlers of \<open>New\<close> in the order of the definitions below; the resolver and the network are
  parameters of \<open>dial_addrs\<close>, which is \<open>net.Dialer\<close> with its \<open>Control\<close> hook.
\<close>

section \<open>Trusted destinations\<close>

record trust_list =
  tl_targets :: "string list"
  tl_hosts :: "string list"

definition TrustSet :: "string list \<Rightarrow> string list \<Rightarrow> trust_list" where
  "TrustSet targets hosts = \<lparr>tl_targets = map ToLower targets, tl_hosts = map normalizeHostname hosts\<rparr>"

text \<open>A nil list trusts nothing.\<close>

definition trust_target :: "trust_list option \<Rightarrow> string \<Rightarrow> bool" where
  "trust_target t hostPort = (case t of None \<Rightarrow> False | Some l \<Rightarrow> ToLower hostPort \<in> set (tl_targets l))"

definition trust_host :: "trust_list option \<Rightarrow> string \<Rightarrow> bool" where
  "trust_host t host = (case t of None \<Rightarrow> False | Some l \<Rightarrow> host \<in> set (tl_hosts l))"

definition HasTarget :: "trust_list option \<Rightarrow> string \<Rightarrow> bool" where
  "HasTarget t hostPort = trust_target t hostPort"

section \<open>Denied addresses\<close>

definition metadataAddresses :: "ip list" where
  "metadataAddresses = List.map_filter ParseIP [''fd00:ec2::254'', ''100.100.100.200'']"

definition deniedDestination :: "ip \<Rightarrow> bool" where
  "deniedDestination ip =
     (if IsLoopback ip \<or> IsUnspecified ip \<or> IsLinkLocalUnicast ip \<or> IsLinkLocalMulticast ip
         \<or> IsInterfaceLocalMulticast ip \<or> IsMulticast ip then True
      else if (case To4 ip of None \<Rightarrow> False | Some ip4 \<Rightarrow> ip4 ! 0 = 0 \<or> ip4 = [255, 255, 255, 255]) then True
      else list_ex (\<lambda>m. ip = m) metadataAddresses)"

text \<open>
  \<open>ifaces\<close> is what \<open>net.InterfaceAddrs\<close> returns: nothing on error, and for each address its IP if
  it is a \<open>*net.IPNet\<close>.
\<close>

definition selfAddresses :: "ip option list option \<Rightarrow> string \<Rightarrow> string list" where
  "selfAddresses ifaces listen =
     (case SplitHostPort listen of
        Err _ \<Rightarrow> []
      | Ok (host, port) \<Rightarrow>
          (case ParseIP host of
             Some ip \<Rightarrow> if \<not> IsUnspecified ip then [JoinHostPort (ip_string ip) port]
               else (case ifaces of None \<Rightarrow> [] | Some as \<Rightarrow>
                 map (\<lambda>a. JoinHostPort (ip_string a) port) (List.map_filter (\<lambda>a. a) as))
           | None \<Rightarrow>
               (case ifaces of None \<Rightarrow> [] | Some as \<Rightarrow>
                 map (\<lambda>a. JoinHostPort (ip_string a) port) (List.map_filter (\<lambda>a. a) as))))"

section \<open>The destination guard\<close>

record options =
  op_RemoteClients :: bool
  op_ConnectPorts :: "int list"
  op_Trusted :: "trust_list option"
  op_ListenAddress :: string

record guard =
  gd_enabled :: bool
  gd_trusted :: "trust_list option"
  gd_self :: "string list"

definition newDestinationGuard :: "ip option list option \<Rightarrow> options \<Rightarrow> guard" where
  "newDestinationGuard ifaces opts = \<lparr>gd_enabled = op_RemoteClients opts, gd_trusted = op_Trusted opts,
     gd_self = selfAddresses ifaces (op_ListenAddress opts)\<rparr>"

datatype dial_error = ErrDestinationDenied | DialFailed

definition control :: "guard \<Rightarrow> string \<Rightarrow> dial_error option" where
  "control g address =
     (case SplitHostPort address of
        Err _ \<Rightarrow> Some ErrDestinationDenied
      | Ok (host, port) \<Rightarrow>
          (case ParseIP host of
             None \<Rightarrow> Some ErrDestinationDenied
           | Some ip \<Rightarrow>
               if deniedDestination ip then Some ErrDestinationDenied
               else if JoinHostPort (ip_string ip) port \<in> set (gd_self g) then Some ErrDestinationDenied
               else None))"

text \<open>
  \<open>net.Dialer.DialContext\<close>: the resolved addresses are tried in order, each only after the
  control hook accepted it; the result is the first that connects, or the first error.
\<close>

fun dial_addrs :: "(string \<Rightarrow> dial_error option) \<Rightarrow> (string \<Rightarrow> bool) \<Rightarrow> dial_error option \<Rightarrow> string list \<Rightarrow> (dial_error, string) result" where
  "dial_addrs ctl connect first [] = Err (case first of None \<Rightarrow> DialFailed | Some e \<Rightarrow> e)"
| "dial_addrs ctl connect first (a # as) =
     (let e = (case ctl a of Some e \<Rightarrow> Some e | None \<Rightarrow> if connect a then None else Some DialFailed)
      in case e of
           None \<Rightarrow> Ok a
         | Some e' \<Rightarrow> dial_addrs ctl connect (if first = None then Some e' else first) as)"

definition DialContext :: "guard \<Rightarrow> (string \<Rightarrow> string list) \<Rightarrow> (string \<Rightarrow> bool) \<Rightarrow> string \<Rightarrow> (dial_error, string) result" where
  "DialContext g resolve connect address =
     (if \<not> gd_enabled g then dial_addrs (\<lambda>_. None) connect None (resolve address)
      else if trust_target (gd_trusted g) address then dial_addrs (\<lambda>_. None) connect None (resolve address)
      else dial_addrs (control g) connect None (resolve address))"

definition deniedHost :: "guard \<Rightarrow> string \<Rightarrow> bool" where
  "deniedHost g hostPort =
     (if trust_target (gd_trusted g) hostPort then False
      else let h = (case SplitHostPort hostPort of Ok (splitHost, _) \<Rightarrow> splitHost | Err _ \<Rightarrow> hostPort);
               host = normalizeHostname (Trim h ''[]'')
           in if trust_host (gd_trusted g) host then False
              else if host = ''localhost'' \<or> HasSuffix host ''.localhost'' then True
              else case ParseIP host of None \<Rightarrow> False | Some ip \<Rightarrow> deniedDestination ip)"

section \<open>The handlers of a proxy with remote clients\<close>

definition connectPortAllowed :: "string \<Rightarrow> int list \<Rightarrow> bool" where
  "connectPortAllowed hostPort ports =
     (case SplitHostPort hostPort of
        Err _ \<Rightarrow> False
      | Ok (_, rawPort) \<Rightarrow> (case Atoi rawPort of None \<Rightarrow> False | Some port \<Rightarrow> port \<in> set ports))"

definition connect_ports :: "options \<Rightarrow> int list" where
  "connect_ports opts = (if op_ConnectPorts opts = [] then [443] else op_ConnectPorts opts)"

text \<open>The CONNECT handler: the reason of a refusal, if it refuses.\<close>

definition handle_connect :: "options \<Rightarrow> guard \<Rightarrow> string \<Rightarrow> string option" where
  "handle_connect opts g host =
     (if \<not> op_RemoteClients opts then None
      else if \<not> connectPortAllowed host (connect_ports opts) then Some ''port''
      else if deniedHost g host then Some ''destination''
      else None)"

text \<open>The request handlers: a status that answers the request, or the headers it goes on with.\<close>

fun remove_named :: "string list \<Rightarrow> header \<Rightarrow> header" where
  "remove_named [] h = h"
| "remove_named (raw # names) h =
     (let name = TrimSpace raw
      in if ToLower name \<in> {[], ''close'', ''keep-alive'', ''upgrade''} then remove_named names h
         else remove_named names (hdel h name))"

definition removeConnectionHeaders :: "header \<Rightarrow> header" where
  "removeConnectionHeaders h =
     hdel (fold (\<lambda>v. remove_named (Split v (CHR '',''))) (hvalues h ''Connection'') h) ''Keep-Alive''"

definition handle_request :: "options \<Rightarrow> guard \<Rightarrow> url \<Rightarrow> header \<Rightarrow> (int, header) result" where
  "handle_request opts g u h =
     (if op_RemoteClients opts \<and> deniedHost g (url_host u) then Err 403
      else Ok (removeConnectionHeaders h))"

text \<open>The response handler: nothing to do, or a status and a fixed text for a failed request.\<close>

definition handle_response :: "bool \<Rightarrow> bool \<Rightarrow> dial_error option \<Rightarrow> (int \<times> string) option" where
  "handle_response has_response has_request err =
     (if has_response \<or> \<not> has_request then None
      else if err = Some ErrDestinationDenied then Some (403, ''destination is not allowed'' @ [CHR 0x0A])
      else Some (502, ''upstream request failed'' @ [CHR 0x0A]))"

text \<open>
  \<open>writeConnectError\<close>: an error is described by the operation of the \<open>net.OpError\<close> in it, if
  there is one, and whether it is the denial of the guard. The result is what is written.
\<close>

definition StatusText :: "int \<Rightarrow> string" where
  "StatusText status = (if status = 403 then ''Forbidden'' else if status = 502 then ''Bad Gateway'' else [])"

definition crlf :: string where "crlf = [CHR 0x0D, CHR 0x0A]"

definition connect_error_text :: "int \<Rightarrow> string" where
  "connect_error_text status =
     (let txt = StatusText status
      in ''HTTP/1.1 '' @ FormatInt status @ '' '' @ txt @ crlf @ ''Content-Type: text/plain; charset=utf-8'' @ crlf
         @ ''Content-Length: '' @ FormatInt (int (length txt) + 1) @ crlf @ ''Connection: close'' @ crlf @ crlf
         @ txt @ [CHR 0x0A])"

definition writeConnectError :: "string option \<Rightarrow> bool \<Rightarrow> string option" where
  "writeConnectError op denied =
     (case op of
        Some name \<Rightarrow> if name \<noteq> ''dial'' then None
                     else Some (connect_error_text (if denied then 403 else 502))
      | None \<Rightarrow> Some (connect_error_text (if denied then 403 else 502)))"

section \<open>Serving until shutdown\<close>

text \<open>
  Errors joined by \<open>errors.Join\<close> are lists, the empty list is nil; \<open>closed\<close> recognises
  \<open>http.ErrServerClosed\<close>, and \<open>server.Serve\<close> always returns an error.
\<close>

record 'e serving =
  sv_listen :: "'e option"
  sv_ready :: "'e option option"
  sv_first :: "'e option"
  sv_shutdown :: "'e option"
  sv_close :: "'e option"
  sv_serve :: 'e

definition err_list :: "'e option \<Rightarrow> 'e list" where
  "err_list e = (case e of None \<Rightarrow> [] | Some x \<Rightarrow> [x])"

definition stopServer :: "('e \<Rightarrow> bool) \<Rightarrow> 'e serving \<Rightarrow> 'e list" where
  "stopServer closed s =
     (let shutdownErr = (case sv_shutdown s of None \<Rightarrow> [] | Some e \<Rightarrow> e # err_list (sv_close s));
          serveErr = (if closed (sv_serve s) then [] else [sv_serve s])
      in shutdownErr @ serveErr)"

text \<open>\<open>sv_first\<close> is the result of serving when it ends before the context is done.\<close>

definition ServeAfterListen :: "('e \<Rightarrow> bool) \<Rightarrow> 'e serving \<Rightarrow> 'e list" where
  "ServeAfterListen closed s =
     (case sv_listen s of
        Some e \<Rightarrow> [e]
      | None \<Rightarrow>
          (case sv_ready s of
             Some (Some e) \<Rightarrow> e # stopServer closed s
           | _ \<Rightarrow>
               (case sv_first s of
                  Some e \<Rightarrow> if closed e then [] else [e]
                | None \<Rightarrow> stopServer closed s)))"

section \<open>The interface of a trust list\<close>

text \<open>
  What the service relies on when it replaces the trusted destinations: after a replacement
  exactly the given targets are trusted, up to case, and exactly the given hosts, normalised.
\<close>

locale trust_store =
  fixes put :: "string list \<Rightarrow> string list \<Rightarrow> 't"
    and has_target :: "'t \<Rightarrow> string \<Rightarrow> bool"
    and has_host :: "'t \<Rightarrow> string \<Rightarrow> bool"
  assumes target_put: "has_target (put ts hs) x \<longleftrightarrow> (\<exists>t \<in> set ts. ToLower t = ToLower x)"
    and host_put: "has_host (put ts hs) x \<longleftrightarrow> (\<exists>h \<in> set hs. normalizeHostname h = x)"
begin

lemma target_member: "x \<in> set ts \<Longrightarrow> has_target (put ts hs) x"
  by (auto simp: target_put)

lemma host_member: "normalizeHostname x = x \<Longrightarrow> x \<in> set hs \<Longrightarrow> has_host (put ts hs) x"
  by (force simp: host_put)

lemma put_mono:
  "set ts \<subseteq> set ts' \<Longrightarrow> has_target (put ts hs) x \<Longrightarrow> has_target (put ts' hs') x"
  by (auto simp: target_put)

lemma put_union:
  "has_target (put (ts @ ts') hs) x \<longleftrightarrow> has_target (put ts hs) x \<or> has_target (put ts' hs) x"
  by (auto simp: target_put)

end

lemma member_map: "y \<in> set (map f xs) \<longleftrightarrow> (\<exists>x \<in> set xs. f x = y)"
  by auto

interpretation tl: trust_store TrustSet "\<lambda>t. trust_target (Some t)" "\<lambda>t. trust_host (Some t)"
  by unfold_locales (simp_all add: TrustSet_def trust_target_def trust_host_def member_map del: set_map)

section \<open>Denied addresses, by their bytes\<close>

lemma and_not_minus: "x AND NOT m = x - (x AND m)" for x m :: "'a::len word"
proof -
  have "x - (x AND m) = x AND NOT (x AND m)" by (rule disjunctive_diff) (simp add: bit_simps)
  then show ?thesis by (simp add: bit.conj_disj_distrib)
qed

lemma multicast_byte: "(x :: 8 word) AND 240 = 224 \<longleftrightarrow> 224 \<le> x \<and> x < 240"
proof -
  have "(240 :: 8 word) = NOT 15" by simp
  then have "x AND 240 = x - (x AND 15)" by (simp only: and_not_minus)
  moreover have "x AND 15 = x mod 16"
    using take_bit_eq_mask [of 4 x] by (simp add: mask_eq_exp_minus_1 take_bit_eq_mod)
  ultimately have e: "x AND 240 = x div 16 * 16" by (metis minus_mod_eq_div_mult)
  have n: "unat x < 256" using unsigned_less [of x] by simp
  then have "unat (x div 16 * 16) = unat x div 16 * 16"
    by (simp add: unat_word_ariths(2) unat_div)
  then have "x div 16 * 16 = 224 \<longleftrightarrow> unat x div 16 * 16 = 224"
    by (simp add: word_unat_eq_iff)
  also have "\<dots> \<longleftrightarrow> 224 \<le> unat x \<and> unat x < 240" using n by auto
  also have "\<dots> \<longleftrightarrow> 224 \<le> x \<and> x < 240" by (simp add: word_le_nat_alt word_less_nat_alt)
  finally show ?thesis by (simp add: e)
qed

text \<open>The addresses a remote client must not reach, as ranges.\<close>

definition denied_v4 :: "8 word list \<Rightarrow> bool" where
  "denied_v4 q \<longleftrightarrow> q ! 0 = 127 \<or> q ! 0 = 0 \<or> (q ! 0 = 169 \<and> q ! 1 = 254) \<or> (224 \<le> q ! 0 \<and> q ! 0 < 240)
     \<or> q = [255, 255, 255, 255] \<or> q = [100, 100, 100, 200]"

definition denied_v6 :: "ip \<Rightarrow> bool" where
  "denied_v6 a \<longleftrightarrow> a = replicate 15 0 @ [1] \<or> a = replicate 16 0 \<or> (a ! 0 = 254 \<and> a ! 1 AND 192 = 128)
     \<or> a ! 0 = 255 \<or> a = [0xfd, 0, 0x0e, 0xc2, 0, 0, 0, 0, 0, 0, 0, 0, 0, 0, 2, 0x54]"

lemma metadataAddresses_eq [code]:
  "metadataAddresses = [[0xfd, 0, 0x0e, 0xc2, 0, 0, 0, 0, 0, 0, 0, 0, 0, 0, 2, 0x54], v4_in_v6 [100, 100, 100, 200]]"
proof -
  have "ParseIP ''fd00:ec2::254'' = Some [0xfd, 0, 0x0e, 0xc2, 0, 0, 0, 0, 0, 0, 0, 0, 0, 0, 2, 0x54]"
    by (simp add: str_simps Let_def)
  moreover have "ParseIP ''100.100.100.200'' = Some (v4_in_v6 [100, 100, 100, 200])"
    by (simp add: str_simps Let_def)
  ultimately show ?thesis by (simp add: metadataAddresses_def)
qed

lemma To4_v4_in_v6: "length q = 4 \<Longrightarrow> To4 (v4_in_v6 q) = Some q"
  by (simp add: To4_def v4_in_v6_def)

lemma To4_Some:
  assumes "To4 a = Some q"
  shows "a = v4_in_v6 q \<and> length q = 4"
proof -
  have "length a = 16" "take 12 a = replicate 10 0 @ [255, 255]" "q = drop 12 a"
    using assms by (simp_all add: To4_def split: if_splits)
  then show ?thesis using append_take_drop_id [of 12 a] by (simp add: v4_in_v6_def)
qed

section \<open>Facts about headers and dialing\<close>

lemma map_of_remove_named:
  "map_of (remove_named names h) n =
    (if \<exists>raw \<in> set names. ToLower (TrimSpace raw) \<notin> {[], ''close'', ''keep-alive'', ''upgrade''}
        \<and> CanonicalKey (TrimSpace raw) = n then None else map_of h n)"
  by (induction names h rule: remove_named.induct) (auto simp: Let_def map_of_hdel)

lemma map_of_fold_remove:
  "map_of (fold (\<lambda>v. remove_named (Split v (CHR '',''))) vs h) n =
    (if \<exists>v \<in> set vs. \<exists>raw \<in> set (Split v (CHR '','')).
        ToLower (TrimSpace raw) \<notin> {[], ''close'', ''keep-alive'', ''upgrade''} \<and> CanonicalKey (TrimSpace raw) = n
     then None else map_of h n)"
  by (induction vs arbitrary: h) (auto simp: map_of_remove_named)

lemma dial_addrs_Ok:
  "dial_addrs ctl connect first as = Ok a \<Longrightarrow> a \<in> set as \<and> ctl a = None \<and> connect a"
  by (induction ctl connect first as rule: dial_addrs.induct) (auto simp: Let_def split: option.splits if_splits)

lemma dial_addrs_denied:
  "\<forall>a \<in> set as. ctl a = Some e \<Longrightarrow> first = None \<or> first = Some e \<Longrightarrow> as \<noteq> [] \<or> first = Some e \<Longrightarrow>
   dial_addrs ctl connect first as = Err e"
  by (induction ctl connect first as rule: dial_addrs.induct) (auto simp: Let_def)

lemma control_None:
  "control g a = None \<longleftrightarrow> (\<exists>h p ip. SplitHostPort a = Ok (h, p) \<and> ParseIP h = Some ip \<and> \<not> deniedDestination ip
     \<and> JoinHostPort (ip_string ip) p \<notin> set (gd_self g))"
  by (auto simp: control_def split: sum.splits option.splits)

section \<open>Properties\<close>

text \<open>
  C3: With remote clients, a connection the guard dials ends at an address it allows, whatever the
  resolver returns: a literal IP that is no denied destination and not the proxy itself, unless
  the dialled address is a trusted target. A name that resolves to denied addresses only is refused.
\<close>

theorem guard_dial_safe:
  assumes "gd_enabled g" "\<not> trust_target (gd_trusted g) address"
  shows "(\<forall>a. DialContext g resolve connect address = Ok a \<longrightarrow>
      (\<exists>h p ip. SplitHostPort a = Ok (h, p) \<and> ParseIP h = Some ip \<and> \<not> deniedDestination ip \<and>
         JoinHostPort (ip_string ip) p \<notin> set (gd_self g)) \<and> a \<in> set (resolve address)) \<and>
    (resolve address \<noteq> [] \<and> (\<forall>a \<in> set (resolve address). control g a \<noteq> None) \<longrightarrow>
      DialContext g resolve connect address = Err ErrDestinationDenied)"
proof (intro conjI allI impI)
  fix a
  assume "DialContext g resolve connect address = Ok a"
  then have a: "a \<in> set (resolve address)" "control g a = None"
    using assms dial_addrs_Ok by (auto simp: DialContext_def)
  then show "(\<exists>h p ip. SplitHostPort a = Ok (h, p) \<and> ParseIP h = Some ip \<and> \<not> deniedDestination ip \<and>
      JoinHostPort (ip_string ip) p \<notin> set (gd_self g))" "a \<in> set (resolve address)"
    by (simp_all add: control_None)
next
  assume r: "resolve address \<noteq> [] \<and> (\<forall>a \<in> set (resolve address). control g a \<noteq> None)"
  have "\<And>a e. control g a = Some e \<Longrightarrow> e = ErrDestinationDenied"
    by (auto simp: control_def split: sum.splits option.splits if_splits)
  with r have "\<forall>a \<in> set (resolve address). control g a = Some ErrDestinationDenied" by auto
  with r assms show "DialContext g resolve connect address = Err ErrDestinationDenied"
    by (simp add: DialContext_def dial_addrs_denied)
qed

definition example_guard :: guard where
  "example_guard = \<lparr>gd_enabled = True, gd_trusted = Some (TrustSet [''127.0.0.1:8081''] [''app.test'']),
     gd_self = [''192.168.0.2:8080'']\<rparr>"

lemma guard_dial_safe_witness:
  "DialContext example_guard (\<lambda>_. [''127.0.0.1:80'', ''169.254.1.1:80'', ''192.168.0.2:8080'']) (\<lambda>_. True) ''rebind.test:80''
     = Err ErrDestinationDenied"
proof -
  have "gd_enabled example_guard" "\<not> trust_target (gd_trusted example_guard) ''rebind.test:80''"
    "\<forall>a \<in> set [''127.0.0.1:80'', ''169.254.1.1:80'', ''192.168.0.2:8080'']. control example_guard a \<noteq> None"
    by code_simp+
  then show ?thesis
    using guard_dial_safe [of example_guard "''rebind.test:80''"
        "\<lambda>_. [''127.0.0.1:80'', ''169.254.1.1:80'', ''192.168.0.2:8080'']" "\<lambda>_. True"] by blast
qed

text \<open>
  C17: The denied addresses are, over IPv4 (mapped into IPv6 or not), 127/8, 0/8, 169.254/16, all
  multicast, the broadcast address and 100.100.100.200, and over IPv6 the loopback and unspecified
  addresses, fe80::/10, all multicast, and fd00:ec2::254; nothing else.
\<close>

theorem deniedDestination_exact:
  assumes "length ip = 16"
  shows "deniedDestination ip \<longleftrightarrow> (case To4 ip of Some q \<Rightarrow> denied_v4 q | None \<Rightarrow> denied_v6 ip)"
proof (cases "To4 ip")
  case (Some q)
  then have q: "ip = v4_in_v6 q" "length q = 4" using To4_Some by auto
  have four: "To4 (v4_in_v6 q) = Some q" using q Some by simp
  have ne: "v4_in_v6 q \<noteq> replicate 16 0" "v4_in_v6 q ! 0 \<noteq> 255"
    "v4_in_v6 q \<noteq> [0xfd, 0, 0x0e, 0xc2, 0, 0, 0, 0, 0, 0, 0, 0, 0, 0, 2, 0x54]"
    by (simp_all add: v4_in_v6_def str_simps)
  have inj: "v4_in_v6 q = v4_in_v6 r \<longleftrightarrow> q = r" for r by (simp add: v4_in_v6_def)
  have first: "q = [0, 0, 0, 0] \<Longrightarrow> q ! 0 = 0" by simp
  have local: "q ! 0 = 224 \<Longrightarrow> 224 \<le> q ! 0 \<and> q ! 0 < 240" by simp
  have "deniedDestination ip \<longleftrightarrow> q ! 0 = 127 \<or> q = [0, 0, 0, 0] \<or> (q ! 0 = 169 \<and> q ! 1 = 254) \<or>
      (q ! 0 = 224 \<and> q ! 1 = 0 \<and> q ! 2 = 0) \<or> (224 \<le> q ! 0 \<and> q ! 0 < 240) \<or> q ! 0 = 0 \<or>
      q = [255, 255, 255, 255] \<or> q = [100, 100, 100, 200]"
    by (simp only: q(1) deniedDestination_def metadataAddresses_eq IsLoopback_def IsUnspecified_def
        IsLinkLocalUnicast_def IsLinkLocalMulticast_def IsInterfaceLocalMulticast_def IsMulticast_def
        multicast_byte four option.case inj ne list.pred_inject list_ex_iff list.set bex_simps simp_thms if_bool_eq_disj) blast
  then show ?thesis using Some first local by (auto simp: denied_v4_def)
next
  case None
  then have "ip \<noteq> v4_in_v6 q" if "length q = 4" for q
    using To4_v4_in_v6 [OF that] by auto
  with None assms show ?thesis
    by (auto simp: deniedDestination_def metadataAddresses_eq denied_v6_def IsLoopback_def IsUnspecified_def
        IsLinkLocalUnicast_def IsLinkLocalMulticast_def IsInterfaceLocalMulticast_def IsMulticast_def)
qed

lemma deniedDestination_exact_witness:
  "deniedDestination (v4_in_v6 [169, 254, 169, 254]) \<and> \<not> deniedDestination (v4_in_v6 [10, 0, 0, 1])"
proof -
  have "length (v4_in_v6 [169, 254, 169, 254]) = 16" "length (v4_in_v6 [10, 0, 0, 1]) = 16"
    by (simp_all add: v4_in_v6_def)
  from deniedDestination_exact [OF this(1)] deniedDestination_exact [OF this(2)]
  show ?thesis by (simp add: To4_v4_in_v6 denied_v4_def)
qed

text \<open>
  Of a request's headers exactly the hop-by-hop ones go: the fields that Connection names
  (other than close, keep-alive and upgrade) and Keep-Alive are gone, every other field is unchanged.
\<close>

theorem removeConnectionHeaders_exact:
  "hvalues (removeConnectionHeaders h) n =
    (if CanonicalKey n = ''Keep-Alive'' \<or>
        list_ex (\<lambda>v. list_ex (\<lambda>raw. ToLower (TrimSpace raw) \<notin> {[], ''close'', ''keep-alive'', ''upgrade''} \<and>
          CanonicalKey (TrimSpace raw) = CanonicalKey n) (Split v (CHR '',''))) (hvalues h ''Connection'')
     then [] else hvalues h n)"
proof -
  have "CanonicalKey ''Keep-Alive'' = ''Keep-Alive''" by code_simp
  then show ?thesis
    by (auto simp: removeConnectionHeaders_def hvalues_def map_of_hdel map_of_fold_remove list_ex_iff)
qed

text \<open>
  The name of a destination as the guard compares it, and what it must satisfy to get past the
  check before any handler.
\<close>

definition host_name :: "string \<Rightarrow> string" where
  "host_name hostPort = normalizeHostname (Trim
     (case SplitHostPort hostPort of Ok (h, _) \<Rightarrow> h | Err _ \<Rightarrow> hostPort) ''[]'')"

definition admitted_name :: "guard \<Rightarrow> string \<Rightarrow> bool" where
  "admitted_name g hostPort \<longleftrightarrow>
     trust_target (gd_trusted g) hostPort \<or> trust_host (gd_trusted g) (host_name hostPort) \<or>
     (host_name hostPort \<noteq> ''localhost'' \<and> \<not> HasSuffix (host_name hostPort) ''.localhost'' \<and>
      (\<forall>ip. ParseIP (host_name hostPort) = Some ip \<longrightarrow> \<not> deniedDestination ip))"

lemma deniedHost_iff: "deniedHost g hostPort \<longleftrightarrow> \<not> admitted_name g hostPort"
  by (auto simp: deniedHost_def admitted_name_def host_name_def Let_def split: option.splits)

text \<open>
  With remote clients, a CONNECT gets past the first handler only to an allowed port (443 when
  none is configured) and, like any other request, only to a name that is trusted or is neither
  localhost, nor below .localhost, nor the literal of a denied address, in any case and with or
  without port, brackets and trailing dot.
\<close>

theorem remote_requests_checked:
  assumes "op_RemoteClients opts"
  shows "(handle_connect opts g host = None \<longleftrightarrow>
      (\<exists>h p n. SplitHostPort host = Ok (h, p) \<and> Atoi p = Some n \<and> n \<in> set (connect_ports opts)) \<and> admitted_name g host) \<and>
    ((\<exists>h'. handle_request opts g u h = Ok h') \<longleftrightarrow> admitted_name g (url_host u)) \<and>
    (handle_request opts g u h = Err 403 \<longleftrightarrow> \<not> admitted_name g (url_host u))"
  using assms by (auto simp: handle_connect_def handle_request_def deniedHost_iff connectPortAllowed_def
      split: sum.splits option.splits)

lemma remote_requests_checked_witness:
  "handle_connect \<lparr>op_RemoteClients = True, op_ConnectPorts = [], op_Trusted = None, op_ListenAddress = []\<rparr>
     example_guard ''[::1]:443'' \<noteq> None"
proof -
  let ?o = "\<lparr>op_RemoteClients = True, op_ConnectPorts = [], op_Trusted = None, op_ListenAddress = []\<rparr>"
  have "ParseIP ''::1'' = Some (replicate 15 0 @ [1])" by (simp add: str_simps Let_def)
  moreover have "host_name ''[::1]:443'' = ''::1''" "\<not> trust_target (gd_trusted example_guard) ''[::1]:443''"
    "\<not> trust_host (gd_trusted example_guard) ''::1''" by code_simp+
  moreover have "deniedDestination (replicate 15 0 @ [1])" by code_simp
  ultimately have "\<not> admitted_name example_guard ''[::1]:443''" by (simp add: admitted_name_def)
  with remote_requests_checked [of ?o example_guard "''[::1]:443''"] show ?thesis by simp
qed

lemma connect_error_texts:
  "connect_error_text 403 = ''HTTP/1.1 403 Forbidden'' @ crlf @
     ''Content-Type: text/plain; charset=utf-8'' @ crlf @ ''Content-Length: 10'' @ crlf @ ''Connection: close'' @ crlf @ crlf
     @ ''Forbidden'' @ [CHR 0x0A]"
  "connect_error_text 502 = ''HTTP/1.1 502 Bad Gateway'' @ crlf @
     ''Content-Type: text/plain; charset=utf-8'' @ crlf @ ''Content-Length: 12'' @ crlf @ ''Connection: close'' @ crlf @ crlf
     @ ''Bad Gateway'' @ [CHR 0x0A]"
  by code_simp+

text \<open>
  Neither way of answering a failed request shows the client the cause: the answers are the
  two fixed texts, 403 exactly for a refused destination, and a CONNECT answer declares the length
  of the body it has; established tunnels are not written to.
\<close>

theorem failed_requests_answered:
  "handle_response has_response has_request err \<in>
     {None, Some (403, ''destination is not allowed'' @ [CHR 0x0A]), Some (502, ''upstream request failed'' @ [CHR 0x0A])} \<and>
   (handle_response False True err = Some (403, ''destination is not allowed'' @ [CHR 0x0A]) \<longleftrightarrow> err = Some ErrDestinationDenied) \<and>
   (writeConnectError op denied = None \<longleftrightarrow> op \<noteq> None \<and> op \<noteq> Some ''dial'') \<and>
   writeConnectError (Some ''dial'') True = Some (''HTTP/1.1 403 Forbidden'' @ crlf @
     ''Content-Type: text/plain; charset=utf-8'' @ crlf @ ''Content-Length: 10'' @ crlf @ ''Connection: close'' @ crlf @ crlf
     @ ''Forbidden'' @ [CHR 0x0A]) \<and>
   writeConnectError None False = Some (''HTTP/1.1 502 Bad Gateway'' @ crlf @
     ''Content-Type: text/plain; charset=utf-8'' @ crlf @ ''Content-Length: 12'' @ crlf @ ''Connection: close'' @ crlf @ crlf
     @ ''Bad Gateway'' @ [CHR 0x0A])"
  by (auto simp: handle_response_def writeConnectError_def connect_error_texts split: option.splits)

section \<open>Serving\<close>

text \<open>A regular end of serving is not an error, and no error of serving is lost by a shutdown.\<close>

lemma stopServer_errors:
  "set (stopServer closed s) = (case sv_shutdown s of None \<Rightarrow> {} | Some e \<Rightarrow> insert e (set_option (sv_close s)))
     \<union> (if closed (sv_serve s) then {} else {sv_serve s})"
  by (auto simp: stopServer_def err_list_def split: option.splits)

lemma ServeAfterListen_clean:
  assumes "sv_listen s = None" "sv_ready s \<in> {None, Some None}" "sv_first s = None"
    and "sv_shutdown s = None" "closed (sv_serve s)"
  shows "ServeAfterListen closed s = []"
  using assms by (auto simp: ServeAfterListen_def stopServer_def)

end
