(* ===== verification/Lemming.thy ===== *)
theory Lemming
  imports AutoRules ProxyGuard
begin

text \<open>
  \<open>internal/lemming/service.go\<close>: the state of a running lemmingd and its control API. The
  fields that proxy requests read without the mutex (the router and the trust list) change in
  several steps; \<open>install_trace\<close> lists the states other goroutines can see. The operations that
  change rules take the mutex, so they are functions from state and files to state and files.
\<close>

section \<open>State\<close>

datatype build_error = BuildInvalid config_error | BuildRouter router_error

datatype skip_reason = SkipLoad auto_error | SkipBuild build_error

record request_view =
  rv_Time :: go_time
  rv_Method :: string
  rv_Host :: string
  rv_Path :: string
  rv_Target :: string
  rv_Status :: int
  rv_Error :: string

record service_state =
  ls_configPath :: string
  ls_autoPath :: string
  ls_allowRemote :: bool
  ls_remoteClient :: bool
  ls_trusted :: trust_list
  ls_base :: "redirect_rule list"
  ls_auto :: "redirect_rule list"
  ls_router :: "router option"
  ls_autoErr :: "skip_reason option"
  ls_recent :: "request_view list"
  ls_next :: nat

definition recentRequests :: nat where "recentRequests = 200"

section \<open>Building and installing routers\<close>

definition build :: "service_state \<Rightarrow> redirect_rule list \<Rightarrow> redirect_rule list \<Rightarrow> (build_error, router) result" where
  "build s base auto =
     (let all = base @ auto
      in case ValidateRules all (ls_allowRemote s) of
           Some e \<Rightarrow> Err (BuildInvalid e)
         | None \<Rightarrow> (case Redirect.New all of Err e \<Rightarrow> Err (BuildRouter e) | Ok r \<Rightarrow> Ok r))"

definition store_router :: "router \<Rightarrow> service_state \<Rightarrow> service_state" where
  "store_router r s = s\<lparr>ls_router := Some r\<rparr>"

definition set_trusted :: "string list \<Rightarrow> string list \<Rightarrow> service_state \<Rightarrow> service_state" where
  "set_trusted targets domains s = s\<lparr>ls_trusted := TrustSet targets domains\<rparr>"

text \<open>The states of one \<open>install\<close>, in order.\<close>

definition install_trace :: "service_state \<Rightarrow> router \<Rightarrow> service_state list" where
  "install_trace s r =
     (let s1 = (case ls_router s of
             Some old \<Rightarrow> set_trusted (Targets old @ Targets r) (Domains old @ Domains r) s
           | None \<Rightarrow> s);
          s2 = store_router r s1;
          s3 = set_trusted (Targets r) (Domains r) s2
      in [s1, s2, s3])"

definition install :: "service_state \<Rightarrow> router \<Rightarrow> service_state" where
  "install s r = last (install_trace s r)"

definition initial_service :: "string \<Rightarrow> config \<Rightarrow> service_state" where
  "initial_service configPath cfg =
     \<lparr>ls_configPath = configPath, ls_autoPath = AutoRulesPath configPath,
      ls_allowRemote = cf_AllowRemoteTargets cfg, ls_remoteClient = cf_AllowRemoteClients cfg,
      ls_trusted = TrustSet [] [], ls_base = cf_Rules cfg, ls_auto = [], ls_router = None,
      ls_autoErr = None, ls_recent = [], ls_next = 0\<rparr>"

definition NewService :: "(string \<Rightarrow> bool) \<Rightarrow> string \<Rightarrow> config \<Rightarrow> doc fs \<Rightarrow> (build_error, service_state) result" where
  "NewService rd configPath cfg fs =
     (let s = initial_service configPath cfg;
          skipped = (\<lambda>reason. case build s (ls_base s) [] of
             Err e \<Rightarrow> Err e
           | Ok r \<Rightarrow> Ok (install (s\<lparr>ls_autoErr := Some reason\<rparr>) r))
      in case LoadAutoRules rd (ls_autoPath s) fs of
           Err e \<Rightarrow> skipped (SkipLoad e)
         | Ok auto \<Rightarrow>
             (case build s (ls_base s) auto of
                Err e \<Rightarrow> skipped (SkipBuild e)
              | Ok r \<Rightarrow> Ok ((install s r)\<lparr>ls_auto := auto\<rparr>)))"

section \<open>Rule views\<close>

datatype source = SourceConfig | SourceAuto

text \<open>Rules of the configuration come before the auto rules.\<close>

instantiation source :: linorder
begin

definition less_eq_source :: "source \<Rightarrow> source \<Rightarrow> bool" where
  "less_eq_source a b \<longleftrightarrow> a = SourceConfig \<or> b = SourceAuto"

definition less_source :: "source \<Rightarrow> source \<Rightarrow> bool" where
  "less_source a b \<longleftrightarrow> a = SourceConfig \<and> b = SourceAuto"

instance
proof
  fix x y z :: source
  show "(x < y) = (x \<le> y \<and> \<not> y \<le> x)" by (cases x; cases y) (simp_all add: less_eq_source_def less_source_def)
  show "x \<le> x" by (cases x) (simp_all add: less_eq_source_def)
  show "x \<le> y \<Longrightarrow> y \<le> z \<Longrightarrow> x \<le> z" by (auto simp: less_eq_source_def)
  show "x \<le> y \<Longrightarrow> y \<le> x \<Longrightarrow> x = y" by (auto simp: less_eq_source_def)
  show "x \<le> y \<or> y \<le> x" by (cases x; cases y) (simp_all add: less_eq_source_def)
qed

end

record rule_view =
  vw_Source :: source
  vw_Target :: string
  vw_Domains :: "string list"
  vw_Include :: "string list"
  vw_Exclude :: "string list"

definition view :: "source \<Rightarrow> redirect_rule \<Rightarrow> rule_view" where
  "view src rule = \<lparr>vw_Source = src, vw_Target = rr_Target rule, vw_Domains = rr_Domains rule,
     vw_Include = rr_Include rule, vw_Exclude = rr_Exclude rule\<rparr>"

definition Rules :: "service_state \<Rightarrow> rule_view list" where
  "Rules s = map (view SourceConfig) (ls_base s) @ map (view SourceAuto) (ls_auto s)"

lemma sorted_Rules: "sorted (map vw_Source (Rules s))"
proof -
  have "sorted (map (\<lambda>_. a) xs @ map (\<lambda>_. b) ys)" if "a \<le> b" for a b :: source and xs ys :: "redirect_rule list"
    using that by (auto simp: sorted_append sorted_map_same intro!: sorted_iff_nth_mono_less [THEN iffD2])
  moreover have "SourceConfig \<le> SourceAuto" by (simp add: less_eq_source_def)
  ultimately show ?thesis by (simp add: Rules_def view_def comp_def)
qed

definition AutoRuleCount :: "service_state \<Rightarrow> nat" where
  "AutoRuleCount s = length (ls_auto s)"

section \<open>Changing rules\<close>

datatype conflict = AutoRulesSkipped | ConfigChanged

datatype service_error = Conflict conflict | TooManyRules | InvalidRule rule_error | DomainRouted string
  | BuildFailed build_error | StorageError save_error | WriteFailed save_error
  | ErrConfigRule | ErrNoRule | ErrNoDomain | MergeFailed "conflict merge_error"

definition indexOfDomain :: "redirect_rule list \<Rightarrow> string \<Rightarrow> nat option" where
  "indexOfDomain rules domain =
     List.find (\<lambda>i. list_ex (\<lambda>c. NormalizeDomain c = NormalizeDomain domain) (rr_Domains (rules ! i))) [0..<length rules]"

definition AddRule :: "save_io \<Rightarrow> redirect_rule \<Rightarrow> service_state \<Rightarrow> doc fs \<Rightarrow>
    (service_error, rule_view) result \<times> service_state \<times> doc fs" where
  "AddRule io rule s fs =
     (if ls_autoErr s \<noteq> None then (Err (Conflict AutoRulesSkipped), s, fs)
      else if MaxAutoRules \<le> length (ls_auto s) then (Err TooManyRules, s, fs)
      else case ValidateRule rule (ls_allowRemote s) of
        Some e \<Rightarrow> (Err (InvalidRule e), s, fs)
      | None \<Rightarrow>
          (case List.find (\<lambda>d. indexOfDomain (ls_base s) d \<noteq> None \<or> indexOfDomain (ls_auto s) d \<noteq> None) (rr_Domains rule) of
             Some d \<Rightarrow> (Err (DomainRouted d), s, fs)
           | None \<Rightarrow>
               let auto = ls_auto s @ [rule]
               in case build s (ls_base s) auto of
                    Err e \<Rightarrow> (Err (BuildFailed e), s, fs)
                  | Ok r \<Rightarrow>
                      (case WriteAutoRules io (ls_autoPath s) auto fs of
                         (fs', Some e) \<Rightarrow> (Err (StorageError e), s, fs')
                       | (fs', None) \<Rightarrow>
                           (Ok (view SourceAuto rule), (install s r)\<lparr>ls_auto := auto\<rparr>, fs'))))"

definition RemoveRule :: "save_io \<Rightarrow> string \<Rightarrow> service_state \<Rightarrow> doc fs \<Rightarrow>
    (service_error, rule_view) result \<times> service_state \<times> doc fs" where
  "RemoveRule io domain s fs =
     (if TrimSpace domain = [] then (Err ErrNoDomain, s, fs)
      else if ls_autoErr s \<noteq> None then (Err (Conflict AutoRulesSkipped), s, fs)
      else if indexOfDomain (ls_base s) domain \<noteq> None then (Err ErrConfigRule, s, fs)
      else case indexOfDomain (ls_auto s) domain of
        None \<Rightarrow> (Err ErrNoRule, s, fs)
      | Some i \<Rightarrow>
          let removed = ls_auto s ! i;
              auto = take i (ls_auto s) @ drop (Suc i) (ls_auto s)
          in case build s (ls_base s) auto of
               Err e \<Rightarrow> (Err (BuildFailed e), s, fs)
             | Ok r \<Rightarrow>
                 (case WriteAutoRules io (ls_autoPath s) auto fs of
                    (fs', Some e) \<Rightarrow> (Err (WriteFailed e), s, fs')
                  | (fs', None) \<Rightarrow>
                      (Ok (view SourceAuto removed), (install s r)\<lparr>ls_auto := auto\<rparr>, fs')))"

definition sameRule :: "redirect_rule \<Rightarrow> redirect_rule \<Rightarrow> bool" where
  "sameRule a b \<longleftrightarrow> rr_Target a = rr_Target b \<and> rr_Domains a = rr_Domains b \<and>
     rr_Include a = rr_Include b \<and> rr_Exclude a = rr_Exclude b"

text \<open>The callback \<open>Merge\<close> passes to \<open>MergeAutoRules\<close>.\<close>

definition verify_base :: "redirect_rule list \<Rightarrow> config \<Rightarrow> conflict option" where
  "verify_base base onDisk =
     (if list_all2 sameRule (cf_Rules onDisk) base then None else Some ConfigChanged)"

definition Merge :: "merge_io \<Rightarrow> service_state \<Rightarrow> doc fs \<Rightarrow>
    (service_error, merge_result) result \<times> service_state \<times> doc fs" where
  "Merge io s fs =
     (if ls_autoErr s \<noteq> None then (Err (Conflict AutoRulesSkipped), s, fs)
      else case MergeAutoRules io (ls_configPath s) (Some (verify_base (ls_base s))) fs of
        (fs', Err e) \<Rightarrow> (Err (MergeFailed e), s, fs')
      | (fs', Ok r) \<Rightarrow> (Ok r, s\<lparr>ls_base := ls_base s @ ls_auto s, ls_auto := []\<rparr>, fs'))"

section \<open>Recent requests\<close>

definition Record :: "request_view \<Rightarrow> service_state \<Rightarrow> service_state" where
  "Record request s =
     (if length (ls_recent s) < recentRequests then s\<lparr>ls_recent := ls_recent s @ [request]\<rparr>
      else s\<lparr>ls_recent := (ls_recent s)[ls_next s := request], ls_next := Suc (ls_next s) mod recentRequests\<rparr>)"

definition Recent :: "int \<Rightarrow> service_state \<Rightarrow> request_view list" where
  "Recent limit s =
     (let ordered = rev (drop (ls_next s) (ls_recent s) @ take (ls_next s) (ls_recent s))
      in if 0 < limit \<and> limit < int (length ordered) then take (nat limit) ordered else ordered)"

section \<open>Routes and status\<close>

record route_view =
  ro_Intercepted :: bool
  ro_Routed :: bool
  ro_Target :: string
  ro_TargetURL :: "url option"

text \<open>\<open>parsed\<close> is \<open>url.Parse(rawURL)\<close>; the target URL is given before it is printed.\<close>

definition Route :: "url option \<Rightarrow> service_state \<Rightarrow> route_view option" where
  "Route parsed s =
     (case parsed of
        None \<Rightarrow> None
      | Some p \<Rightarrow>
          if (url_scheme p \<noteq> ''http'' \<and> url_scheme p \<noteq> ''https'') \<or> url_host p = [] then None
          else
            let path = (if url_path p = [] then ''/'' else url_path p)
            in case ls_router s of
                 None \<Rightarrow> None
               | Some r \<Rightarrow>
                   (case Lookup r (url_host p) path of
                      (rule, intercepted, routed) \<Rightarrow>
                        Some (if intercepted \<and> routed then
                            \<lparr>ro_Intercepted = True, ro_Routed = True, ro_Target = rl_Target rule,
                             ro_TargetURL = Some \<lparr>url_scheme = rl_Scheme rule, url_user = False,
                               url_host = rl_Target rule, url_path = path, url_query = url_query p, url_fragment = []\<rparr>\<rparr>
                          else \<lparr>ro_Intercepted = intercepted, ro_Routed = routed, ro_Target = [], ro_TargetURL = None\<rparr>)))"

record status_view =
  st_AllowRemoteTargets :: bool
  st_AllowRemoteClients :: bool
  st_ConfigRules :: nat
  st_AutoRules :: nat
  st_AutoRulesError :: "skip_reason option"

definition Status :: "service_state \<Rightarrow> status_view" where
  "Status s = \<lparr>st_AllowRemoteTargets = ls_allowRemote s, st_AllowRemoteClients = ls_remoteClient s,
     st_ConfigRules = length (ls_base s), st_AutoRules = length (ls_auto s), st_AutoRulesError = ls_autoErr s\<rparr>"

section \<open>Status codes of the control API\<close>

definition is_conflict :: "service_error \<Rightarrow> bool" where
  "is_conflict e = (case e of Conflict _ \<Rightarrow> True | MergeFailed (MergeVerify _) \<Rightarrow> True | _ \<Rightarrow> False)"

definition add_status :: "(service_error, 'a) result \<Rightarrow> int" where
  "add_status r = (case r of
     Ok _ \<Rightarrow> 201
   | Err e \<Rightarrow> (case e of StorageError _ \<Rightarrow> 500 | _ \<Rightarrow> if is_conflict e then 409 else 422))"

definition remove_status :: "(service_error, 'a) result \<Rightarrow> int" where
  "remove_status r = (case r of
     Ok _ \<Rightarrow> 200
   | Err e \<Rightarrow>
       if e = ErrNoDomain then 400
       else if e = ErrConfigRule \<or> is_conflict e then 409
       else if e = ErrNoRule then 404
       else 500)"

definition merge_status :: "(service_error, 'a) result \<Rightarrow> int" where
  "merge_status r = (case r of
     Ok _ \<Rightarrow> 200
   | Err e \<Rightarrow> (case e of MergeFailed (ErrInvalidMerge _) \<Rightarrow> 422 | _ \<Rightarrow> if is_conflict e then 409 else 500))"

text \<open>The \<open>limit\<close> parameter of \<open>GET /v1/requests\<close>.\<close>

definition request_limit :: "string \<Rightarrow> int option" where
  "request_limit raw =
     (if raw = [] then Some 50
      else case Atoi raw of
        None \<Rightarrow> None
      | Some parsed \<Rightarrow> if parsed < 1 \<or> int recentRequests < parsed then None else Some parsed)"

section \<open>Facts about the pieces\<close>

lemma build_Ok_iff:
  "build s base auto = Ok r \<longleftrightarrow> ValidateRules (base @ auto) (ls_allowRemote s) = None \<and> Redirect.New (base @ auto) = Ok r"
  by (auto simp: build_def Let_def split: option.splits sum.splits)

lemma build_cong: "ls_allowRemote s' = ls_allowRemote s \<Longrightarrow> build s' = build s"
  by (intro ext) (simp add: build_def)

lemma install_eq:
  "install s r = s\<lparr>ls_router := Some r, ls_trusted := TrustSet (Targets r) (Domains r)\<rparr>"
  by (simp add: install_def install_trace_def store_router_def set_trusted_def Let_def split: option.split)

lemma LoadAutoRules_length:
  "LoadAutoRules rd path fs = Ok auto \<Longrightarrow> length auto \<le> MaxAutoRules"
  by (auto simp: LoadAutoRules_def parse_auto_def split: sum.splits read_error.splits prod.splits list.splits
      option.splits if_splits)

lemma LoadAutoRules_any_read:
  "LoadAutoRules rd path fs = Ok auto \<Longrightarrow> LoadAutoRules (\<lambda>_. True) path fs = Ok auto"
  by (auto simp: LoadAutoRules_def readPrivate_def split: option.splits if_splits)

lemma indexOfDomain_None:
  "indexOfDomain rules d = None \<longleftrightarrow> NormalizeDomain d \<notin> set (rule_keys rules)"
proof -
  have "indexOfDomain rules d = None \<longleftrightarrow>
      (\<forall>i < length rules. \<forall>c \<in> set (rr_Domains (rules ! i)). NormalizeDomain c \<noteq> NormalizeDomain d)"
    by (auto simp: indexOfDomain_def find_None_all list_ex_iff)
  also have "\<dots> \<longleftrightarrow> (\<forall>r \<in> set rules. \<forall>c \<in> set (rr_Domains r). NormalizeDomain c \<noteq> NormalizeDomain d)"
    by (auto simp: set_conv_nth)
  also have "\<dots> \<longleftrightarrow> NormalizeDomain d \<notin> set (rule_keys rules)"
    unfolding rule_keys_def set_concat set_map image_iff UN_iff bex_simps by (metis (no_types, lifting) image_eqI image_iff list.set_map)
  finally show ?thesis .
qed

lemma indexOfDomain_Some:
  assumes "indexOfDomain rules d = Some i"
  shows "i < length rules \<and> NormalizeDomain d \<in> NormalizeDomain ` set (rr_Domains (rules ! i))"
proof -
  have "i < length rules \<and> list_ex (\<lambda>c. NormalizeDomain c = NormalizeDomain d) (rr_Domains (rules ! i))"
    using assms by (auto simp: indexOfDomain_def find_Some_iff)
  then show ?thesis by (auto simp: list_ex_iff image_iff) metis
qed

section \<open>Invariant\<close>

definition ring_ok :: "service_state \<Rightarrow> bool" where
  "ring_ok s \<longleftrightarrow> length (ls_recent s) \<le> recentRequests \<and>
     (if length (ls_recent s) < recentRequests then ls_next s = 0 else ls_next s < recentRequests)"

text \<open>The router, the trust list and the auto rules on disk all follow the rules in memory.\<close>

definition follows :: "service_state \<Rightarrow> bool" where
  "follows s \<longleftrightarrow> ValidateRules (ls_base s @ ls_auto s) (ls_allowRemote s) = None \<and>
     (\<exists>r. ls_router s = Some r \<and> Redirect.New (ls_base s @ ls_auto s) = Ok r \<and>
        ls_trusted s = TrustSet (Targets r) (Domains r))"

definition saved :: "service_state \<Rightarrow> doc fs \<Rightarrow> bool" where
  "saved s fs \<longleftrightarrow> AutoRulesPath (ls_configPath s) = ls_autoPath s \<and> length (ls_auto s) \<le> MaxAutoRules \<and>
     (if ls_autoErr s = None then LoadAutoRules (\<lambda>_. True) (ls_autoPath s) fs = Ok (ls_auto s) else ls_auto s = [])"

definition service_inv :: "service_state \<Rightarrow> doc fs \<Rightarrow> bool" where
  "service_inv s fs \<longleftrightarrow> follows s \<and> saved s fs \<and> ring_ok s"

lemma follows_install:
  assumes "build s (ls_base s) auto = Ok r"
  shows "follows ((install s r)\<lparr>ls_auto := auto\<rparr>)"
  using assms by (simp add: follows_def install_eq build_Ok_iff)

lemma NewService_inv [inv_intros]:
  assumes "NewService rd configPath cfg fs = Ok s"
  shows "service_inv s fs"
proof -
  let ?s = "initial_service configPath cfg"
  have ring: "ring_ok (s'\<lparr>ls_auto := a\<rparr>)" if "s' = install (?s\<lparr>ls_autoErr := e\<rparr>) r" for s' a e r
    using that by (simp add: ring_ok_def install_eq initial_service_def recentRequests_def)
  have skipped: "service_inv s fs"
    if "build ?s (ls_base ?s) [] = Ok r" "s = install (?s\<lparr>ls_autoErr := Some reason\<rparr>) r" for reason r
  proof -
    have "build (?s\<lparr>ls_autoErr := Some reason\<rparr>) (ls_base ?s) [] = Ok r"
      using that(1) build_cong [of "?s\<lparr>ls_autoErr := Some reason\<rparr>" ?s] by simp
    then show ?thesis using that(2)
      by (simp add: service_inv_def follows_def saved_def ring_ok_def install_eq initial_service_def
          build_Ok_iff recentRequests_def)
  qed
  show ?thesis
  proof (cases "LoadAutoRules rd (ls_autoPath ?s) fs")
    case (Inl e)
    with assms skipped show ?thesis by (auto simp: NewService_def Let_def split: sum.splits)
  next
    case (Inr auto)
    show ?thesis
    proof (cases "build ?s (ls_base ?s) auto")
      case (Inl e)
      with assms Inr skipped show ?thesis by (auto simp: NewService_def Let_def split: sum.splits)
    next
      case (Inr r)
      with assms \<open>LoadAutoRules rd _ fs = _\<close> have s: "s = (install ?s r)\<lparr>ls_auto := auto\<rparr>"
        by (simp add: NewService_def Let_def)
      moreover have "saved s fs"
        using s LoadAutoRules_length [OF \<open>LoadAutoRules rd _ fs = _\<close>] LoadAutoRules_any_read [OF \<open>LoadAutoRules rd _ fs = _\<close>]
        by (simp add: saved_def install_eq initial_service_def)
      moreover have "ring_ok s" using s by (simp add: ring_ok_def install_eq initial_service_def recentRequests_def)
      ultimately show ?thesis using follows_install [OF Inr] by (simp add: service_inv_def)
    qed
  qed
qed

lemma AddRule_cases:
  assumes "AddRule io rule s fs = (res, s', fs')"
  obtains (refused) e where "res = Err e" "s' = s" "fs' = fs"
    | (storage) e where "res = Err (StorageError e)" "s' = s"
        "WriteAutoRules io (ls_autoPath s) (ls_auto s @ [rule]) fs = (fs', Some e)"
    | (added) r where "res = Ok (view SourceAuto rule)" "s' = (install s r)\<lparr>ls_auto := ls_auto s @ [rule]\<rparr>"
        "ls_autoErr s = None" "length (ls_auto s) < MaxAutoRules" "ValidateRule rule (ls_allowRemote s) = None"
        "build s (ls_base s) (ls_auto s @ [rule]) = Ok r"
        "WriteAutoRules io (ls_autoPath s) (ls_auto s @ [rule]) fs = (fs', None)"
  using assms
  by (auto simp: AddRule_def Let_def not_le split: if_splits option.splits sum.splits prod.splits)

lemma RemoveRule_cases:
  assumes "RemoveRule io domain s fs = (res, s', fs')"
  obtains (refused) e where "res = Err e" "s' = s" "fs' = fs"
    | (storage) auto e where "res = Err (WriteFailed e)" "s' = s"
        "WriteAutoRules io (ls_autoPath s) auto fs = (fs', Some e)"
    | (removed) i r where "res = Ok (view SourceAuto (ls_auto s ! i))"
        "s' = (install s r)\<lparr>ls_auto := take i (ls_auto s) @ drop (Suc i) (ls_auto s)\<rparr>"
        "ls_autoErr s = None" "indexOfDomain (ls_base s) domain = None" "indexOfDomain (ls_auto s) domain = Some i"
        "build s (ls_base s) (take i (ls_auto s) @ drop (Suc i) (ls_auto s)) = Ok r"
        "WriteAutoRules io (ls_autoPath s) (take i (ls_auto s) @ drop (Suc i) (ls_auto s)) fs = (fs', None)"
proof (cases "TrimSpace domain = [] \<or> ls_autoErr s \<noteq> None \<or> indexOfDomain (ls_base s) domain \<noteq> None \<or>
    indexOfDomain (ls_auto s) domain = None")
  case True
  with assms have "(\<exists>e. res = Err e) \<and> s' = s \<and> fs' = fs"
    by (cases "TrimSpace domain = []"; cases "ls_autoErr s = None"; cases "indexOfDomain (ls_base s) domain = None")
      (simp_all add: RemoveRule_def, auto)
  then show ?thesis using that(1) by blast
next
  case False
  then obtain i where i: "indexOfDomain (ls_auto s) domain = Some i" by auto
  let ?auto = "take i (ls_auto s) @ drop (Suc i) (ls_auto s)"
  have un: "RemoveRule io domain s fs =
      (case build s (ls_base s) ?auto of
         Err e \<Rightarrow> (Err (BuildFailed e), s, fs)
       | Ok r \<Rightarrow> (case WriteAutoRules io (ls_autoPath s) ?auto fs of
            (fs', Some e) \<Rightarrow> (Err (WriteFailed e), s, fs')
          | (fs', None) \<Rightarrow> (Ok (view SourceAuto (ls_auto s ! i)), (install s r)\<lparr>ls_auto := ?auto\<rparr>, fs')))"
    using False i by (simp add: RemoveRule_def Let_def)
  show ?thesis
  proof (cases "build s (ls_base s) ?auto")
    case (Inl e)
    with assms un show ?thesis using that(1) [of "BuildFailed e"] by simp
  next
    case (Inr r)
    obtain f e where w: "WriteAutoRules io (ls_autoPath s) ?auto fs = (f, e)" by fastforce
    show ?thesis
    proof (cases e)
      case (Some x)
      with assms un Inr w show ?thesis using that(2) [of x ?auto] by simp
    next
      case None
      with assms un Inr w False i show ?thesis using that(3) [of i r] by simp
    qed
  qed
qed

lemma Merge_cases:
  assumes "Merge io s fs = (res, s', fs')"
  obtains (refused) e where "res = Err e" "s' = s" "fs' = fs" "ls_autoErr s \<noteq> None"
    | (failed) e where "res = Err (MergeFailed e)" "s' = s" "ls_autoErr s = None"
        "MergeAutoRules io (ls_configPath s) (Some (verify_base (ls_base s))) fs = (fs', Err e)"
    | (merged) r where "res = Ok r" "s' = s\<lparr>ls_base := ls_base s @ ls_auto s, ls_auto := []\<rparr>" "ls_autoErr s = None"
        "MergeAutoRules io (ls_configPath s) (Some (verify_base (ls_base s))) fs = (fs', Ok r)"
  using assms by (auto simp: Merge_def split: if_splits prod.splits sum.splits)

lemma saved_after_write:
  assumes "saved s fs" "ls_autoErr s = None" "fresh_tmp io (ls_autoPath s) fs" "length auto \<le> MaxAutoRules"
    and "WriteAutoRules io (ls_autoPath s) auto fs = (fs', e)"
  shows "LoadAutoRules (\<lambda>_. True) (ls_autoPath s) fs' = Ok (if e = None then auto else ls_auto s)"
  using assms by (intro auto_store.load_after_save) (auto simp: saved_def)

lemma AddRule_inv [inv_intros]:
  assumes inv: "service_inv s fs" and tmp: "fresh_tmp io (ls_autoPath s) fs"
    and add: "AddRule io rule s fs = (res, s', fs')"
  shows "service_inv s' fs'"
  using add
proof (cases rule: AddRule_cases)
  case refused
  with inv show ?thesis by simp
next
  case (storage e)
  then have "fs' = fs" using WriteAutoRules_error [OF tmp] by blast
  with storage inv show ?thesis by simp
next
  case (added r)
  have "saved s fs" using inv by (simp add: service_inv_def)
  from saved_after_write [OF this added(3) tmp _ added(7)] added inv follows_install [OF added(6)]
  show ?thesis by (simp add: service_inv_def saved_def ring_ok_def install_eq)
qed

lemma RemoveRule_inv [inv_intros]:
  assumes inv: "service_inv s fs" and tmp: "fresh_tmp io (ls_autoPath s) fs"
    and rem: "RemoveRule io domain s fs = (res, s', fs')"
  shows "service_inv s' fs'"
  using rem
proof (cases rule: RemoveRule_cases)
  case refused
  with inv show ?thesis by simp
next
  case (storage auto e)
  then have "fs' = fs" using WriteAutoRules_error [OF tmp] by blast
  with storage inv show ?thesis by simp
next
  case (removed i r)
  have s: "saved s fs" using inv by (simp add: service_inv_def)
  then have "length (take i (ls_auto s) @ drop (Suc i) (ls_auto s)) \<le> MaxAutoRules" by (auto simp: saved_def)
  from saved_after_write [OF s removed(3) tmp this removed(7)] removed inv follows_install [OF removed(6)] this
  show ?thesis by (simp add: service_inv_def saved_def ring_ok_def install_eq)
qed

lemma Merge_inv [inv_intros]:
  assumes inv: "service_inv s fs" and paths: "merge_paths io (ls_configPath s) target fs"
    and merge: "Merge io s fs = (res, s', fs')"
  shows "service_inv s' fs'"
proof -
  have kept: "LoadAutoRules (\<lambda>_. True) (ls_autoPath s) fs' = Ok (case r of Err _ \<Rightarrow> ls_auto s | Ok _ \<Rightarrow> [])"
    if "MergeAutoRules io (ls_configPath s) v fs = (fs', r)" "ls_autoErr s = None" for v and r :: "(conflict merge_error, merge_result) result"
  proof -
    have "saved s fs" using inv by (simp add: service_inv_def)
    then have "ls_autoPath s = AutoRulesPath (ls_configPath s)"
      "LoadAutoRules (\<lambda>_. True) (AutoRulesPath (ls_configPath s)) fs = Ok (ls_auto s)"
      using that(2) by (auto simp: saved_def)
    then show ?thesis using MergeAutoRules_auto_file [OF paths _ that(1)] by simp
  qed
  show ?thesis using merge
  proof (cases rule: Merge_cases)
    case refused
    with inv show ?thesis by simp
  next
    case (failed e)
    with kept [OF failed(4,3)] inv show ?thesis by (simp add: service_inv_def saved_def)
  next
    case (merged r)
    with kept [OF merged(4,3)] inv show ?thesis
      by (simp add: service_inv_def saved_def follows_def ring_ok_def)
  qed
qed

lemma Record_inv [inv_intros]:
  assumes "service_inv s fs"
  shows "service_inv (Record q s) fs"
  using assms by (auto simp: service_inv_def follows_def saved_def ring_ok_def Record_def recentRequests_def)

section \<open>Runs of the service\<close>

text \<open>
  The operations of a running service; between them anybody may change other files, the
  configuration file included, but not the auto rules.
\<close>

inductive service_step :: "service_state \<times> doc fs \<Rightarrow> service_state \<times> doc fs \<Rightarrow> bool" where
  add: "fresh_tmp io (ls_autoPath s) fs \<Longrightarrow> AddRule io rule s fs = (r, s', fs') \<Longrightarrow>
    service_step (s, fs) (s', fs')"
| remove: "fresh_tmp io (ls_autoPath s) fs \<Longrightarrow> RemoveRule io domain s fs = (r, s', fs') \<Longrightarrow>
    service_step (s, fs) (s', fs')"
| merge: "merge_paths io (ls_configPath s) target fs \<Longrightarrow> Merge io s fs = (r', s', fs') \<Longrightarrow>
    service_step (s, fs) (s', fs')"
| log_request: "service_step (s, fs) (Record q s, fs)"
| edit: "fs' (ls_autoPath s) = fs (ls_autoPath s) \<Longrightarrow> service_step (s, fs) (s, fs')"

inductive_cases service_stepE: "service_step (s, fs) (s', fs')"

inductive service_run :: "string \<Rightarrow> config \<Rightarrow> service_state \<times> doc fs \<Rightarrow> bool" for configPath cfg where
  start: "NewService rd configPath cfg fs = Ok s \<Longrightarrow> service_run configPath cfg (s, fs)"
| step: "service_run configPath cfg st \<Longrightarrow> service_step st st' \<Longrightarrow> service_run configPath cfg st'"

lemma service_step_inv:
  assumes "service_step (s, fs) (s', fs')" "service_inv s fs"
  shows "service_inv s' fs'"
  using assms
proof (cases rule: service_step.cases)
  case edit
  then have "LoadAutoRules (\<lambda>_. True) (ls_autoPath s) fs' = LoadAutoRules (\<lambda>_. True) (ls_autoPath s) fs"
    by (intro LoadAutoRules_cong)
  with edit assms(2) show ?thesis by (auto simp: service_inv_def saved_def)
qed (auto intro: inv_intros)

lemma service_run_inv:
  assumes "service_run configPath cfg (s, fs)"
  shows "service_inv s fs"
proof -
  have "case st of (s, fs) \<Rightarrow> service_inv s fs" if "service_run configPath cfg st" for st
    using that
  proof induction
    case (start rd fs s)
    then show ?case by (auto intro: inv_intros)
  next
    case (step st st')
    then show ?case using service_step_inv by (cases st; cases st') auto
  qed
  from this [OF assms] show ?thesis by simp
qed

end
