(* ===== verification/LemmingRules.thy ===== *)
theory LemmingRules
  imports Lemming
begin

text \<open>
  What the operations of \<open>internal/lemming/service.go\<close> (theory \<open>Lemming\<close>) do: the consistency of
  every run of the service, trust during a switch of routers, the effect of adding, removing and
  merging rules on the routes, restarts, and the ring of recent requests.
\<close>

section \<open>Routes before and after a change\<close>

lemma follows_router:
  assumes "follows s"
  obtains r where "ls_router s = Some r" "Redirect.New (ls_base s @ ls_auto s) = Ok r"
    "ls_trusted s = TrustSet (Targets r) (Domains r)"
  using assms by (auto simp: follows_def)

lemma all_pairs_append: "all_pairs (xs @ ys) = all_pairs xs @ all_pairs ys"
  by (simp add: all_pairs_def)

lemma rule_keys_append: "rule_keys (xs @ ys) = rule_keys xs @ rule_keys ys"
  by (simp add: rule_keys_def)

lemma New_keys:
  assumes "ValidateRules rules allow = None" "Redirect.New rules = Ok r"
  shows "map fst (hosts r) = rule_keys rules" "host_rule r = map_of (all_pairs rules)"
  using ValidateRules_New [OF assms(1)] New_table(1) [OF assms(2)] assms(2) by auto

lemma New_domain:
  assumes "ValidateRules rules allow = None" "Redirect.New rules = Ok r" "rule \<in> set rules" "d \<in> set (rr_Domains rule)"
  obtains t where "ParseTarget (rr_Target rule) = Ok t" "host_rule r (NormalizeDomain d) = Some (rule_of rule t)"
proof -
  have v: "ValidateRule rule allow = None" using assms(1,3) by (simp add: ValidateRules_None)
  then obtain t where t: "ParseTarget (rr_Target rule) = Ok t" by (auto simp: ValidateRule_None)
  moreover have "normalizeHost d = NormalizeDomain d"
    using v assms(4) by (intro normalizeHost_domain) (auto simp: ValidateRule_None)
  ultimately show ?thesis using that New_host_rule [OF assms(2-4) t] by simp
qed

text \<open>A rule list with one more rule in it routes the other hosts as before.\<close>

lemma host_rule_insert:
  assumes "ValidateRules (xs @ rule # ys) allow = None" "Redirect.New (xs @ rule # ys) = Ok r'"
    and "Redirect.New (xs @ ys) = Ok r" "h \<notin> set (rule_keys [rule])"
  shows "host_rule r' h = host_rule r h"
proof -
  have v: "\<forall>x \<in> set [rule]. ValidateRule x allow = None" using assms(1) by (simp add: ValidateRules_None)
  have "map fst (all_pairs [rule]) = rule_keys [rule]"
    using rule_hosts_pairs [of "[rule]"] rule_hosts_keys [OF v] v by (auto simp: ValidateRule_None)
  then have "map_of (all_pairs [rule]) h = None" using assms(4) by (metis map_of_eq_None_iff set_map)
  then have "map_of (all_pairs (xs @ rule # ys)) h = map_of (all_pairs (xs @ ys)) h"
    using all_pairs_append [of xs "[rule] @ ys"] all_pairs_append [of "[rule]" ys] all_pairs_append [of xs ys]
    by (simp add: map_add_def split: option.split)
  then show ?thesis using New_table(1) [OF assms(2)] New_table(1) [OF assms(3)] by simp
qed

lemma WriteAutoRules_outcome:
  "io_fail io = None \<Longrightarrow> \<not> io_remove_fails io \<Longrightarrow> snd (WriteAutoRules io path rules fs) = None"
  by (simp add: WriteAutoRules_def writeFileAtomic_def write_atomic_error Let_def)

section \<open>Properties\<close>

text \<open>
  C1: However rules are added, removed and merged, and whatever else happens to files other than that of the auto rules, the
  running service is consistent: its router is the one of the configuration rules followed by the
  auto rules, which together are valid; the trust list is exactly the router's; at most 100 auto
  rules exist and they are the ones a restart would load, or there are none because the file was skipped.
\<close>

theorem service_run_consistent:
  assumes "service_run configPath cfg (s, fs)"
  shows "ValidateRules (ls_base s @ ls_auto s) (ls_allowRemote s) = None \<and>
    (\<exists>r. ls_router s = Some r \<and> Redirect.New (ls_base s @ ls_auto s) = Ok r \<and>
       ls_trusted s = TrustSet (Targets r) (Domains r)) \<and>
    length (ls_auto s) \<le> 100 \<and>
    (if ls_autoErr s = None then LoadAutoRules (\<lambda>_. True) (AutoRulesPath (ls_configPath s)) fs = Ok (ls_auto s)
     else ls_auto s = [])"
  using service_run_inv [OF assms]
  by (auto simp: service_inv_def follows_def saved_def MaxAutoRules_def)

definition example_start :: service_state where
  "example_start = (case NewService (\<lambda>_. True) ''c'' example_config example_fs of Ok s \<Rightarrow> s)"

lemma example_started: "NewService (\<lambda>_. True) ''c'' example_config example_fs = Ok example_start"
proof -
  have "(case NewService (\<lambda>_. True) ''c'' example_config example_fs of Ok s \<Rightarrow> True | Err _ \<Rightarrow> False)"
    by code_simp
  then show ?thesis by (simp add: example_start_def split: sum.splits)
qed

lemma service_run_consistent_witness:
  "ValidateRules (ls_base example_start @ ls_auto example_start) (ls_allowRemote example_start) = None \<and>
   length (ls_auto example_start) \<le> 100"
  using service_run_consistent [OF service_run.start [OF example_started]] by blast

text \<open>A trust list that covers a router, the old or the new one.\<close>

definition covers :: "trust_list \<Rightarrow> router \<Rightarrow> bool" where
  "covers t rt \<longleftrightarrow> (\<forall>x \<in> set (Targets rt). trust_target (Some t) x) \<and>
     (\<forall>h \<in> set (Domains rt). trust_host (Some t) (normalizeHostname h))"

lemma covers_TrustSet:
  "set (Targets rt) \<subseteq> set ts \<Longrightarrow> set (Domains rt) \<subseteq> set ds \<Longrightarrow> covers (TrustSet ts ds) rt"
  unfolding covers_def tl.target_put tl.host_put by blast

lemma install_trusted:
  assumes "service_run configPath cfg (s, fs)" "s1 \<in> set (install_trace s r)"
    and "ls_router s1 = Some rt" "host_rule rt h = Some rule"
  shows "trust_target (Some (ls_trusted s1)) (rl_Target rule)" "trust_host (Some (ls_trusted s1)) (normalizeHostname h)"
proof -
  obtain old where old: "ls_router s = Some old" "ls_trusted s = TrustSet (Targets old) (Domains old)"
    using service_run_inv [OF assms(1)] by (auto simp: service_inv_def follows_def)
  have "rl_Target rule \<in> set (Targets rt)" "h \<in> set (Domains rt)"
    using assms(4) host_rule_Targets host_rule_Domains by auto
  moreover have "covers (ls_trusted s1) rt"
    using assms(2,3) old
    by (auto simp: install_trace_def set_trusted_def store_router_def Let_def intro!: covers_TrustSet)
  ultimately show "trust_target (Some (ls_trusted s1)) (rl_Target rule)" "trust_host (Some (ls_trusted s1)) (normalizeHostname h)"
    by (simp_all add: covers_def)
qed

text \<open>
  While a new router is installed, in every state a concurrent request can see, every target
  the current router may route to is trusted by the guard, and so is every host it intercepts; so no
  routed request is refused because of the order in which router and trust list are switched.
\<close>

theorem install_keeps_trust:
  assumes "service_run configPath cfg (s, fs)" "s1 \<in> set (install_trace s r)"
    and "ls_router s1 = Some rt" "host_rule rt h = Some rule"
  shows "trust_target (Some (ls_trusted s1)) (rl_Target rule) \<and>
    trust_host (Some (ls_trusted s1)) (normalizeHostname h)"
  using install_trusted [OF assms] by simp

lemma install_keeps_trust_witness:
  "\<exists>rt rule. ls_router example_start = Some rt \<and> host_rule rt ''b.test'' = Some rule \<and>
     trust_target (Some (ls_trusted (hd (install_trace example_start empty_router)))) (rl_Target rule)"
proof -
  have "(case NewService (\<lambda>_. True) ''c'' example_config example_fs of Ok s \<Rightarrow>
      (case ls_router s of Some rt \<Rightarrow> host_rule rt ''b.test'' \<noteq> None | None \<Rightarrow> False) | Err _ \<Rightarrow> False)"
    by code_simp
  then obtain rt rule where rt: "ls_router example_start = Some rt" "host_rule rt ''b.test'' = Some rule"
    by (auto simp: example_started split: option.splits)
  let ?s1 = "hd (install_trace example_start empty_router)"
  have "?s1 \<in> set (install_trace example_start empty_router)" "ls_router ?s1 = Some rt"
    using rt(1) by (simp_all add: install_trace_def set_trusted_def Let_def)
  from install_keeps_trust [OF service_run.start [OF example_started] this rt(2)] rt show ?thesis by auto
qed

lemma rule_keys_disjoint:
  assumes "distinct (rule_keys (xs @ ys @ [rule]))" "d \<in> set (rr_Domains rule)"
  shows "NormalizeDomain d \<notin> set (rule_keys xs)" "NormalizeDomain d \<notin> set (rule_keys ys)"
proof -
  have "NormalizeDomain d \<in> set (rule_keys [rule])" using assms(2) by (simp add: rule_keys_def)
  moreover have "set (rule_keys xs) \<inter> set (rule_keys [rule]) = {}" "set (rule_keys ys) \<inter> set (rule_keys [rule]) = {}"
    using assms(1) by (auto simp: rule_keys_append)
  ultimately show "NormalizeDomain d \<notin> set (rule_keys xs)" "NormalizeDomain d \<notin> set (rule_keys ys)" by auto
qed

lemma AddRule_accepts:
  assumes "ls_autoErr s = None" "\<not> io_remove_fails io" "AddRule io rule s fs = (res, s', fs')"
  shows "(\<exists>v. res = Ok v) \<longleftrightarrow> length (ls_auto s) < 100 \<and>
    ValidateRules (ls_base s @ ls_auto s @ [rule]) (ls_allowRemote s) = None \<and> io_fail io = None"
proof
  assume "\<exists>v. res = Ok v"
  with assms(3) show "length (ls_auto s) < 100 \<and>
    ValidateRules (ls_base s @ ls_auto s @ [rule]) (ls_allowRemote s) = None \<and> io_fail io = None"
    by (cases rule: AddRule_cases)
      (auto simp: MaxAutoRules_def build_Ok_iff WriteAutoRules_def writeFileAtomic_def write_atomic_error Let_def)
next
  assume ok: "length (ls_auto s) < 100 \<and>
    ValidateRules (ls_base s @ ls_auto s @ [rule]) (ls_allowRemote s) = None \<and> io_fail io = None"
  then have v: "ValidateRule rule (ls_allowRemote s) = None" and d: "distinct (rule_keys (ls_base s @ ls_auto s @ [rule]))"
    by (simp_all add: ValidateRules_None)
  have nodup: "List.find (\<lambda>d. indexOfDomain (ls_base s) d \<noteq> None \<or> indexOfDomain (ls_auto s) d \<noteq> None)
      (rr_Domains rule) = None"
    using rule_keys_disjoint [OF d] by (simp add: find_None_all indexOfDomain_None)
  obtain r where r: "build s (ls_base s) (ls_auto s @ [rule]) = Ok r"
    using ok ValidateRules_New by (fastforce simp: build_Ok_iff)
  obtain f where w: "WriteAutoRules io (ls_autoPath s) (ls_auto s @ [rule]) fs = (f, None)"
    using WriteAutoRules_outcome [of io] ok assms(2) by (metis prod.collapse)
  show "\<exists>v. res = Ok v"
    using assms ok v nodup r w by (auto simp: AddRule_def MaxAutoRules_def Let_def)
qed

text \<open>What an added rule routes, and that it leaves the other hosts alone.\<close>

definition routes_added :: "redirect_rule \<Rightarrow> router \<Rightarrow> router \<Rightarrow> bool" where
  "routes_added rule r r' \<longleftrightarrow>
     (\<forall>d \<in> set (rr_Domains rule). \<exists>t. ParseTarget (rr_Target rule) = Ok t \<and>
        host_rule r' (NormalizeDomain d) = Some (rule_of rule t)) \<and>
     (\<forall>h. h \<notin> set (rule_keys [rule]) \<longrightarrow> host_rule r' h = host_rule r h)"

lemma build_routes_added:
  assumes "build s (ls_base s) (xs @ rule # ys) = Ok r'" "Redirect.New (ls_base s @ xs @ ys) = Ok r"
  shows "routes_added rule r r'"
proof -
  have new: "ValidateRules ((ls_base s @ xs) @ rule # ys) (ls_allowRemote s) = None"
    "Redirect.New ((ls_base s @ xs) @ rule # ys) = Ok r'"
    using assms(1) by (simp_all add: build_Ok_iff)
  have "\<exists>t. ParseTarget (rr_Target rule) = Ok t \<and> host_rule r' (NormalizeDomain d) = Some (rule_of rule t)"
    if "d \<in> set (rr_Domains rule)" for d
    using New_domain [OF new _ that] by auto
  moreover have "host_rule r' h = host_rule r h" if "h \<notin> set (rule_keys [rule])" for h
    using host_rule_insert [OF new _ that, of r] assms(2) by simp
  ultimately show ?thesis by (auto simp: routes_added_def)
qed

text \<open>
  C9: Adding a rule succeeds exactly when fewer than 100 auto rules exist, the rules together stay
  valid and the file can be written; then the rule is appended on disk and in memory, its domains
  are intercepted and sent to its target, and every other host is routed as before. Any other
  outcome changes nothing.
\<close>

theorem AddRule_functional:
  assumes inv: "service_inv s fs" "ls_autoErr s = None" "fresh_tmp io (ls_autoPath s) fs" "\<not> io_remove_fails io"
    and add: "AddRule io rule s fs = (res, s', fs')"
  shows "((\<exists>v. res = Ok v) \<longleftrightarrow> length (ls_auto s) < 100 \<and>
      ValidateRules (ls_base s @ ls_auto s @ [rule]) (ls_allowRemote s) = None \<and> io_fail io = None) \<and>
    ((\<nexists>v. res = Ok v) \<longrightarrow> s' = s \<and> fs' = fs) \<and>
    (\<forall>v. res = Ok v \<longrightarrow> v = view SourceAuto rule \<and> ls_base s' = ls_base s \<and> ls_auto s' = ls_auto s @ [rule] \<and>
      LoadAutoRules (\<lambda>_. True) (ls_autoPath s) fs' = Ok (ls_auto s @ [rule]) \<and>
      (\<exists>r r'. ls_router s = Some r \<and> ls_router s' = Some r' \<and> routes_added rule r r'))"
proof -
  obtain r where r: "ls_router s = Some r" "Redirect.New (ls_base s @ ls_auto s) = Ok r"
    using inv(1) follows_router by (metis service_inv_def)
  have kept: "s' = s \<and> fs' = fs" if "\<nexists>v. res = Ok v"
    using add that WriteAutoRules_error [OF inv(3)] by (cases rule: AddRule_cases) auto
  have ok: "v = view SourceAuto rule \<and> ls_base s' = ls_base s \<and> ls_auto s' = ls_auto s @ [rule] \<and>
      LoadAutoRules (\<lambda>_. True) (ls_autoPath s) fs' = Ok (ls_auto s @ [rule]) \<and>
      (\<exists>r r'. ls_router s = Some r \<and> ls_router s' = Some r' \<and> routes_added rule r r')" if v: "res = Ok v" for v
  proof -
    obtain r' where a: "v = view SourceAuto rule" "s' = (install s r')\<lparr>ls_auto := ls_auto s @ [rule]\<rparr>"
      "build s (ls_base s) (ls_auto s @ [rule]) = Ok r'"
      using add v by (cases rule: AddRule_cases) auto
    moreover have "LoadAutoRules (\<lambda>_. True) (ls_autoPath s) fs' = Ok (ls_auto s')"
      using AddRule_inv [OF inv(1,3) add] a(2) inv(2) by (simp add: service_inv_def saved_def install_eq)
    ultimately show ?thesis using r build_routes_added [of s "ls_auto s" rule "[]" r' r] by (simp add: install_eq)
  qed
  show ?thesis using AddRule_accepts [OF inv(2,4) add] kept ok by blast
qed

lemma example_inv: "service_inv example_start example_fs"
  using service_run_inv [OF service_run.start [OF example_started]] .

lemma example_start_fields:
  "ls_autoErr example_start = None" "ls_autoPath example_start = ''rules.auto.json''"
  "ls_configPath example_start = ''c''" "ls_base example_start = cf_Rules example_config"
  "ls_auto example_start = example_auto" "\<not> ls_allowRemote example_start"
proof -
  have "case NewService (\<lambda>_. True) ''c'' example_config example_fs of
      Ok s \<Rightarrow> ls_autoErr s = None \<and> ls_autoPath s = ''rules.auto.json'' \<and> ls_configPath s = ''c'' \<and>
        ls_base s = cf_Rules example_config \<and> ls_auto s = example_auto \<and> \<not> ls_allowRemote s
    | Err _ \<Rightarrow> False"
    by code_simp
  then show "ls_autoErr example_start = None" "ls_autoPath example_start = ''rules.auto.json''"
    "ls_configPath example_start = ''c''" "ls_base example_start = cf_Rules example_config"
    "ls_auto example_start = example_auto" "\<not> ls_allowRemote example_start"
    by (simp_all add: example_started)
qed

lemma example_tmp: "fresh_tmp example_io (ls_autoPath example_start) example_fs"
  by (simp add: fresh_tmp_def example_io_def example_fs_def example_start_fields)

definition example_new :: redirect_rule where
  "example_new = example_rule ''localhost:3000'' ''c.test''"

lemma example_add:
  obtains v s1 fs1 where "AddRule example_io example_new example_start example_fs = (Ok v, s1, fs1)"
proof -
  obtain res s1 fs1 where add: "AddRule example_io example_new example_start example_fs = (res, s1, fs1)"
    by (metis prod_cases3)
  have "ValidateRules (cf_Rules example_config @ example_auto @ [example_new]) False = None"
    by code_simp
  then have "\<exists>v. res = Ok v"
    using AddRule_accepts [OF example_start_fields(1) _ add]
    by (simp add: example_start_fields example_io_def example_auto_def)
  with add that show ?thesis by auto
qed

lemma AddRule_functional_witness:
  "\<exists>v s1 fs1. AddRule example_io example_new example_start example_fs = (Ok v, s1, fs1) \<and>
     LoadAutoRules (\<lambda>_. True) ''rules.auto.json'' fs1 = Ok (example_auto @ [example_new])"
proof -
  obtain v s1 fs1 where add: "AddRule example_io example_new example_start example_fs = (Ok v, s1, fs1)"
    by (rule example_add)
  have "\<not> io_remove_fails example_io" by (simp add: example_io_def)
  from AddRule_functional [OF example_inv example_start_fields(1) example_tmp this add] add show ?thesis
    by (simp add: example_start_fields)
qed

lemma RemoveRule_effect:
  assumes inv: "service_inv s fs" "fresh_tmp io (ls_autoPath s) fs"
    and rem: "RemoveRule io domain s fs = (Ok v, s', fs')"
  obtains xs rule ys r r' where "ls_auto s = xs @ rule # ys" "ls_auto s' = xs @ ys" "ls_base s' = ls_base s"
    "v = view SourceAuto rule" "NormalizeDomain domain \<in> set (rule_keys [rule])"
    "ls_router s = Some r" "ls_router s' = Some r'" "routes_added rule r' r"
    "s' = (install s r')\<lparr>ls_auto := xs @ ys\<rparr>" "Redirect.New (ls_base s @ xs @ ys) = Ok r'"
    "LoadAutoRules (\<lambda>_. True) (ls_autoPath s) fs' = Ok (xs @ ys)"
proof -
  from rem obtain i r' where i: "v = view SourceAuto (ls_auto s ! i)"
    "s' = (install s r')\<lparr>ls_auto := take i (ls_auto s) @ drop (Suc i) (ls_auto s)\<rparr>" "ls_autoErr s = None"
    "indexOfDomain (ls_auto s) domain = Some i" "build s (ls_base s) (take i (ls_auto s) @ drop (Suc i) (ls_auto s)) = Ok r'"
    by (cases rule: RemoveRule_cases) auto
  let ?xs = "take i (ls_auto s)" and ?ys = "drop (Suc i) (ls_auto s)" and ?rule = "ls_auto s ! i"
  have split: "ls_auto s = ?xs @ ?rule # ?ys" and key: "NormalizeDomain domain \<in> set (rule_keys [?rule])"
    using indexOfDomain_Some [OF i(4)] by (auto simp: id_take_nth_drop rule_keys_def)
  obtain r where r: "ls_router s = Some r" "Redirect.New (ls_base s @ ls_auto s) = Ok r"
    "ValidateRules (ls_base s @ ls_auto s) (ls_allowRemote s) = None"
    using inv(1) by (auto simp: service_inv_def follows_def)
  have new: "Redirect.New (ls_base s @ ?xs @ ?ys) = Ok r'" using i(5) by (simp add: build_Ok_iff)
  have "build s (ls_base s) (?xs @ ?rule # ?ys) = Ok r"
    using r(2,3) split by (simp add: build_Ok_iff)
  then have routes: "routes_added ?rule r' r" using build_routes_added new by blast
  have "service_inv s' fs'" using RemoveRule_inv [OF inv rem] .
  then have load: "LoadAutoRules (\<lambda>_. True) (ls_autoPath s) fs' = Ok (?xs @ ?ys)"
    using i(2,3) by (simp add: service_inv_def saved_def install_eq)
  show ?thesis
    by (rule that [of ?xs ?rule ?ys r r'])
      (use split i(1,2) key r(1) new routes load in \<open>simp_all add: install_eq\<close>)
qed

text \<open>
  C11: Removing a rule takes out exactly one auto rule that has the domain: it is gone from memory
  and from disk, none of its domains is intercepted any more, and every other host is routed as before.
\<close>

theorem RemoveRule_functional:
  assumes "service_inv s fs" "fresh_tmp io (ls_autoPath s) fs"
    and "RemoveRule io domain s fs = (Ok v, s', fs')"
  shows "\<exists>xs rule ys r r'. ls_auto s = xs @ rule # ys \<and> ls_auto s' = xs @ ys \<and> ls_base s' = ls_base s \<and>
    v = view SourceAuto rule \<and> NormalizeDomain domain \<in> set (rule_keys [rule]) \<and>
    LoadAutoRules (\<lambda>_. True) (ls_autoPath s) fs' = Ok (xs @ ys) \<and>
    ls_router s = Some r \<and> ls_router s' = Some r' \<and>
    (\<forall>h. h \<in> set (rule_keys [rule]) \<longrightarrow> host_rule r' h = None) \<and>
    (\<forall>h. h \<notin> set (rule_keys [rule]) \<longrightarrow> host_rule r' h = host_rule r h)"
proof -
  obtain xs rule ys r r' where e: "ls_auto s = xs @ rule # ys" "ls_auto s' = xs @ ys" "ls_base s' = ls_base s"
    "v = view SourceAuto rule" "NormalizeDomain domain \<in> set (rule_keys [rule])"
    "ls_router s = Some r" "ls_router s' = Some r'" "routes_added rule r' r"
    "Redirect.New (ls_base s @ xs @ ys) = Ok r'" "LoadAutoRules (\<lambda>_. True) (ls_autoPath s) fs' = Ok (xs @ ys)"
    by (rule RemoveRule_effect [OF assms])
  have valid: "ValidateRules ((ls_base s @ xs) @ rule # ys) (ls_allowRemote s) = None"
    using assms(1) e(1) by (simp add: service_inv_def follows_def)
  then have "distinct (rule_keys (ls_base s @ xs) @ rule_keys [rule] @ rule_keys ys)"
    using rule_keys_append [of "[rule]" ys] by (simp add: ValidateRules_None rule_keys_append)
  moreover have "ValidateRules (ls_base s @ xs @ ys) (ls_allowRemote s) = None"
    using valid rule_keys_append [of "[rule]" ys] by (auto simp: ValidateRules_None rule_keys_append)
  then have "map fst (hosts r') = rule_keys (ls_base s @ xs @ ys)" using New_keys(1) e(9) by blast
  ultimately have "\<forall>h. h \<in> set (rule_keys [rule]) \<longrightarrow> host_rule r' h = None"
    unfolding host_rule_def map_of_eq_None_iff set_map [symmetric] by (auto simp: rule_keys_append)
  moreover have "\<forall>h. h \<notin> set (rule_keys [rule]) \<longrightarrow> host_rule r' h = host_rule r h"
    using e(8) by (simp add: routes_added_def)
  ultimately show ?thesis
    by (intro exI [of _ xs] exI [of _ rule] exI [of _ ys] exI [of _ r] exI [of _ r'] conjI) (use e in simp_all)
qed

lemma RemoveRule_functional_witness:
  "\<exists>v s' fs'. RemoveRule example_io ''B.test.'' example_start example_fs = (Ok v, s', fs') \<and> ls_auto s' = []"
proof -
  have "case NewService (\<lambda>_. True) ''c'' example_config example_fs of
      Ok s \<Rightarrow> (case RemoveRule example_io ''B.test.'' s example_fs of (Ok _, _) \<Rightarrow> True | _ \<Rightarrow> False) | Err _ \<Rightarrow> False"
    by code_simp
  then obtain v s' fs' where r: "RemoveRule example_io ''B.test.'' example_start example_fs = (Ok v, s', fs')"
    by (auto simp: example_started split: prod.splits sum.splits)
  from RemoveRule_functional [OF example_inv example_tmp r] show ?thesis
    using r by (auto simp: example_start_fields example_auto_def Cons_eq_append_conv)
qed

lemma RemoveRule_accepts:
  assumes "ls_autoErr s = None" "TrimSpace domain \<noteq> []" "indexOfDomain (ls_base s) domain = None"
    and "indexOfDomain (ls_auto s) domain = Some i"
    and "build s (ls_base s) (take i (ls_auto s) @ drop (Suc i) (ls_auto s)) = Ok r"
    and "io_fail io = None" "\<not> io_remove_fails io"
  shows "\<exists>fs'. RemoveRule io domain s fs = (Ok (view SourceAuto (ls_auto s ! i)),
    (install s r)\<lparr>ls_auto := take i (ls_auto s) @ drop (Suc i) (ls_auto s)\<rparr>, fs')"
proof -
  obtain f where "WriteAutoRules io (ls_autoPath s) (take i (ls_auto s) @ drop (Suc i) (ls_auto s)) fs = (f, None)"
    using WriteAutoRules_outcome [OF assms(6,7)] by (metis prod.collapse)
  with assms show ?thesis by (simp add: RemoveRule_def Let_def)
qed

lemma indexOfDomain_last:
  assumes "indexOfDomain xs d = None" "d \<in> set (rr_Domains rule)"
  shows "indexOfDomain (xs @ [rule]) d = Some (length xs)"
proof -
  have "NormalizeDomain d \<in> set (rule_keys (xs @ [rule]))" using assms(2) by (simp add: rule_keys_def)
  then obtain i where i: "indexOfDomain (xs @ [rule]) d = Some i" using indexOfDomain_None by blast
  have "i = length xs"
  proof (rule ccontr)
    assume "i \<noteq> length xs"
    then have "i < length xs" using indexOfDomain_Some [OF i] by simp
    then have "NormalizeDomain d \<in> set (rule_keys xs)"
      using indexOfDomain_Some [OF i] by (force simp: rule_keys_def nth_append)
    with assms(1) show False by (simp add: indexOfDomain_None)
  qed
  with i show ?thesis by simp
qed

text \<open>
  C12: Removing a rule that was just added, by any of its domains, restores the service exactly:
  the same rules, router and trust list, and on disk the rules that were there before.
\<close>

theorem add_remove_roundtrip:
  assumes inv: "service_inv s fs" "fresh_tmp io (ls_autoPath s) fs"
    and add: "AddRule io rule s fs = (Ok v, s1, fs1)" "d \<in> set (rr_Domains rule)" "TrimSpace d \<noteq> []"
    and rem: "fresh_tmp io' (ls_autoPath s) fs1" "io_fail io' = None" "\<not> io_remove_fails io'"
    and result: "RemoveRule io' d s1 fs1 = (res, s2, fs2)"
  shows "res = Ok v \<and> s2 = s \<and> LoadAutoRules (\<lambda>_. True) (ls_autoPath s) fs2 = Ok (ls_auto s)"
proof -
  from add(1) obtain r1 where a: "v = view SourceAuto rule" "s1 = (install s r1)\<lparr>ls_auto := ls_auto s @ [rule]\<rparr>"
    "ls_autoErr s = None" "build s (ls_base s) (ls_auto s @ [rule]) = Ok r1"
    by (cases rule: AddRule_cases) auto
  obtain r where r: "ls_router s = Some r" "ls_trusted s = TrustSet (Targets r) (Domains r)"
    "build s (ls_base s) (ls_auto s) = Ok r"
    using inv(1) by (auto simp: service_inv_def follows_def build_Ok_iff)
  have "distinct (rule_keys (ls_base s @ ls_auto s @ [rule]))"
    using a(4) by (simp add: build_Ok_iff ValidateRules_None)
  note d = rule_keys_disjoint [OF this add(2)]
  have "build s1 = build s" using a(2) by (intro build_cong) (simp add: install_eq)
  then have b1: "build s1 (ls_base s) (ls_auto s) = Ok r" using r(3) by simp
  have "\<exists>fs'. RemoveRule io' d s1 fs1 = (Ok (view SourceAuto (ls_auto s1 ! length (ls_auto s))),
      (install s1 r)\<lparr>ls_auto := take (length (ls_auto s)) (ls_auto s1) @ drop (Suc (length (ls_auto s))) (ls_auto s1)\<rparr>, fs')"
    using a(2,3) add(3) rem(2,3) b1 d
    by (intro RemoveRule_accepts) (simp_all add: install_eq indexOfDomain_None indexOfDomain_last add(2))
  then have "res = Ok v" "s2 = s" using result a(1,2) r(1,2) by (auto simp: install_eq)
  moreover have "service_inv s2 fs2"
    using AddRule_inv [OF inv add(1)] RemoveRule_inv [OF _ _ result] rem(1) a(2) by (simp add: install_eq)
  ultimately show ?thesis using a(3) by (simp add: service_inv_def saved_def)
qed

lemma add_remove_roundtrip_witness:
  "\<exists>s1 fs1 v fs2. AddRule example_io example_new example_start example_fs = (Ok v, s1, fs1) \<and>
     RemoveRule example_io ''c.test'' s1 fs1 = (Ok v, example_start, fs2)"
proof -
  obtain v s1 fs1 where add: "AddRule example_io example_new example_start example_fs = (Ok v, s1, fs1)"
    by (rule example_add)
  obtain res s2 fs2 where rem: "RemoveRule example_io ''c.test'' s1 fs1 = (res, s2, fs2)" by (metis prod_cases3)
  have "WriteAutoRules example_io (ls_autoPath example_start) (example_auto @ [example_new]) example_fs = (fs1, None)"
    using add by (cases rule: AddRule_cases) (simp_all add: example_start_fields)
  from WriteAutoRules_ok [OF example_tmp this] have "fresh_tmp example_io (ls_autoPath example_start) fs1"
    by (simp add: fresh_tmp_def example_io_def example_fs_def example_start_fields)
  then show ?thesis
    using add_remove_roundtrip [OF example_inv example_tmp add _ _ _ _ _ rem] add rem
    by (simp add: example_new_def example_rule_def example_io_def str_simps)
qed

section \<open>Restarts\<close>

lemma NewService_from_saved:
  assumes "LoadAutoRules rd (AutoRulesPath configPath) fs = Ok auto"
    and "ValidateRules (cf_Rules cfg @ auto) (cf_AllowRemoteTargets cfg) = None" "Redirect.New (cf_Rules cfg @ auto) = Ok r"
  shows "\<exists>s. NewService rd configPath cfg fs = Ok s \<and> ls_base s = cf_Rules cfg \<and> ls_auto s = auto \<and>
    ls_router s = Some r \<and> ls_trusted s = TrustSet (Targets r) (Domains r) \<and> ls_autoErr s = None"
proof -
  have "build (initial_service configPath cfg) (cf_Rules cfg) auto = Ok r"
    using assms(2,3) by (simp add: build_Ok_iff initial_service_def)
  then show ?thesis using assms(1) by (simp add: NewService_def initial_service_def install_eq Let_def)
qed

text \<open>
  A restart changes nothing: a service that is started on the files of a running one, with the
  configuration rules it runs, comes up with the same rules, the same router and the same trust
  list, whatever rules were added, removed or merged before.
\<close>

theorem restart_same:
  assumes "service_run configPath cfg (s, fs)" "ls_autoErr s = None"
    and "cf_Rules cfg' = ls_base s" "cf_AllowRemoteTargets cfg' = ls_allowRemote s"
  shows "\<exists>s'. NewService (\<lambda>_. True) (ls_configPath s) cfg' fs = Ok s' \<and> ls_base s' = ls_base s \<and>
    ls_auto s' = ls_auto s \<and> ls_router s' = ls_router s \<and> ls_trusted s' = ls_trusted s \<and> ls_autoErr s' = None"
proof -
  obtain r where r: "ls_router s = Some r" "Redirect.New (ls_base s @ ls_auto s) = Ok r"
    "ls_trusted s = TrustSet (Targets r) (Domains r)" "ValidateRules (ls_base s @ ls_auto s) (ls_allowRemote s) = None"
    "LoadAutoRules (\<lambda>_. True) (AutoRulesPath (ls_configPath s)) fs = Ok (ls_auto s)"
    using service_run_inv [OF assms(1)] assms(2) by (auto simp: service_inv_def follows_def saved_def)
  from NewService_from_saved [of "\<lambda>_. True" "ls_configPath s" fs "ls_auto s" cfg' r] r assms(3,4)
  show ?thesis by auto
qed

lemma restart_same_witness:
  "\<exists>s'. NewService (\<lambda>_. True) ''c'' example_config example_fs = Ok s' \<and> ls_auto s' = example_auto \<and> ls_autoErr s' = None"
proof -
  have "cf_AllowRemoteTargets example_config = ls_allowRemote example_start"
    using example_start_fields(6) by (simp add: example_config_def Default_def Lemmingd_def Hamsterd_def base_config_def)
  then show ?thesis
    using restart_same [OF service_run.start [OF example_started] example_start_fields(1), of example_config]
    by (auto simp: example_start_fields)
qed

lemma verify_base_None: "verify_base base c = None \<longleftrightarrow> cf_Rules c = base"
proof -
  have "sameRule = (=)"
    by (intro ext) (auto simp: sameRule_def)
  then show ?thesis by (simp add: verify_base_def list.rel_eq)
qed

text \<open>
  C10: A merge moves the rules but no route: after it the running service has the same router, all
  rules are configuration rules, and a service started on the new configuration file has that
  router as well. It is refused when there are auto rules and the rules in the configuration file are not the ones the service started with.
\<close>

theorem Merge_keeps_routes:
  assumes inv: "service_inv s fs" and paths: "merge_paths io (ls_configPath s) target fs"
    and disk: "on_disk io (ls_configPath s) target fs c (ls_auto s)" and some: "ls_auto s \<noteq> []"
    and merge: "Merge io s fs = (res, s', fs')"
  shows "ls_router s' = ls_router s \<and> ls_trusted s' = ls_trusted s \<and>
    (cf_Rules c \<noteq> ls_base s \<longrightarrow> (\<exists>e. res = Err e) \<and> s' = s \<and> fs' = fs) \<and>
    (\<forall>m. res = Ok m \<longrightarrow> ls_base s' = ls_base s @ ls_auto s \<and> ls_auto s' = [] \<and>
      (\<exists>c' s2. on_disk io (ls_configPath s) target fs' c' [] \<and>
         NewService (\<lambda>_. True) (ls_configPath s) c' fs' = Ok s2 \<and> ls_router s2 = ls_router s \<and> ls_base s2 = ls_base s'))"
proof -
  let ?verify = "Some (verify_base (ls_base s))"
  have load: "LoadAutoRules (mi_read io) (AutoRulesPath (ls_configPath s)) fs = Ok (ls_auto s)"
    and res: "mi_resolve io (ls_configPath s) = Some target"
    using disk paths by (simp_all add: on_disk_def merge_paths_def)
  obtain d where d: "readPrivate (mi_read io) target fs = Ok d" "decode d = Some c"
    using disk by (auto simp: on_disk_def)
  have kept: "ls_router s' = ls_router s \<and> ls_trusted s' = ls_trusted s"
    using merge by (cases rule: Merge_cases) auto
  have changed: "(\<exists>e. res = Err e) \<and> s' = s \<and> fs' = fs" if "cf_Rules c \<noteq> ls_base s"
  proof -
    have "\<not> merge_checks io c (ls_auto s) ?verify"
      using that verify_base_None [of "ls_base s" c] by (auto simp: merge_checks_def)
    note u = MergeAutoRules_unfold(2,3) [OF load res d this]
    show ?thesis using merge by (cases rule: Merge_cases) (use u some in auto)
  qed
  have merged: "ls_base s' = ls_base s @ ls_auto s \<and> ls_auto s' = [] \<and>
      (\<exists>c' s2. on_disk io (ls_configPath s) target fs' c' [] \<and>
         NewService (\<lambda>_. True) (ls_configPath s) c' fs' = Ok s2 \<and> ls_router s2 = ls_router s \<and> ls_base s2 = ls_base s')"
    if "res = Ok m" for m
  proof -
    have s': "s' = s\<lparr>ls_base := ls_base s @ ls_auto s, ls_auto := []\<rparr>"
      and m: "MergeAutoRules io (ls_configPath s) ?verify fs = (fs', Ok m)"
      using merge that by (cases rule: Merge_cases; auto)+
    have base: "cf_Rules c = ls_base s" using changed that by auto
    let ?c = "c\<lparr>cf_Rules := ls_base s @ ls_auto s\<rparr>"
    have after: "on_disk io (ls_configPath s) target fs' ?c []" "fs' (AutoRulesPath (ls_configPath s)) = None"
      "ValidateRules (ls_base s @ ls_auto s) (cf_AllowRemoteTargets c) = None"
      using MergeAutoRules_Ok [OF paths disk some m] base by simp_all
    obtain r where r: "ls_router s = Some r" "Redirect.New (ls_base s @ ls_auto s) = Ok r"
      using inv by (auto simp: service_inv_def follows_def)
    have "LoadAutoRules (\<lambda>_. True) (AutoRulesPath (ls_configPath s)) fs' = Ok []"
      using after(2) by (simp add: LoadAutoRules_def readPrivate_def)
    from NewService_from_saved [OF this, of ?c r] after(3) r s' show ?thesis
      using after(1) by auto
  qed
  from kept changed merged show ?thesis by blast
qed

lemma Merge_keeps_routes_witness:
  "ls_router (fst (snd (Merge example_merge example_start example_fs))) = ls_router example_start \<and>
   ls_auto (fst (snd (Merge example_merge example_start example_fs))) = []"
proof -
  obtain res s' fs' where m: "Merge example_merge example_start example_fs = (res, s', fs')" by (metis prod_cases3)
  have paths: "merge_paths example_merge (ls_configPath example_start) ''c'' example_fs"
    "on_disk example_merge (ls_configPath example_start) ''c'' example_fs example_config (ls_auto example_start)"
    "ls_auto example_start \<noteq> []"
    using example_merge_paths example_on_disk by (simp_all add: example_start_fields example_auto_def)
  have "case NewService (\<lambda>_. True) ''c'' example_config example_fs of
      Ok s \<Rightarrow> (case Merge example_merge s example_fs of (Ok _, _) \<Rightarrow> True | _ \<Rightarrow> False) | Err _ \<Rightarrow> False"
    by code_simp
  then have "\<exists>r. res = Ok r" using m by (auto simp: example_started split: sum.splits)
  with Merge_keeps_routes [OF example_inv paths m] m show ?thesis by auto
qed

section \<open>Recent requests\<close>

definition ordered :: "service_state \<Rightarrow> request_view list" where
  "ordered s = drop (ls_next s) (ls_recent s) @ take (ls_next s) (ls_recent s)"

lemma length_ordered: "length (ordered s) = length (ls_recent s)"
  by (simp add: ordered_def)

lemma ring_ok_Record: "ring_ok s \<Longrightarrow> ring_ok (Record q s)"
  by (auto simp: ring_ok_def Record_def recentRequests_def)

lemma ordered_full:
  assumes "length xs = n" "k < n"
  shows "drop (Suc k mod n) (xs[k := q]) @ take (Suc k mod n) (xs[k := q]) = tl (drop k xs @ take k xs) @ [q]"
proof -
  have hd: "drop k xs = xs ! k # drop (Suc k) xs" using assms by (simp add: Cons_nth_drop_Suc)
  show ?thesis
  proof (cases "Suc k = n")
    case True
    then have "xs[k := q] = take k xs @ [q]" using assms by (simp add: upd_conv_take_nth_drop)
    with True hd assms show ?thesis by simp
  next
    case False
    then have "Suc k mod n = Suc k" using assms by simp
    moreover have "xs[k := q] = take k xs @ q # drop (Suc k) xs" using assms by (simp add: upd_conv_take_nth_drop)
    ultimately show ?thesis using hd assms by simp
  qed
qed

definition lastn :: "nat \<Rightarrow> 'a list \<Rightarrow> 'a list" where
  "lastn n xs = rev (take n (rev xs))"

lemma lastn_append: "lastn n (lastn n xs @ ys) = lastn n (xs @ ys)"
  by (simp add: lastn_def)

lemma lastn_short: "length xs \<le> n \<Longrightarrow> lastn n xs = xs"
  by (simp add: lastn_def)

lemma lastn_full: "length xs = Suc n \<Longrightarrow> lastn n xs = tl xs"
  by (cases xs) (simp_all add: lastn_def)

lemma ordered_Record:
  assumes "ring_ok s"
  shows "ordered (Record q s) = lastn recentRequests (ordered s @ [q])"
proof (cases "length (ls_recent s) < recentRequests")
  case True
  with assms have "ls_next s = 0" by (simp add: ring_ok_def)
  with True show ?thesis by (simp add: ordered_def Record_def lastn_short)
next
  case False
  with assms have full: "length (ls_recent s) = recentRequests" "ls_next s < recentRequests"
    by (simp_all add: ring_ok_def)
  then have ne: "ordered s \<noteq> []" by (auto simp: ordered_def recentRequests_def)
  have "ordered (Record q s) = tl (ordered s) @ [q]"
    using False ordered_full [OF full, of q] by (simp add: ordered_def Record_def)
  also have "\<dots> = lastn recentRequests (ordered s @ [q])"
    using ne full(1) length_ordered [of s] by (simp add: lastn_full)
  finally show ?thesis .
qed

lemma ordered_fold:
  "ring_ok s \<Longrightarrow> ordered (fold Record qs s) = lastn recentRequests (ordered s @ qs)"
proof (induction qs arbitrary: s)
  case Nil
  then have "length (ordered s) \<le> recentRequests" by (simp add: length_ordered ring_ok_def)
  then show ?case by (simp add: lastn_short)
next
  case (Cons q qs)
  then show ?case using ordered_Record [OF Cons.prems, of q] ring_ok_Record [OF Cons.prems, of q]
    by (simp add: lastn_append)
qed

text \<open>
  The recent requests are a ring of the last 200: after any sequence of requests, \<open>Recent\<close>
  returns the newest of them, newest first, at most the limit asked for.
\<close>

theorem Recent_newest_first:
  assumes "ls_recent s = []" "ls_next s = 0"
  shows "Recent limit (fold Record qs s) =
    take (if 0 < limit then min 200 (nat limit) else 200) (rev qs)"
proof -
  have "ring_ok s" "ordered s = []" using assms by (simp_all add: ring_ok_def ordered_def recentRequests_def)
  then have "ordered (fold Record qs s) = lastn 200 qs"
    using ordered_fold [of s qs] by (simp add: recentRequests_def)
  then have "rev (drop (ls_next (fold Record qs s)) (ls_recent (fold Record qs s)) @
      take (ls_next (fold Record qs s)) (ls_recent (fold Record qs s))) = take 200 (rev qs)"
    by (simp only: ordered_def lastn_def rev_rev_ident)
  then show ?thesis by (auto simp: Recent_def Let_def min_def)
qed

definition example_request :: "int \<Rightarrow> request_view" where
  "example_request status = \<lparr>rv_Time = 0, rv_Method = ''GET'', rv_Host = ''a'', rv_Path = ''/'', rv_Target = [],
     rv_Status = status, rv_Error = []\<rparr>"

lemma Recent_newest_first_witness:
  "Recent 2 (fold Record (map example_request [200, 404, 502]) (initial_service ''c'' example_config)) =
     map example_request [502, 404]"
proof -
  have "ls_recent (initial_service ''c'' example_config) = []" "ls_next (initial_service ''c'' example_config) = 0"
    by (simp_all add: initial_service_def)
  from Recent_newest_first [OF this, of 2 "map example_request [200, 404, 502]"] show ?thesis by simp
qed

section \<open>Status codes\<close>

text \<open>The control API answers 201 and 200 exactly to a change that was made, and 5xx only to a failed save or merge.\<close>

lemma control_statuses:
  "add_status r = 201 \<longleftrightarrow> (\<exists>v. r = Ok v)" "add_status r = 500 \<longleftrightarrow> (\<exists>e. r = Err (StorageError e))"
  "remove_status r = 200 \<longleftrightarrow> (\<exists>v. r = Ok v)" "merge_status m = 200 \<longleftrightarrow> (\<exists>v. m = Ok v)"
  "merge_status m = 422 \<longleftrightarrow> (\<exists>e. m = Err (MergeFailed (ErrInvalidMerge e)))"
  by (auto simp: add_status_def remove_status_def merge_status_def is_conflict_def
      split: sum.splits service_error.splits merge_error.splits)

end
