(* ===== verification/Control.thy ===== *)
theory Control
  imports GoJson GoHttp GoNet GoFile
begin

text \<open>
  The local control API of \<open>internal/control/control.go\<close>, on Unix (\<open>private_unix.go\<close>): the endpoint
  file that publishes address and token of a running proxy, the server's check of every request, and
  the client that reads the file and calls the server. \<open>url.Parse\<close> is an argument, as are the outcomes
  of system calls and of the HTTP transport. Files hold JSON values, so the cut of a file at 64 KiB
  is not modelled; that of an answer is an argument. Error values keep the fixed part of their text.
\<close>

definition FileName :: string where "FileName = ''control.json''"
definition maxRequestBytes :: nat where "maxRequestBytes = 65536"
definition maxResponseBytes :: nat where "maxResponseBytes = 1048576"

section \<open>The endpoint file\<close>

record endpoint =
  ep_Version :: int
  ep_Service :: string
  ep_URL :: string
  ep_Token :: string
  ep_PID :: int

definition endpoint_doc :: "endpoint \<Rightarrow> doc" where
  "endpoint_doc e =
     ([JObj [(''version'', enc_int (ep_Version e)), (''service'', JStr (ep_Service e)), (''url'', JStr (ep_URL e)),
             (''token'', JStr (ep_Token e)), (''pid'', enc_int (ep_PID e))]], True)"

definition dec_endpoint_field :: "string \<Rightarrow> json \<Rightarrow> endpoint \<Rightarrow> endpoint option" where
  "dec_endpoint_field n j e =
     (if n = ''version'' then map_option (\<lambda>v. e\<lparr>ep_Version := v\<rparr>) (dec_int j (ep_Version e))
      else if n = ''service'' then map_option (\<lambda>v. e\<lparr>ep_Service := v\<rparr>) (dec_string j (ep_Service e))
      else if n = ''url'' then map_option (\<lambda>v. e\<lparr>ep_URL := v\<rparr>) (dec_string j (ep_URL e))
      else if n = ''token'' then map_option (\<lambda>v. e\<lparr>ep_Token := v\<rparr>) (dec_string j (ep_Token e))
      else map_option (\<lambda>v. e\<lparr>ep_PID := v\<rparr>) (dec_int j (ep_PID e)))"

definition endpoint_names :: "string list" where
  "endpoint_names = [''version'', ''service'', ''url'', ''token'', ''pid'']"

definition dec_endpoint :: "doc \<Rightarrow> endpoint option" where
  "dec_endpoint d =
     Option.bind (single_value d) (\<lambda>j. dec_struct False endpoint_names dec_endpoint_field j
       \<lparr>ep_Version = 0, ep_Service = [], ep_URL = [], ep_Token = [], ep_PID = 0\<rparr>)"

text \<open>What the process sees of the system: its user, the owners of files (if the platform tells), and signals.\<close>

datatype kill_result = Delivered | NotPermitted | NoProcess

record unix =
  ux_euid :: "32 word"
  ux_owner :: "string \<Rightarrow> 32 word option"
  ux_kill :: "int \<Rightarrow> kill_result"

definition checkOwner :: "unix \<Rightarrow> string \<Rightarrow> perm \<Rightarrow> perm \<Rightarrow> string option" where
  "checkOwner ux path p others =
     (if p AND others \<noteq> 0 then Some ''accessible by other users''
      else case ux_owner ux path of
        Some uid \<Rightarrow> if uid \<noteq> ux_euid ux \<and> uid \<noteq> 0 then Some ''owned by another user'' else None
      | None \<Rightarrow> None)"

definition processAlive :: "unix \<Rightarrow> int \<Rightarrow> bool" where
  "processAlive ux pid =
     (if pid \<le> 0 then False else ux_kill ux pid = Delivered \<or> ux_kill ux pid = NotPermitted)"

datatype endpoint_error = EndpointMissing | EndpointIO | EndpointIrregular | EndpointOwner string | EndpointParse
  | EndpointVersion int

text \<open>\<open>rd\<close>: whether opening, inspecting and reading an existing file works.\<close>

definition readEndpoint :: "unix \<Rightarrow> bool \<Rightarrow> string \<Rightarrow> doc fs \<Rightarrow> (endpoint_error, endpoint) result" where
  "readEndpoint ux rd path fs =
     (case fs path of
        None \<Rightarrow> Err EndpointMissing
      | Some f \<Rightarrow>
          if \<not> rd then Err EndpointIO
          else if \<not> file_regular f then Err EndpointIrregular
          else case checkOwner ux path (file_perm f) 63 of
            Some m \<Rightarrow> Err (EndpointOwner m)
          | None \<Rightarrow>
              (case dec_endpoint (file_data f) of
                 None \<Rightarrow> Err EndpointParse
               | Some e \<Rightarrow> if ep_Version e \<noteq> 1 then Err (EndpointVersion (ep_Version e)) else Ok e))"

definition writeEndpoint ::
  "string \<Rightarrow> doc \<Rightarrow> write_step option \<Rightarrow> string \<Rightarrow> endpoint \<Rightarrow> doc fs \<Rightarrow> doc fs list \<times> write_step option" where
  "writeEndpoint tmp part fail path e fs = write_atomic tmp part fail path (endpoint_doc e) 384 fs"

section \<open>Replies\<close>

record reply =
  rp_status :: int
  rp_header :: header
  rp_body :: json

definition WriteJSON :: "header \<Rightarrow> int \<Rightarrow> json \<Rightarrow> reply" where
  "WriteJSON h status v =
     \<lparr>rp_status = status, rp_header = hset (hset h ''Content-Type'' ''application/json'') ''Cache-Control'' ''no-store'', rp_body = v\<rparr>"

definition WriteError :: "header \<Rightarrow> int \<Rightarrow> string \<Rightarrow> reply" where
  "WriteError h status m = WriteJSON h status (JObj [(''error'', JStr m)])"

definition DecodeJSON :: "(json \<Rightarrow> 'a option) \<Rightarrow> doc \<Rightarrow> (string, 'a) result" where
  "DecodeJSON dec d =
     (case d of (js, clean) \<Rightarrow>
        (case js of
           [] \<Rightarrow> Err ''invalid request body''
         | j # rest \<Rightarrow>
             (case dec j of
                None \<Rightarrow> Err ''invalid request body''
              | Some v \<Rightarrow>
                  if rest \<noteq> [] \<or> \<not> clean then Err ''invalid request body: unexpected data after the JSON value'' else Ok v)))"

text \<open>
  The check of every request. The handler behind it gets the limit of the body it may read;
  comparing in constant time compares bytes.
\<close>

definition authorize :: "(nat \<Rightarrow> request \<Rightarrow> reply) \<Rightarrow> string \<Rightarrow> string \<Rightarrow> request \<Rightarrow> reply" where
  "authorize handler address token r =
     (if req_host r \<noteq> address then WriteError [] 403 ''unexpected Host header''
      else if hget (req_header r) ''Origin'' \<noteq> [] \<or> hget (req_header r) ''Sec-Fetch-Site'' \<noteq> [] \<or>
              hget (req_header r) ''Sec-Fetch-Mode'' \<noteq> []
        then WriteError [] 403 ''browser requests are not accepted''
      else if hget (req_header r) ''Authorization'' \<noteq> ''Bearer '' @ token
        then WriteError [] 401 ''missing or invalid token''
      else handler maxRequestBytes r)"

section \<open>The server\<close>

record server =
  sv_path :: string
  sv_address :: string
  sv_token :: string

text \<open>
  Starting: the permissions of the directory if it can be inspected, the random bytes, the address
  listened on, and how the write of the endpoint file goes.
\<close>

record start_io =
  st_dir :: "perm option"
  st_random :: "nat list option"
  st_listen :: "string option"
  st_pid :: int
  st_tmp :: string
  st_part :: doc
  st_fail :: "write_step option"

definition Start :: "unix \<Rightarrow> start_io \<Rightarrow> string \<Rightarrow> string \<Rightarrow> doc fs \<Rightarrow> (string, server) result \<times> doc fs" where
  "Start ux io dir service fs =
     (case st_dir io of
        None \<Rightarrow> (Err ''inspect the control API directory'', fs)
      | Some p \<Rightarrow>
     (case checkOwner ux dir p 18 of
        Some m \<Rightarrow> (Err ''control API directory'', fs)
      | None \<Rightarrow>
     (case st_random io of
        None \<Rightarrow> (Err ''generate control token'', fs)
      | Some secret \<Rightarrow>
     (case st_listen io of
        None \<Rightarrow> (Err ''listen for the control API'', fs)
      | Some address \<Rightarrow>
          let token = hex_encode secret;
              endpoint = \<lparr>ep_Version = 1, ep_Service = service, ep_URL = ''http://'' @ address, ep_Token = token, ep_PID = st_pid io\<rparr>;
              path = dir @ ''/'' @ FileName;
              w = writeEndpoint (st_tmp io) (st_part io) (st_fail io) path endpoint fs
          in case snd w of
               Some _ \<Rightarrow> (Err ''write endpoint'', after_write w)
             | None \<Rightarrow> (Ok \<lparr>sv_path = path, sv_address = address, sv_token = token\<rparr>, after_write w)))))"

text \<open>Closing: whether the shutdown works, reading works, and removing works; the list has the errors.\<close>

definition CloseServer :: "unix \<Rightarrow> bool \<Rightarrow> bool \<Rightarrow> bool \<Rightarrow> server \<Rightarrow> doc fs \<Rightarrow> string list \<times> doc fs" where
  "CloseServer ux shut rd rm s fs =
     (let errs = (if shut then [] else [''shutdown''])
      in case readEndpoint ux rd (sv_path s) fs of
           Inl _ \<Rightarrow> (errs, fs)
         | Inr current \<Rightarrow>
             if ep_Token current \<noteq> sv_token s then (errs, fs)
             else if \<not> rm then (errs @ [''remove''], fs)
             else (errs, fs(sv_path s := None)))"

section \<open>The client\<close>

record client =
  cl_dir :: string
  cl_service :: string

definition NewClient :: "string \<Rightarrow> string \<Rightarrow> client" where
  "NewClient dir service = \<lparr>cl_dir = dir, cl_service = service\<rparr>"

datatype call_error = NotRunning | BadEndpoint endpoint_error | NotLocal | EncodeFailed | RequestFailed | SendFailed
  | ReadFailedC | ApiError string | ApiStatus int | DecodeFailed

text \<open>
  What is sent is a request to a host; what comes back is a dial error, another error, or a status
  with the document of the body, if reading works. \<open>cio_limit n d\<close> is what the first \<open>n\<close> bytes of the body with document \<open>d\<close> parse
  to (\<open>io.LimitReader\<close>). The body to send is \<open>None\<close> when there is none and \<open>Some None\<close> when it cannot be encoded.
\<close>

record out_request =
  or_method :: string
  or_host :: string
  or_path :: string
  or_header :: header
  or_body :: "json option"

datatype sent = DialError | OtherError | Answer int "doc option"

record 'a call_io =
  cio_read :: bool
  cio_request :: bool
  cio_send :: "out_request \<Rightarrow> sent"
  cio_limit :: "nat \<Rightarrow> doc \<Rightarrow> doc"
  cio_out :: "(json \<Rightarrow> 'a option) option"

definition dec_api_error :: "doc \<Rightarrow> string option" where
  "dec_api_error d =
     Option.bind (single_value d) (\<lambda>j. dec_struct False [''error''] (\<lambda>_ j old. dec_string j old) j [])"

text \<open>\<open>Client.Do\<close>: the result, \<open>None\<close> where nothing is decoded, and the request if one is sent.\<close>

definition local_endpoint :: "(string \<Rightarrow> url option) \<Rightarrow> string \<Rightarrow> endpoint \<Rightarrow> url option" where
  "local_endpoint parse service e =
     (case parse (ep_URL e) of
        None \<Rightarrow> None
      | Some base \<Rightarrow>
          if ep_Service e \<noteq> service \<or> url_scheme base \<noteq> ''http'' \<or> url_user base \<or>
             url_hostname (url_host base) \<noteq> ''127.0.0.1'' \<or> url_port (url_host base) = [] \<or>
             (url_path base \<noteq> [] \<and> url_path base \<noteq> ''/'') \<or> url_query base \<noteq> [] \<or> url_fragment base \<noteq> []
          then None else Some base)"

definition finish_call :: "(nat \<Rightarrow> doc \<Rightarrow> doc) \<Rightarrow> (json \<Rightarrow> 'a option) option \<Rightarrow> sent \<Rightarrow> (call_error, 'a option) result" where
  "finish_call limit out s =
     (case s of
        DialError \<Rightarrow> Err NotRunning
      | OtherError \<Rightarrow> Err SendFailed
      | Answer status data \<Rightarrow>
          (case data of
             None \<Rightarrow> Err ReadFailedC
           | Some body \<Rightarrow>
               let d = limit maxResponseBytes body
               in if 300 \<le> status then
                 (case dec_api_error d of
                    Some m \<Rightarrow> if m \<noteq> [] then Err (ApiError m) else Err (ApiStatus status)
                  | None \<Rightarrow> Err (ApiStatus status))
               else (case out of
                  None \<Rightarrow> Ok None
                | Some dec \<Rightarrow> (case Option.bind (single_value d) dec of None \<Rightarrow> Err DecodeFailed | Some v \<Rightarrow> Ok (Some v)))))"

definition Do ::
  "(string \<Rightarrow> url option) \<Rightarrow> unix \<Rightarrow> 'a call_io \<Rightarrow> client \<Rightarrow> string \<Rightarrow> string \<Rightarrow> json option option \<Rightarrow> doc fs \<Rightarrow>
     (call_error, 'a option) result \<times> out_request option" where
  "Do parse ux io c verb path body fs =
     (case readEndpoint ux (cio_read io) (cl_dir c @ ''/'' @ FileName) fs of
        Err EndpointMissing \<Rightarrow> (Err NotRunning, None)
      | Err e \<Rightarrow> (Err (BadEndpoint e), None)
      | Ok e \<Rightarrow>
     (case local_endpoint parse (cl_service c) e of
        None \<Rightarrow> (Err NotLocal, None)
      | Some base \<Rightarrow>
          if \<not> processAlive ux (ep_PID e) then (Err NotRunning, None)
          else if body = Some None then (Err EncodeFailed, None)
          else if \<not> cio_request io then (Err RequestFailed, None)
          else
            let h = hset [] ''Authorization'' (''Bearer '' @ ep_Token e);
                h' = (if body \<noteq> None then hset h ''Content-Type'' ''application/json'' else h);
                r = \<lparr>or_method = verb, or_host = url_host base, or_path = path, or_header = h',
                     or_body = Option.bind body id\<rparr>
            in (finish_call (cio_limit io) (cio_out io) (cio_send io r), Some r)))"

text \<open>The request as the server sees it; path and query are not taken apart here.\<close>

definition received :: "out_request \<Rightarrow> request" where
  "received r = \<lparr>req_method = or_method r, req_url = Some \<lparr>url_scheme = [], url_user = False, url_host = [], url_path = or_path r,
     url_query = [], url_fragment = []\<rparr>, req_host = or_host r, req_header = or_header r\<rparr>"

section \<open>Lemmas\<close>

lemma enc_dec_endpoint:
  assumes "min_int64 \<le> ep_Version e" "ep_Version e \<le> max_int64" "min_int64 \<le> ep_PID e" "ep_PID e \<le> max_int64"
  shows "dec_endpoint (endpoint_doc e) = Some e"
  using assms by (simp add: dec_endpoint_def endpoint_doc_def single_value_def dec_struct_def endpoint_names_def dec_endpoint_field_def)

text \<open>What \<open>readEndpoint\<close> accepts: a private regular file of this user or root.\<close>

definition private_file :: "unix \<Rightarrow> string \<Rightarrow> doc gofile \<Rightarrow> bool" where
  "private_file ux path f \<longleftrightarrow> file_regular f \<and> file_perm f AND 63 = 0 \<and>
     (\<forall>uid. ux_owner ux path = Some uid \<longrightarrow> uid = ux_euid ux \<or> uid = 0)"

lemma checkOwner_None:
  "checkOwner ux path p others = None \<longleftrightarrow> p AND others = 0 \<and>
     (\<forall>uid. ux_owner ux path = Some uid \<longrightarrow> uid = ux_euid ux \<or> uid = 0)"
  by (auto simp: checkOwner_def split: option.split)

lemma readEndpoint_Ok:
  "readEndpoint ux rd path fs = Ok e \<longleftrightarrow> rd \<and>
     (\<exists>f. fs path = Some f \<and> private_file ux path f \<and> dec_endpoint (file_data f) = Some e \<and> ep_Version e = 1)"
proof (cases "fs path")
  case (Some f)
  then show ?thesis
    by (cases "checkOwner ux path (file_perm f) 63")
      (auto simp: readEndpoint_def private_file_def checkOwner_None [symmetric] split: option.splits if_splits)
qed (simp add: readEndpoint_def)

lemma readEndpoint_missing: "readEndpoint ux rd path fs = Err EndpointMissing \<longleftrightarrow> fs path = None"
  by (auto simp: readEndpoint_def split: option.splits if_splits)

section \<open>The endpoint as a file with an owner\<close>

definition endpoint_valid :: "unix \<Rightarrow> string \<Rightarrow> endpoint \<Rightarrow> bool" where
  "endpoint_valid ux path e \<longleftrightarrow> ep_Version e = 1 \<and> min_int64 \<le> ep_PID e \<and> ep_PID e \<le> max_int64 \<and> ux_owner ux path = Some (ux_euid ux)"

definition endpoint_owner :: "unix \<Rightarrow> string \<Rightarrow> doc fs \<Rightarrow> string option" where
  "endpoint_owner ux path fs = (case readEndpoint ux True path fs of Err _ \<Rightarrow> None | Ok e \<Rightarrow> Some (ep_Token e))"

text \<open>What a write that goes through leaves.\<close>

definition put_endpoint :: "string \<Rightarrow> endpoint \<Rightarrow> doc fs \<Rightarrow> doc fs" where
  "put_endpoint path e fs = fs(path \<mapsto> \<lparr>file_data = endpoint_doc e, file_perm = 384, file_regular = True\<rparr>)"

lemma writeEndpoint_put:
  "fs tmp = None \<Longrightarrow> tmp \<noteq> path \<Longrightarrow> after_write (writeEndpoint tmp part None path e fs) = put_endpoint path e fs"
  by (simp add: writeEndpoint_def write_atomic_final put_endpoint_def)

lemma put_endpoint_owner: "endpoint_valid ux path e \<Longrightarrow> endpoint_owner ux path (put_endpoint path e fs) = Some (ep_Token e)"
proof -
  assume v: "endpoint_valid ux path e"
  then have "dec_endpoint (endpoint_doc e) = Some e"
    by (intro enc_dec_endpoint) (simp_all add: endpoint_valid_def min_int64_def max_int64_def)
  with v have "readEndpoint ux True path (put_endpoint path e fs) = Ok e"
    by (simp add: readEndpoint_Ok put_endpoint_def private_file_def endpoint_valid_def)
  then show ?thesis by (simp add: endpoint_owner_def)
qed

lemma CloseServer_owner:
  "snd (CloseServer ux shut True True srv fs) =
     (if endpoint_owner ux (sv_path srv) fs = Some (sv_token srv) then fs(sv_path srv := None) else fs)"
  by (auto simp: CloseServer_def endpoint_owner_def Let_def split: sum.splits)

interpretation endpoint_file: owned_file "endpoint_valid ux path" ep_Token "put_endpoint path" "endpoint_owner ux path"
  "\<lambda>t fs. snd (CloseServer ux shut True True \<lparr>sv_path = path, sv_address = address, sv_token = t\<rparr> fs)"
  by unfold_locales (simp_all add: put_endpoint_owner CloseServer_owner, simp add: endpoint_owner_def readEndpoint_def)

text \<open>Closing the first of two servers that published in turn leaves the second one's endpoint.\<close>

lemma endpoint_stop_order:
  assumes "endpoint_valid ux path a" "endpoint_valid ux path b" "ep_Token a \<noteq> ep_Token b"
  shows "endpoint_owner ux path (snd (CloseServer ux shut True True \<lparr>sv_path = path, sv_address = address, sv_token = ep_Token a\<rparr>
    (put_endpoint path b (put_endpoint path a fs)))) = Some (ep_Token b)"
  using endpoint_file.release_order(1) [OF assms] .

lemma CanonicalKey_names:
  "CanonicalKey ''Authorization'' = ''Authorization''" "CanonicalKey ''Content-Type'' = ''Content-Type''"
  "CanonicalKey ''Origin'' = ''Origin''" "CanonicalKey ''Sec-Fetch-Site'' = ''Sec-Fetch-Site''"
  "CanonicalKey ''Sec-Fetch-Mode'' = ''Sec-Fetch-Mode''"
  by code_simp+

lemma Do_sent:
  assumes "Do parse ux io c verb path body fs = (r, Some q)"
  shows "\<exists>e base. readEndpoint ux (cio_read io) (cl_dir c @ ''/'' @ FileName) fs = Ok e \<and>
    local_endpoint parse (cl_service c) e = Some base \<and> processAlive ux (ep_PID e) \<and> or_host q = url_host base \<and> or_path q = path \<and>
    hget (or_header q) ''Authorization'' = ''Bearer '' @ ep_Token e \<and>
    hget (or_header q) ''Origin'' = [] \<and> hget (or_header q) ''Sec-Fetch-Site'' = [] \<and> hget (or_header q) ''Sec-Fetch-Mode'' = [] \<and>
    r = finish_call (cio_limit io) (cio_out io) (cio_send io q)"
proof -
  obtain e where e: "readEndpoint ux (cio_read io) (cl_dir c @ ''/'' @ FileName) fs = Ok e"
    using assms by (auto simp: Do_def split: sum.splits endpoint_error.splits)
  obtain base where base: "local_endpoint parse (cl_service c) e = Some base"
    using assms e by (auto simp: Do_def split: option.splits)
  have "hget [] k = []" for k by (simp add: hget_def hvalues_def)
  then show ?thesis using assms e base
    by (auto simp: Do_def Let_def hget_hset CanonicalKey_names split: if_splits)
qed

lemma local_endpoint_Some:
  "local_endpoint parse service e = Some base \<longleftrightarrow> parse (ep_URL e) = Some base \<and> ep_Service e = service \<and> url_scheme base = ''http'' \<and>
     \<not> url_user base \<and> url_hostname (url_host base) = ''127.0.0.1'' \<and> url_port (url_host base) \<noteq> [] \<and>
     (url_path base = [] \<or> url_path base = ''/'') \<and> url_query base = [] \<and> url_fragment base = []"
  by (auto simp: local_endpoint_def split: option.splits)

lemma Start_Ok:
  "Start ux io dir service fs = (Ok s, fs') \<longleftrightarrow>
     (\<exists>p secret address. st_dir io = Some p \<and> checkOwner ux dir p 18 = None \<and> st_random io = Some secret \<and> st_listen io = Some address \<and>
        st_fail io = None \<and> s = \<lparr>sv_path = dir @ ''/'' @ FileName, sv_address = address, sv_token = hex_encode secret\<rparr> \<and>
        fs' = after_write (writeEndpoint (st_tmp io) (st_part io) None (dir @ ''/'' @ FileName)
          \<lparr>ep_Version = 1, ep_Service = service, ep_URL = ''http://'' @ address, ep_Token = hex_encode secret, ep_PID = st_pid io\<rparr> fs))"
  by (auto simp: Start_def Let_def writeEndpoint_def write_atomic_error split: option.splits)

lemma Start_published:
  assumes start: "Start ux io dir service fs = (Ok s, fs')" and tmp: "fs (st_tmp io) = None" "st_tmp io \<noteq> dir @ ''/'' @ FileName"
    and pid: "0 < st_pid io" "st_pid io \<le> max_int64"
  shows "sv_path s = dir @ ''/'' @ FileName \<and> (\<exists>f e. fs' = fs(sv_path s \<mapsto> f) \<and> file_regular f \<and> file_perm f = 384 \<and>
    dec_endpoint (file_data f) = Some e \<and>
    e = \<lparr>ep_Version = 1, ep_Service = service, ep_URL = ''http://'' @ sv_address s, ep_Token = sv_token s, ep_PID = st_pid io\<rparr>)"
proof -
  let ?path = "dir @ ''/'' @ FileName"
  obtain secret address where st: "st_listen io = Some address" "s = \<lparr>sv_path = ?path, sv_address = address, sv_token = hex_encode secret\<rparr>"
    "fs' = after_write (writeEndpoint (st_tmp io) (st_part io) None ?path
          \<lparr>ep_Version = 1, ep_Service = service, ep_URL = ''http://'' @ address, ep_Token = hex_encode secret, ep_PID = st_pid io\<rparr> fs)"
    using start unfolding Start_Ok by blast
  let ?e = "\<lparr>ep_Version = 1, ep_Service = service, ep_URL = ''http://'' @ address, ep_Token = hex_encode secret, ep_PID = st_pid io\<rparr>"
  have "fs' = fs(?path \<mapsto> \<lparr>file_data = endpoint_doc ?e, file_perm = 384, file_regular = True\<rparr>)"
    using st(3) write_atomic_final [of fs "st_tmp io" ?path, OF tmp] by (simp add: writeEndpoint_def)
  moreover have "dec_endpoint (endpoint_doc ?e) = Some ?e"
    using pid by (intro enc_dec_endpoint) (simp_all add: min_int64_def max_int64_def)
  ultimately show ?thesis using st(2)
    by (intro conjI exI [of _ "\<lparr>file_data = endpoint_doc ?e, file_perm = 384, file_regular = True\<rparr>"] exI [of _ ?e]) simp_all
qed

lemma url_host_port:
  assumes "list_all is_digit port"
  shows "url_hostname (''127.0.0.1:'' @ port) = ''127.0.0.1''" "url_port (''127.0.0.1:'' @ port) = port"
proof -
  have "CHR '':'' \<notin> set port" using assms by (auto simp: list_all_iff is_digit_def)
  then have "LastIndexByte (''127.0.0.1:'' @ port) (CHR '':'') = Some 9"
    using LastIndexByte_append [of "CHR '':''" port "''127.0.0.1''"] by simp
  then show "url_hostname (''127.0.0.1:'' @ port) = ''127.0.0.1''" "url_port (''127.0.0.1:'' @ port) = port"
    using assms by (simp_all add: url_hostname_def url_port_def HasPrefix_def HasSuffix_def Let_def)
qed

section \<open>Properties\<close>

text \<open>
  The handler behind the control API sees a request exactly if it addresses the listener by its literal address, shows
  no sign of a browser and carries the token, and then with its body limited; every other request is refused with 403 or 401
  without reaching it.
\<close>

theorem authorize_exact:
  "if req_host r = address \<and> hget (req_header r) ''Origin'' = [] \<and> hget (req_header r) ''Sec-Fetch-Site'' = [] \<and>
      hget (req_header r) ''Sec-Fetch-Mode'' = [] \<and> hget (req_header r) ''Authorization'' = ''Bearer '' @ token
   then authorize handler address token r = handler 65536 r
   else rp_status (authorize handler address token r) \<in> {401, 403} \<and>
     (\<forall>other. authorize other address token r = authorize handler address token r)"
  by (simp add: authorize_def maxRequestBytes_def WriteError_def WriteJSON_def)

text \<open>
  C32: The token goes nowhere but to the loopback address. A request of the client leaves the process only when the
  endpoint file is a regular file no other user can read, owned by the user or root, of version 1 and for the service
  the client is for, its process may still run, and then to a port of 127.0.0.1 over plain HTTP, with the
  token of that file; in every other case nothing is sent and the call fails.
\<close>

theorem token_stays_local:
  assumes "Do parse ux io c verb path body fs = (r, sent)"
  shows "case sent of
      None \<Rightarrow> \<exists>e. r = Err e
    | Some q \<Rightarrow> \<exists>f e base. fs (cl_dir c @ ''/'' @ FileName) = Some f \<and> private_file ux (cl_dir c @ ''/'' @ FileName) f \<and>
        dec_endpoint (file_data f) = Some e \<and> ep_Version e = 1 \<and> ep_Service e = cl_service c \<and> processAlive ux (ep_PID e) \<and>
        parse (ep_URL e) = Some base \<and> url_scheme base = ''http'' \<and> or_host q = url_host base \<and>
        url_hostname (or_host q) = ''127.0.0.1'' \<and> url_port (or_host q) \<noteq> [] \<and>
        hget (or_header q) ''Authorization'' = ''Bearer '' @ ep_Token e"
proof (cases sent)
  case None
  have "\<exists>e. r = Err e"
  proof (cases "readEndpoint ux (cio_read io) (cl_dir c @ ''/'' @ FileName) fs")
    case (Inl e)
    then show ?thesis by (cases e) (use assms None in \<open>auto simp: Do_def\<close>)
  next
    case (Inr e)
    then show ?thesis
      by (cases "local_endpoint parse (cl_service c) e") (use assms None in \<open>auto simp: Do_def Let_def split: if_splits\<close>)
  qed
  then show ?thesis using None by simp
next
  case (Some q)
  show ?thesis using Do_sent [OF assms [unfolded Some]] Some by (auto simp: readEndpoint_Ok local_endpoint_Some)
qed

text \<open>A system with one user, a home directory, and a listener on port 4000.\<close>

definition example_unix :: unix where
  "example_unix = \<lparr>ux_euid = 1000, ux_owner = (\<lambda>_. Some 1000), ux_kill = (\<lambda>pid. if pid = 42 then Delivered else NoProcess)\<rparr>"

definition example_start_io :: start_io where
  "example_start_io = \<lparr>st_dir = Some 448, st_random = Some [171, 205], st_listen = Some ''127.0.0.1:4000'', st_pid = 42,
     st_tmp = ''/h/.tmp'', st_part = ([], True), st_fail = None\<rparr>"

definition example_url :: "string \<Rightarrow> url option" where
  "example_url s = (if s = ''http://127.0.0.1:4000'' then Some \<lparr>url_scheme = ''http'', url_user = False, url_host = ''127.0.0.1:4000'',
     url_path = [], url_query = [], url_fragment = []\<rparr> else None)"

definition example_call :: "json call_io" where
  "example_call = \<lparr>cio_read = True, cio_request = True, cio_send = (\<lambda>_. Answer 200 (Some ([JNum ''7''], True))), cio_limit = (\<lambda>_ d. d),
     cio_out = Some Some\<rparr>"

definition example_home :: "doc fs" where
  "example_home = snd (Start example_unix example_start_io ''/h'' ''lemmingd'' (\<lambda>_. None))"

lemma example_Start:
  "Start example_unix example_start_io ''/h'' ''lemmingd'' (\<lambda>_. None) =
     (Ok \<lparr>sv_path = ''/h/control.json'', sv_address = ''127.0.0.1:4000'', sv_token = ''abcd''\<rparr>, example_home)"
proof -
  have "fst (Start example_unix example_start_io ''/h'' ''lemmingd'' (\<lambda>_. None)) =
      Ok \<lparr>sv_path = ''/h/control.json'', sv_address = ''127.0.0.1:4000'', sv_token = ''abcd''\<rparr>"
    by code_simp
  then show ?thesis by (metis example_home_def prod.collapse)
qed

lemma token_stays_local_witness:
  "\<exists>q. snd (Do example_url example_unix example_call (NewClient ''/h'' ''lemmingd'') ''POST'' ''/v1/merge'' None example_home) = Some q \<and>
     or_host q = ''127.0.0.1:4000'' \<and> url_hostname (or_host q) = ''127.0.0.1''"
proof -
  let ?r = "Do example_url example_unix example_call (NewClient ''/h'' ''lemmingd'') ''POST'' ''/v1/merge'' None example_home"
  have host: "map_option or_host (snd ?r) = Some ''127.0.0.1:4000''" by code_simp
  have "?r = (fst ?r, snd ?r)" by simp
  from token_stays_local [OF this] host show ?thesis by (auto split: option.splits)
qed

text \<open>
  A started control API can be called. After a successful start, a client for the same service in the same directory
  finds the endpoint and sends its request to the server's address, and the server's check lets this request through to the handler;
  the result of the call is then that of decoding the answer. This needs that the temporary name is new, the parts the
  library documents of parsing the URL of a loopback address, and that the process runs.
\<close>

theorem call_reaches_handler:
  assumes start: "Start ux io dir service fs = (Ok s, fs')" and tmp: "fs (st_tmp io) = None" "st_tmp io \<noteq> dir @ ''/'' @ FileName"
    and owner: "ux_owner ux (dir @ ''/'' @ FileName) = Some (ux_euid ux)"
    and pid: "0 < st_pid io" "st_pid io \<le> max_int64" "ux_kill ux (st_pid io) = Delivered"
    and url: "sv_address s = ''127.0.0.1:'' @ port" "port \<noteq> []" "list_all is_digit port"
      "parse (''http://'' @ sv_address s) = Some \<lparr>url_scheme = ''http'', url_user = False, url_host = sv_address s, url_path = [],
         url_query = [], url_fragment = []\<rparr>"
    and call: "cio_read cio" "cio_request cio" "body \<noteq> Some None"
  shows "\<exists>q. Do parse ux cio (NewClient dir service) verb path body fs' = (finish_call (cio_limit cio) (cio_out cio) (cio_send cio q), Some q) \<and>
    or_method q = verb \<and> or_path q = path \<and> or_body q = Option.bind body id \<and>
    authorize handler (sv_address s) (sv_token s) (received q) = handler 65536 (received q)"
proof -
  let ?e = "\<lparr>ep_Version = 1, ep_Service = service, ep_URL = ''http://'' @ sv_address s, ep_Token = sv_token s, ep_PID = st_pid io\<rparr>"
  have e: "readEndpoint ux (cio_read cio) (dir @ ''/'' @ FileName) fs' = Ok ?e"
    using Start_published [OF start tmp pid(1,2)] call(1) owner by (auto simp: readEndpoint_Ok private_file_def)
  let ?base = "\<lparr>url_scheme = ''http'', url_user = False, url_host = sv_address s, url_path = [], url_query = [], url_fragment = []\<rparr>"
  have base: "local_endpoint parse service ?e = Some ?base"
    using url_host_port [OF url(3)] url(1,2,4) by (simp add: local_endpoint_Some)
  have alive: "processAlive ux (st_pid io)" using pid by (simp add: processAlive_def)
  obtain q where q: "Do parse ux cio (NewClient dir service) verb path body fs' = (finish_call (cio_limit cio) (cio_out cio) (cio_send cio q), Some q)"
    "or_method q = verb" "or_path q = path" "or_body q = Option.bind body id"
    using e base alive call(2,3) by (simp add: Do_def NewClient_def Let_def)
  from Do_sent [OF q(1)]
  have "authorize handler (sv_address s) (sv_token s) (received q) = handler 65536 (received q)"
    using e base by (simp add: NewClient_def authorize_def received_def maxRequestBytes_def)
  then show ?thesis using q by blast
qed

lemma call_reaches_handler_witness:
  "\<exists>q. Do example_url example_unix example_call (NewClient ''/h'' ''lemmingd'') ''POST'' ''/v1/merge'' None example_home =
     (Ok (Some (JNum ''7'')), Some q) \<and>
    authorize (\<lambda>n _. WriteJSON [] 200 (JNum ''1'')) ''127.0.0.1:4000'' ''abcd'' (received q) = WriteJSON [] 200 (JNum ''1'')"
proof -
  have u: "example_url (''http://'' @ ''127.0.0.1:4000'') = Some \<lparr>url_scheme = ''http'', url_user = False, url_host = ''127.0.0.1:4000'',
     url_path = [], url_query = [], url_fragment = []\<rparr>" by (simp add: example_url_def)
  have "\<exists>q. Do example_url example_unix example_call (NewClient ''/h'' ''lemmingd'') ''POST'' ''/v1/merge'' None example_home =
      (finish_call (cio_limit example_call) (cio_out example_call) (cio_send example_call q), Some q) \<and> or_method q = ''POST'' \<and> or_path q = ''/v1/merge'' \<and>
      or_body q = Option.bind None id \<and>
      authorize (\<lambda>n _. WriteJSON [] 200 (JNum ''1'')) ''127.0.0.1:4000'' ''abcd'' (received q) = WriteJSON [] 200 (JNum ''1'')"
    using call_reaches_handler [OF example_Start, where port = "''4000''" and parse = example_url and cio = example_call and body = None
        and verb = "''POST''" and path = "''/v1/merge''" and handler = "\<lambda>n _. WriteJSON [] 200 (JNum ''1'')"] u
    by (simp add: example_start_io_def example_unix_def example_call_def is_digit_def max_int64_def FileName_def)
  then show ?thesis by (auto simp: finish_call_def example_call_def single_value_def)
qed

text \<open>
  A server that stops takes its own endpoint away and nobody else's. When a second proxy has published its endpoint
  over that of a first one, closing the first leaves every file as it is; closing the second removes exactly the
  endpoint, and a client then finds no proxy running.
\<close>

theorem close_own_endpoint:
  assumes A: "Start uxA ioA dir serviceA fs = (Ok sA, fsA)"
    and B: "Start ux ioB dir serviceB fsA = (Ok sB, fsB)" "sv_token sB \<noteq> sv_token sA"
    and tmp: "fsA (st_tmp ioB) = None" "st_tmp ioB \<noteq> dir @ ''/'' @ FileName"
    and pid: "0 < st_pid ioB" "st_pid ioB \<le> max_int64" and owner: "ux_owner ux (dir @ ''/'' @ FileName) = Some (ux_euid ux)"
  shows "snd (CloseServer uxA' shut rd rm sA fsB) = fsB \<and>
    CloseServer ux True True True sB fsB = ([], fsB(dir @ ''/'' @ FileName := None)) \<and>
    Do parse ux cio (NewClient dir service) verb path body (fsB(dir @ ''/'' @ FileName := None)) = (Err NotRunning, None)"
proof -
  obtain f where f: "sv_path sB = dir @ ''/'' @ FileName" "fsB = fsA(sv_path sB \<mapsto> f)" "file_regular f" "file_perm f = 384"
    "dec_endpoint (file_data f) =
      Some \<lparr>ep_Version = 1, ep_Service = serviceB, ep_URL = ''http://'' @ sv_address sB, ep_Token = sv_token sB, ep_PID = st_pid ioB\<rparr>"
    using Start_published [OF B(1) tmp pid] by auto
  have pathA: "sv_path sA = dir @ ''/'' @ FileName" using A unfolding Start_Ok by auto
  have "snd (CloseServer uxA' shut rd rm sA fsB) = fsB"
  proof (cases "readEndpoint uxA' rd (sv_path sA) fsB")
    case (Inr e)
    then have "ep_Token e = sv_token sB" using f pathA by (auto simp: readEndpoint_Ok)
    then show ?thesis using Inr B(2) by (simp add: CloseServer_def)
  qed (simp add: CloseServer_def)
  moreover have "readEndpoint ux True (sv_path sB) fsB =
      Ok \<lparr>ep_Version = 1, ep_Service = serviceB, ep_URL = ''http://'' @ sv_address sB, ep_Token = sv_token sB, ep_PID = st_pid ioB\<rparr>"
    using f owner by (simp add: readEndpoint_Ok private_file_def)
  then have "CloseServer ux True True True sB fsB = ([], fsB(dir @ ''/'' @ FileName := None))" using f(1) by (simp add: CloseServer_def)
  moreover have "readEndpoint ux (cio_read cio) (dir @ ''/'' @ FileName) (fsB(dir @ ''/'' @ FileName := None)) = Err EndpointMissing"
    by (simp add: readEndpoint_missing)
  ultimately show ?thesis by (simp add: Do_def NewClient_def)
qed

lemma close_own_endpoint_witness:
  "\<exists>fsB. Do example_url example_unix example_call (NewClient ''/h'' ''lemmingd'') ''GET'' ''/v1/status'' None (fsB(''/h/control.json'' := None)) =
     (Err NotRunning, None) \<and> fsB ''/h/control.json'' \<noteq> None"
proof -
  let ?io = "example_start_io\<lparr>st_random := Some [1, 2]\<rparr>"
  let ?B = "Start example_unix ?io ''/h'' ''lemmingd'' example_home"
  have "fst ?B = Ok \<lparr>sv_path = ''/h/control.json'', sv_address = ''127.0.0.1:4000'', sv_token = ''0102''\<rparr>" by code_simp
  moreover have "snd ?B ''/h/control.json'' \<noteq> None" by code_simp
  ultimately obtain fsB where B: "?B = (Ok \<lparr>sv_path = ''/h/control.json'', sv_address = ''127.0.0.1:4000'', sv_token = ''0102''\<rparr>, fsB)"
    "fsB ''/h/control.json'' \<noteq> None"
    by (metis prod.collapse)
  have side: "example_home (st_tmp ?io) = None" "st_tmp ?io \<noteq> ''/h'' @ ''/'' @ FileName" "0 < st_pid ?io" "st_pid ?io \<le> max_int64"
    "ux_owner example_unix (''/h'' @ ''/'' @ FileName) = Some (ux_euid example_unix)"
    by code_simp+
  show ?thesis
    using close_own_endpoint [OF example_Start B(1) _ side, where parse = example_url and cio = example_call and
        service = "''lemmingd''" and verb = "''GET''" and path = "''/v1/status''" and body = None] B(2)
    by (intro exI [of _ fsB]) (simp add: FileName_def)
qed

end
