(* ===== verification/LemmingApi.thy ===== *)
theory LemmingApi
  imports LemmingRules Control
begin

text \<open>
  The control API of \<open>internal/lemming/service.go\<close> as its clients see it: the JSON form of what it takes and returns, the
  handler of every route, and the query of a request. What the service itself does is in \<open>Lemming\<close>. The printed forms of times, URLs and
  errors, \<open>url.Parse\<close>, and the length of a JSON text are parameters, in the record \<open>api_env\<close> with the outcomes of the system calls.
\<close>

section \<open>Queries\<close>

text \<open>\<open>url.QueryEscape\<close>, \<open>url.QueryUnescape\<close> and \<open>Values.Get\<close> of \<open>url.ParseQuery\<close>, on bytes.\<close>

definition unreserved :: "char \<Rightarrow> bool" where
  "unreserved c \<longleftrightarrow> is_digit c \<or> (97 \<le> byte c \<and> byte c \<le> 122) \<or> (65 \<le> byte c \<and> byte c \<le> 90) \<or> c \<in> set ''-_.~''"

definition escape_char :: "char \<Rightarrow> string" where
  "escape_char c =
     (if unreserved c then [c] else if c = CHR '' '' then ''+''
      else CHR ''%'' # map upper_char [hex_digit (byte c div 16), hex_digit (byte c mod 16)])"

definition QueryEscape :: "string \<Rightarrow> string" where
  "QueryEscape s = concat (map escape_char s)"

fun QueryUnescape :: "string \<Rightarrow> string option" where
  "QueryUnescape [] = Some []"
| "QueryUnescape (c # s) =
     (if c = CHR ''%'' then
        (case s of
           a # b # r \<Rightarrow>
             if is_hex a \<and> is_hex b then map_option (\<lambda>t. char_of (hex_value a * 16 + hex_value b) # t) (QueryUnescape r) else None
         | _ \<Rightarrow> None)
      else map_option (\<lambda>t. (if c = CHR ''+'' then CHR '' '' else c) # t) (QueryUnescape s))"

definition query_pair :: "string \<Rightarrow> (string \<times> string) option" where
  "query_pair part =
     (if part = [] \<or> CHR '';'' \<in> set part then None
      else case Cut part ''='' of
        (k, v, _) \<Rightarrow> (case (QueryUnescape k, QueryUnescape v) of (Some k', Some v') \<Rightarrow> Some (k', v') | _ \<Rightarrow> None))"

definition query_get :: "string \<Rightarrow> string \<Rightarrow> string" where
  "query_get raw name =
     (case List.find (\<lambda>p. fst p = name) (List.map_filter query_pair (Split raw (CHR ''&''))) of
        None \<Rightarrow> [] | Some p \<Rightarrow> snd p)"

section \<open>JSON forms\<close>

definition source_text :: "source \<Rightarrow> string" where
  "source_text s = (case s of SourceConfig \<Rightarrow> ''config'' | SourceAuto \<Rightarrow> ''auto'')"

text \<open>\<open>RuleView\<close> with its source as a text.\<close>

record rule_item =
  ru_Source :: string
  ru_Target :: string
  ru_Domains :: "string list"
  ru_Include :: "string list"
  ru_Exclude :: "string list"

definition rule_item_of :: "rule_view \<Rightarrow> rule_item" where
  "rule_item_of v = \<lparr>ru_Source = source_text (vw_Source v), ru_Target = vw_Target v, ru_Domains = vw_Domains v,
     ru_Include = vw_Include v, ru_Exclude = vw_Exclude v\<rparr>"

definition enc_rule_item :: "rule_item \<Rightarrow> json" where
  "enc_rule_item v = JObj [(''source'', JStr (ru_Source v)), (''target'', JStr (ru_Target v)),
     (''domains'', enc_strings (ru_Domains v)), (''include_paths'', enc_strings (ru_Include v)),
     (''exclude_paths'', enc_strings (ru_Exclude v))]"

text \<open>\<open>RuleRequest\<close> is a struct of its own, decoded strictly and without the legacy names of a rule in a file.\<close>

definition rule_request_names :: "string list" where
  "rule_request_names = [''target'', ''domains'', ''include_paths'', ''exclude_paths'']"

definition dec_rule_request_field :: "string \<Rightarrow> json \<Rightarrow> redirect_rule \<Rightarrow> redirect_rule option" where
  "dec_rule_request_field n j r =
     (if n = ''target'' then map_option (\<lambda>v. r\<lparr>rr_Target := v\<rparr>) (dec_string j (rr_Target r))
      else if n = ''domains'' then map_option (\<lambda>v. r\<lparr>rr_Domains := slice_list v\<rparr>) (dec_strings j (Some (rr_Domains r)))
      else if n = ''include_paths'' then map_option (\<lambda>v. r\<lparr>rr_Include := slice_list v\<rparr>) (dec_strings j (Some (rr_Include r)))
      else map_option (\<lambda>v. r\<lparr>rr_Exclude := slice_list v\<rparr>) (dec_strings j (Some (rr_Exclude r))))"

definition dec_rule_request :: "json \<Rightarrow> redirect_rule option" where
  "dec_rule_request j = dec_struct True rule_request_names dec_rule_request_field j zero_redirect_rule"

definition dec_route_request :: "json \<Rightarrow> string option" where
  "dec_route_request j = dec_struct True [''url''] (\<lambda>_ j old. dec_string j old) j []"

text \<open>A request as it is listed, with its time printed; \<open>RouteView\<close> and \<open>StatusView\<close> as they are sent.\<close>

record request_item =
  ri_Time :: string
  ri_Method :: string
  ri_Host :: string
  ri_Path :: string
  ri_Target :: string
  ri_Status :: int
  ri_Error :: string

definition omit_string :: "string \<Rightarrow> string \<Rightarrow> (string \<times> json) list" where
  "omit_string k s = (if s = [] then [] else [(k, JStr s)])"

definition enc_request_item :: "request_item \<Rightarrow> json" where
  "enc_request_item r = JObj ([(''time'', JStr (ri_Time r)), (''method'', JStr (ri_Method r)), (''host'', JStr (ri_Host r)),
     (''path'', JStr (ri_Path r))] @ omit_string ''target'' (ri_Target r) @ [(''status'', enc_int (ri_Status r))] @
     omit_string ''error'' (ri_Error r))"

record route_item =
  rt_URL :: string
  rt_Intercepted :: bool
  rt_Routed :: bool
  rt_Target :: string
  rt_TargetURL :: string
  rt_Explanation :: string

definition enc_route_item :: "route_item \<Rightarrow> json" where
  "enc_route_item r = JObj ([(''url'', JStr (rt_URL r)), (''intercepted'', JBool (rt_Intercepted r)), (''routed'', JBool (rt_Routed r))] @
     omit_string ''target'' (rt_Target r) @ omit_string ''target_url'' (rt_TargetURL r) @ [(''explanation'', JStr (rt_Explanation r))])"

record info =
  nf_Version :: string
  nf_Listen :: string
  nf_ProxyURL :: string
  nf_ConfigFile :: string
  nf_AutoRulesFile :: string
  nf_CACertFile :: string
  nf_CAFingerprint :: string
  nf_CANotAfter :: string

record status_item =
  si_Info :: info
  si_AllowRemoteTargets :: bool
  si_AllowRemoteClients :: bool
  si_ConfigRules :: int
  si_AutoRules :: int
  si_AutoRulesError :: string

definition enc_status_item :: "status_item \<Rightarrow> json" where
  "enc_status_item s = (let i = si_Info s in
     JObj ([(''version'', JStr (nf_Version i)), (''listen'', JStr (nf_Listen i)), (''proxy_url'', JStr (nf_ProxyURL i)),
     (''config_file'', JStr (nf_ConfigFile i)), (''auto_rules_file'', JStr (nf_AutoRulesFile i)), (''ca_cert_file'', JStr (nf_CACertFile i)),
     (''ca_sha256_fingerprint'', JStr (nf_CAFingerprint i)), (''ca_not_after'', JStr (nf_CANotAfter i)),
     (''allow_remote_targets'', JBool (si_AllowRemoteTargets s)), (''allow_remote_clients'', JBool (si_AllowRemoteClients s)),
     (''config_rules'', enc_int (si_ConfigRules s)), (''auto_rules'', enc_int (si_AutoRules s))] @
     omit_string ''auto_rules_error'' (si_AutoRulesError s)))"

definition enc_merge :: "int \<Rightarrow> string \<Rightarrow> string \<Rightarrow> json" where
  "enc_merge merged configPath backup =
     JObj ([(''merged'', enc_int merged), (''config_file'', JStr configPath)] @ omit_string ''backup'' backup)"

section \<open>The handler\<close>

record api_env =
  ae_size :: "json \<Rightarrow> nat"
  ae_parse :: "string \<Rightarrow> url option"
  ae_url :: "url \<Rightarrow> string"
  ae_time :: "go_time \<Rightarrow> string"
  ae_error :: "service_error \<Rightarrow> string"
  ae_skip :: "skip_reason \<Rightarrow> string"
  ae_info :: info
  ae_save :: save_io
  ae_merge :: merge_io

text \<open>The body a handler may read: what does not fit in the limit ends in an error of the reader.\<close>

definition limited_body :: "api_env \<Rightarrow> nat \<Rightarrow> json option \<Rightarrow> doc" where
  "limited_body env n body =
     (case body of None \<Rightarrow> ([], True) | Some j \<Rightarrow> if ae_size env j \<le> n then ([j], True) else ([], False))"

definition request_item_of :: "api_env \<Rightarrow> request_view \<Rightarrow> request_item" where
  "request_item_of env r = \<lparr>ri_Time = ae_time env (rv_Time r), ri_Method = rv_Method r, ri_Host = rv_Host r, ri_Path = rv_Path r,
     ri_Target = rv_Target r, ri_Status = rv_Status r, ri_Error = rv_Error r\<rparr>"

definition status_item_of :: "api_env \<Rightarrow> status_view \<Rightarrow> status_item" where
  "status_item_of env s = \<lparr>si_Info = ae_info env, si_AllowRemoteTargets = st_AllowRemoteTargets s,
     si_AllowRemoteClients = st_AllowRemoteClients s, si_ConfigRules = int (st_ConfigRules s), si_AutoRules = int (st_AutoRules s),
     si_AutoRulesError = (case st_AutoRulesError s of None \<Rightarrow> [] | Some e \<Rightarrow> ae_skip env e)\<rparr>"

text \<open>\<open>Route\<close> with its texts.\<close>

definition route_item_of :: "api_env \<Rightarrow> string \<Rightarrow> route_view \<Rightarrow> route_item" where
  "route_item_of env rawURL v =
     \<lparr>rt_URL = rawURL, rt_Intercepted = ro_Intercepted v, rt_Routed = ro_Routed v, rt_Target = ro_Target v,
      rt_TargetURL = (case ro_TargetURL v of None \<Rightarrow> [] | Some u \<Rightarrow> ae_url env u),
      rt_Explanation =
        (if \<not> ro_Intercepted v then ''no rule lists this host; HTTPS is tunneled unchanged and plain HTTP is forwarded to the real server''
         else if \<not> ro_Routed v then ''the host is intercepted, but the path matches no include_paths prefix or matches an exclude_paths prefix, so the real server answers''
         else ''routed to the target with the original path and query; the Host header stays '' @
           (case ae_parse env rawURL of None \<Rightarrow> [] | Some p \<Rightarrow> url_host p))\<rparr>"

datatype api_route = RStatus | RRules | RAdd | RRemove | RRoute | RRequests | RMerge | RNotFound | RNotAllowed

text \<open>\<open>http.ServeMux\<close> with the patterns of the handler, for a path that is already clean.\<close>

definition api_mux :: "string \<Rightarrow> string \<Rightarrow> api_route" where
  "api_mux verb path =
     (let get = (verb = ''GET'' \<or> verb = ''HEAD'')
      in if path = ''/v1/status'' then (if get then RStatus else RNotAllowed)
         else if path = ''/v1/rules'' then (if get then RRules else if verb = ''POST'' then RAdd else if verb = ''DELETE'' then RRemove else RNotAllowed)
         else if path = ''/v1/route'' then (if verb = ''POST'' then RRoute else RNotAllowed)
         else if path = ''/v1/requests'' then (if get then RRequests else RNotAllowed)
         else if path = ''/v1/merge'' then (if verb = ''POST'' then RMerge else RNotAllowed)
         else RNotFound)"

text \<open>The answers to a changed or refused rule.\<close>

definition change_reply :: "api_env \<Rightarrow> ((service_error, 'a) result \<Rightarrow> int) \<Rightarrow> ('a \<Rightarrow> json) \<Rightarrow> (service_error, 'a) result \<Rightarrow> reply" where
  "change_reply env status enc r =
     (case r of Ok v \<Rightarrow> WriteJSON [] (status r) (enc v) | Err e \<Rightarrow> WriteError [] (status r) (ae_error env e))"

text \<open>The plain texts of the mux are kept as a string, which is no JSON object either.\<close>

definition Handler :: "api_env \<Rightarrow> nat \<Rightarrow> string \<Rightarrow> string \<Rightarrow> json option \<Rightarrow> service_state \<Rightarrow> doc fs \<Rightarrow> reply \<times> service_state \<times> doc fs" where
  "Handler env n verb target body s fs =
     (case Cut target ''?'' of (path, query, _) \<Rightarrow>
        (case api_mux verb path of
           RStatus \<Rightarrow> (WriteJSON [] 200 (enc_status_item (status_item_of env (Status s))), s, fs)
         | RRules \<Rightarrow> (WriteJSON [] 200 (JArr (map (enc_rule_item \<circ> rule_item_of) (Rules s))), s, fs)
         | RAdd \<Rightarrow>
             (case DecodeJSON dec_rule_request (limited_body env n body) of
                Err e \<Rightarrow> (WriteError [] 400 e, s, fs)
              | Ok rule \<Rightarrow>
                  (case AddRule (ae_save env) rule s fs of (r, s', fs') \<Rightarrow> (change_reply env add_status (enc_rule_item \<circ> rule_item_of) r, s', fs')))
         | RRemove \<Rightarrow>
             (case RemoveRule (ae_save env) (query_get query ''domain'') s fs of
                (r, s', fs') \<Rightarrow> (change_reply env remove_status (enc_rule_item \<circ> rule_item_of) r, s', fs'))
         | RRoute \<Rightarrow>
             (case DecodeJSON dec_route_request (limited_body env n body) of
                Err e \<Rightarrow> (WriteError [] 400 e, s, fs)
              | Ok rawURL \<Rightarrow>
                  (case Route (ae_parse env rawURL) s of
                     None \<Rightarrow> (WriteError [] 400 ''url must be an absolute http or https URL'', s, fs)
                   | Some v \<Rightarrow> (WriteJSON [] 200 (enc_route_item (route_item_of env rawURL v)), s, fs)))
         | RRequests \<Rightarrow>
             (case request_limit (query_get query ''limit'') of
                None \<Rightarrow> (WriteError [] 400 ''limit must be between 1 and 200'', s, fs)
              | Some limit \<Rightarrow> (WriteJSON [] 200 (JArr (map (enc_request_item \<circ> request_item_of env) (Recent limit s))), s, fs))
         | RMerge \<Rightarrow>
             (case Merge (ae_merge env) s fs of
                (r, s', fs') \<Rightarrow> (change_reply env merge_status (\<lambda>m. enc_merge (int (mr_Merged m)) (ls_configPath s) (mr_Backup m)) r, s', fs'))
         | RNotFound \<Rightarrow> (\<lparr>rp_status = 404, rp_header = [], rp_body = JStr ''404 page not found''\<rparr>, s, fs)
         | RNotAllowed \<Rightarrow> (\<lparr>rp_status = 405, rp_header = [], rp_body = JStr ''Method Not Allowed''\<rparr>, s, fs)))"

section \<open>Queries round trip\<close>

lemma hex_digit_value:
  assumes "n < 16"
  shows "is_hex (upper_char (hex_digit n)) \<and> hex_value (upper_char (hex_digit n)) = n \<and> upper_char (hex_digit n) \<notin> set ''&;=%+?''"
proof -
  have d: "byte (hex_digit n) = (if n < 10 then 48 + n else 87 + n)" using assms by (simp add: hex_digit_def)
  then have b: "byte (upper_char (hex_digit n)) = (if n < 10 then 48 + n else 55 + n)" using assms by (auto simp: upper_char_def)
  have special: "byte c \<in> {38, 59, 61, 37, 43, 63}" if "c \<in> set ''&;=%+?''" for c using that by auto
  have "upper_char (hex_digit n) \<notin> set ''&;=%+?''"
  proof
    assume "upper_char (hex_digit n) \<in> set ''&;=%+?''"
    from special [OF this] b assms show False by (cases "n < 10") simp_all
  qed
  moreover have "is_hex (upper_char (hex_digit n))" "hex_value (upper_char (hex_digit n)) = n"
    using b assms by (simp_all add: is_hex_def hex_value_def is_digit_def split: if_splits)
  ultimately show ?thesis by blast
qed

lemma unreserved_plain: "unreserved c \<Longrightarrow> c \<notin> set ''&;=%+? ''"
  by (auto simp: unreserved_def is_digit_def)

lemma escape_char_cases:
  obtains "unreserved c" "escape_char c = [c]" | "c = CHR '' ''" "escape_char c = ''+''"
  | a b where "escape_char c = [CHR ''%'', a, b]" "is_hex a" "is_hex b" "hex_value a * 16 + hex_value b = byte c"
      "a \<notin> set ''&;=%+?''" "b \<notin> set ''&;=%+?''"
proof -
  have "byte c < 256" by simp
  then have "byte c div 16 < 16" "byte c mod 16 < 16" "byte c div 16 * 16 + byte c mod 16 = byte c"
    by (simp_all add: less_mult_imp_div_less)
  then show ?thesis using that hex_digit_value [of "byte c div 16"] hex_digit_value [of "byte c mod 16"]
    by (cases "unreserved c"; cases "c = CHR '' ''") (auto simp: escape_char_def)
qed

lemma QueryUnescape_char: "QueryUnescape (escape_char c @ s) = map_option (\<lambda>t. c # t) (QueryUnescape s)"
proof (cases c rule: escape_char_cases)
  case 1
  then show ?thesis using unreserved_plain [of c] by auto
next
  case 2
  then show ?thesis by simp
next
  case (3 a b)
  then show ?thesis by simp
qed

lemma QueryUnescape_Escape: "QueryUnescape (QueryEscape s) = Some s"
  by (induction s) (simp_all add: QueryEscape_def QueryUnescape_char)

lemma set_QueryEscape: "set (QueryEscape s) \<inter> set ''&;=?'' = {}"
proof -
  have "set (escape_char c) \<inter> set ''&;=?'' = {}" for c
    by (cases c rule: escape_char_cases) (use unreserved_plain [of c] in auto)
  then show ?thesis by (fastforce simp: QueryEscape_def)
qed

lemma query_get_escaped:
  assumes "name \<noteq> []" "list_all unreserved name"
  shows "query_get (name @ ''='' @ QueryEscape v) name = v"
proof -
  have escape: "QueryEscape name = name" using assms(2) by (simp add: QueryEscape_def escape_char_def list_all_iff cong: map_cong)
  have name: "set name \<inter> set ''&;=%+? '' = {}" using assms(2) unreserved_plain by (fastforce simp: list_all_iff)
  then have part: "CHR ''&'' \<notin> set (name @ ''='' @ QueryEscape v)" "CHR '';'' \<notin> set (name @ ''='' @ QueryEscape v)" "CHR ''='' \<notin> set name"
    using set_QueryEscape [of v] by auto
  have "Cut (name @ ''='' @ QueryEscape v) ''='' = (name, QueryEscape v, True)"
    using part(3) by (induction name) (auto simp: HasPrefix_def)
  then have "query_pair (name @ ''='' @ QueryEscape v) = Some (name, v)"
    using part(2) assms(1) QueryUnescape_Escape [of name] QueryUnescape_Escape [of v] escape by (simp add: query_pair_def)
  then show ?thesis using Split_no_sep [OF part(1)] by (simp add: query_get_def map_filter_def)
qed

end
