(* ===== verification/Mcp.thy ===== *)
theory Mcp
  imports LemmingApi
begin

text \<open>
  The MCP tools of \<open>internal/lemming/mcp.go\<close>: each tool is one call of the control API. The MCP library, which decodes the
  input of a tool and encodes its output, is outside. The property at the end puts the tool, the client, the check of the control server, the
  handler and the service together.
\<close>

section \<open>Tools\<close>

datatype tool = ToolStatus | ToolRules | ToolRoute string | ToolRecent int | ToolAdd redirect_rule | ToolRemove string

datatype tool_result = TStatus status_item | TRules "rule_item list" | TRoute route_item | TRequests "request_item list" | TRule rule_item


section \<open>Decoding the answers\<close>

definition rule_item_names :: "string list" where
  "rule_item_names = [''source'', ''target'', ''domains'', ''include_paths'', ''exclude_paths'']"

definition dec_rule_item_field :: "string \<Rightarrow> json \<Rightarrow> rule_item \<Rightarrow> rule_item option" where
  "dec_rule_item_field n j r =
     (if n = ''source'' then map_option (\<lambda>v. r\<lparr>ru_Source := v\<rparr>) (dec_string j (ru_Source r))
      else if n = ''target'' then map_option (\<lambda>v. r\<lparr>ru_Target := v\<rparr>) (dec_string j (ru_Target r))
      else if n = ''domains'' then map_option (\<lambda>v. r\<lparr>ru_Domains := slice_list v\<rparr>) (dec_strings j (Some (ru_Domains r)))
      else if n = ''include_paths'' then map_option (\<lambda>v. r\<lparr>ru_Include := slice_list v\<rparr>) (dec_strings j (Some (ru_Include r)))
      else map_option (\<lambda>v. r\<lparr>ru_Exclude := slice_list v\<rparr>) (dec_strings j (Some (ru_Exclude r))))"

definition dec_rule_item :: "json \<Rightarrow> rule_item \<Rightarrow> rule_item option" where
  "dec_rule_item = dec_struct False rule_item_names dec_rule_item_field"

definition zero_rule_item :: rule_item where
  "zero_rule_item = \<lparr>ru_Source = [], ru_Target = [], ru_Domains = [], ru_Include = [], ru_Exclude = []\<rparr>"

definition request_item_names :: "string list" where
  "request_item_names = [''time'', ''method'', ''host'', ''path'', ''target'', ''status'', ''error'']"

text \<open>A printed time is kept as it is sent.\<close>

definition dec_request_item_field :: "string \<Rightarrow> json \<Rightarrow> request_item \<Rightarrow> request_item option" where
  "dec_request_item_field n j r =
     (if n = ''time'' then map_option (\<lambda>v. r\<lparr>ri_Time := v\<rparr>) (dec_string j (ri_Time r))
      else if n = ''method'' then map_option (\<lambda>v. r\<lparr>ri_Method := v\<rparr>) (dec_string j (ri_Method r))
      else if n = ''host'' then map_option (\<lambda>v. r\<lparr>ri_Host := v\<rparr>) (dec_string j (ri_Host r))
      else if n = ''path'' then map_option (\<lambda>v. r\<lparr>ri_Path := v\<rparr>) (dec_string j (ri_Path r))
      else if n = ''target'' then map_option (\<lambda>v. r\<lparr>ri_Target := v\<rparr>) (dec_string j (ri_Target r))
      else if n = ''status'' then map_option (\<lambda>v. r\<lparr>ri_Status := v\<rparr>) (dec_int j (ri_Status r))
      else map_option (\<lambda>v. r\<lparr>ri_Error := v\<rparr>) (dec_string j (ri_Error r)))"

definition dec_request_item :: "json \<Rightarrow> request_item \<Rightarrow> request_item option" where
  "dec_request_item = dec_struct False request_item_names dec_request_item_field"

definition zero_request_item :: request_item where
  "zero_request_item = \<lparr>ri_Time = [], ri_Method = [], ri_Host = [], ri_Path = [], ri_Target = [], ri_Status = 0, ri_Error = []\<rparr>"

definition route_item_names :: "string list" where
  "route_item_names = [''url'', ''intercepted'', ''routed'', ''target'', ''target_url'', ''explanation'']"

definition dec_route_item_field :: "string \<Rightarrow> json \<Rightarrow> route_item \<Rightarrow> route_item option" where
  "dec_route_item_field n j r =
     (if n = ''url'' then map_option (\<lambda>v. r\<lparr>rt_URL := v\<rparr>) (dec_string j (rt_URL r))
      else if n = ''intercepted'' then map_option (\<lambda>v. r\<lparr>rt_Intercepted := v\<rparr>) (dec_bool j (rt_Intercepted r))
      else if n = ''routed'' then map_option (\<lambda>v. r\<lparr>rt_Routed := v\<rparr>) (dec_bool j (rt_Routed r))
      else if n = ''target'' then map_option (\<lambda>v. r\<lparr>rt_Target := v\<rparr>) (dec_string j (rt_Target r))
      else if n = ''target_url'' then map_option (\<lambda>v. r\<lparr>rt_TargetURL := v\<rparr>) (dec_string j (rt_TargetURL r))
      else map_option (\<lambda>v. r\<lparr>rt_Explanation := v\<rparr>) (dec_string j (rt_Explanation r)))"

definition dec_route_item :: "json \<Rightarrow> route_item option" where
  "dec_route_item j = dec_struct False route_item_names dec_route_item_field j
     \<lparr>rt_URL = [], rt_Intercepted = False, rt_Routed = False, rt_Target = [], rt_TargetURL = [], rt_Explanation = []\<rparr>"

definition info_names :: "string list" where
  "info_names = [''version'', ''listen'', ''proxy_url'', ''config_file'', ''auto_rules_file'', ''ca_cert_file'',
     ''ca_sha256_fingerprint'', ''ca_not_after'']"

definition dec_info_field :: "string \<Rightarrow> json \<Rightarrow> info \<Rightarrow> info option" where
  "dec_info_field n j i =
     (if n = ''version'' then map_option (\<lambda>v. i\<lparr>nf_Version := v\<rparr>) (dec_string j (nf_Version i))
      else if n = ''listen'' then map_option (\<lambda>v. i\<lparr>nf_Listen := v\<rparr>) (dec_string j (nf_Listen i))
      else if n = ''proxy_url'' then map_option (\<lambda>v. i\<lparr>nf_ProxyURL := v\<rparr>) (dec_string j (nf_ProxyURL i))
      else if n = ''config_file'' then map_option (\<lambda>v. i\<lparr>nf_ConfigFile := v\<rparr>) (dec_string j (nf_ConfigFile i))
      else if n = ''auto_rules_file'' then map_option (\<lambda>v. i\<lparr>nf_AutoRulesFile := v\<rparr>) (dec_string j (nf_AutoRulesFile i))
      else if n = ''ca_cert_file'' then map_option (\<lambda>v. i\<lparr>nf_CACertFile := v\<rparr>) (dec_string j (nf_CACertFile i))
      else if n = ''ca_sha256_fingerprint'' then map_option (\<lambda>v. i\<lparr>nf_CAFingerprint := v\<rparr>) (dec_string j (nf_CAFingerprint i))
      else map_option (\<lambda>v. i\<lparr>nf_CANotAfter := v\<rparr>) (dec_string j (nf_CANotAfter i)))"

definition status_item_names :: "string list" where
  "status_item_names = info_names @ [''allow_remote_targets'', ''allow_remote_clients'', ''config_rules'', ''auto_rules'', ''auto_rules_error'']"

definition dec_status_item_field :: "string \<Rightarrow> json \<Rightarrow> status_item \<Rightarrow> status_item option" where
  "dec_status_item_field n j s =
     (if n = ''allow_remote_targets'' then map_option (\<lambda>v. s\<lparr>si_AllowRemoteTargets := v\<rparr>) (dec_bool j (si_AllowRemoteTargets s))
      else if n = ''allow_remote_clients'' then map_option (\<lambda>v. s\<lparr>si_AllowRemoteClients := v\<rparr>) (dec_bool j (si_AllowRemoteClients s))
      else if n = ''config_rules'' then map_option (\<lambda>v. s\<lparr>si_ConfigRules := v\<rparr>) (dec_int j (si_ConfigRules s))
      else if n = ''auto_rules'' then map_option (\<lambda>v. s\<lparr>si_AutoRules := v\<rparr>) (dec_int j (si_AutoRules s))
      else if n = ''auto_rules_error'' then map_option (\<lambda>v. s\<lparr>si_AutoRulesError := v\<rparr>) (dec_string j (si_AutoRulesError s))
      else map_option (\<lambda>v. s\<lparr>si_Info := v\<rparr>) (dec_info_field n j (si_Info s)))"

definition zero_status_item :: status_item where
  "zero_status_item = \<lparr>si_Info = \<lparr>nf_Version = [], nf_Listen = [], nf_ProxyURL = [], nf_ConfigFile = [], nf_AutoRulesFile = [],
     nf_CACertFile = [], nf_CAFingerprint = [], nf_CANotAfter = []\<rparr>, si_AllowRemoteTargets = False, si_AllowRemoteClients = False,
     si_ConfigRules = 0, si_AutoRules = 0, si_AutoRulesError = []\<rparr>"

definition tool_out :: "tool \<Rightarrow> json \<Rightarrow> tool_result option" where
  "tool_out t j =
     (case t of
        ToolStatus \<Rightarrow> map_option TStatus (dec_struct False status_item_names dec_status_item_field j zero_status_item)
      | ToolRules \<Rightarrow> map_option (TRules \<circ> slice_list) (dec_slice dec_rule_item zero_rule_item j None)
      | ToolRoute _ \<Rightarrow> map_option TRoute (dec_route_item j)
      | ToolRecent _ \<Rightarrow> map_option (TRequests \<circ> slice_list) (dec_slice dec_request_item zero_request_item j None)
      | ToolAdd _ \<Rightarrow> map_option TRule (dec_rule_item j zero_rule_item)
      | ToolRemove _ \<Rightarrow> map_option TRule (dec_rule_item j zero_rule_item))"



section \<open>What a tool promises\<close>




section \<open>Encoding and decoding\<close>


lemma slice_list_Some [simp]: "slice_list (Some xs) = xs"
  by (simp add: slice_list_def)











section \<open>The handler answers each tool\<close>



lemma Cut_targets:
  "Cut ''/v1/status'' ''?'' = (''/v1/status'', [], False)" "Cut ''/v1/rules'' ''?'' = (''/v1/rules'', [], False)"
  "Cut ''/v1/route'' ''?'' = (''/v1/route'', [], False)"
  "Cut (''/v1/requests?limit='' @ x) ''?'' = (''/v1/requests'', ''limit='' @ x, True)"
  "Cut (''/v1/rules?domain='' @ x) ''?'' = (''/v1/rules'', ''domain='' @ x, True)"
  by (simp_all add: HasPrefix_def)

lemma api_mux_tools:
  "api_mux ''GET'' ''/v1/status'' = RStatus" "api_mux ''GET'' ''/v1/rules'' = RRules" "api_mux ''POST'' ''/v1/route'' = RRoute"
  "api_mux ''GET'' ''/v1/requests'' = RRequests" "api_mux ''POST'' ''/v1/rules'' = RAdd" "api_mux ''DELETE'' ''/v1/rules'' = RRemove"
  by (simp_all add: api_mux_def)










section \<open>Answers beyond the client's limit\<close>

text \<open>The value of the answer to a call, and what the limit does to it.\<close>

definition answer :: "api_env \<Rightarrow> string \<Rightarrow> string \<Rightarrow> json option option \<Rightarrow> service_state \<Rightarrow> doc fs \<Rightarrow> json" where
  "answer env verb path body s fs = rp_body (fst (Handler env maxRequestBytes verb path (Option.bind body id) s fs))"


text \<open>
  The rules of a service can be longer than the client reads. The cut text is no JSON value, and the tool then fails, although the
  service has answered.
\<close>

lemma list_rules_too_long:
  assumes "limit maxResponseBytes ([answer env ''GET'' ''/v1/rules'' None s fs], True) = ([], False)"
  shows "finish_call limit (Some (tool_out ToolRules))
      (Answer (rp_status (fst (Handler env maxRequestBytes ''GET'' ''/v1/rules'' None s fs))) (Some ([answer env ''GET'' ''/v1/rules'' None s fs], True)))
    = Err DecodeFailed"
  using assms by (simp add: finish_call_def single_value_def Handler_def Cut_targets api_mux_tools WriteJSON_def answer_def Let_def del: Cut.simps)

section \<open>Property\<close>





end
