(* ===== verification/CaStore.thy ===== *)
theory CaStore
  imports GoFile
begin

text \<open>
  The certificate authority of \<open>internal/pki/pki.go\<close>: created once, when neither of its files
  exists, and loaded and checked at every start. Keys, random numbers, certificates and their PEM
  and PKCS 8 forms come from the standard library and are arguments: \<open>seal\<close> encodes a template with
  a new key, \<open>key_pair\<close> is \<open>tls.X509KeyPair\<close> up to the first certificate of the chain, \<open>parse\<close> is
  \<open>x509.ParseCertificate\<close> and \<open>sha256\<close> the digest. Error values keep the fixed part of their text.
\<close>

section \<open>Constants\<close>

definition compromisedLegacyCAFingerprints :: "int list list" where
  "compromisedLegacyCAFingerprints =
     [[105, 24, 53, 96, 42, 71, 4, 186, 119, 237, 49, 250, 57, 12, 179, 149,
       100, 216, 187, 222, 16, 41, 73, 44, 238, 200, 174, 109, 181, 36, 34, 7],
      [53, 170, 252, 219, 216, 63, 100, 38, 70, 120, 61, 73, 195, 99, 70, 144,
       55, 67, 236, 23, 67, 90, 95, 76, 55, 133, 240, 47, 193, 7, 248, 31],
      [175, 115, 154, 130, 153, 195, 97, 23, 185, 16, 92, 40, 65, 244, 183, 243,
       100, 54, 125, 59, 179, 171, 218, 114, 21, 251, 158, 236, 24, 132, 29, 111]]"

definition day_ns :: int where "day_ns = 24 * 3600 * second_ns"

definition CAValidity :: duration where "CAValidity = word_of_int (2 * 365 * day_ns)"
definition ExpiryWarning :: duration where "ExpiryWarning = word_of_int (30 * day_ns)"

section \<open>Data\<close>

type_synonym bytes = "int list"

text \<open>What the program reads of a parsed certificate.\<close>

record x509 =
  x5_raw :: bytes
  x5_isCA :: bool
  x5_keyUsage :: "32 word"
  x5_notBefore :: go_time
  x5_notAfter :: go_time

definition KeyUsageDigitalSignature :: "32 word" where "KeyUsageDigitalSignature = 1"
definition KeyUsageCertSign :: "32 word" where "KeyUsageCertSign = 32"
definition KeyUsageCRLSign :: "32 word" where "KeyUsageCRLSign = 64"

text \<open>The parsed leaf is \<open>Certificate.Leaf\<close>, which is nil in the zero value.\<close>

record 'c CA =
  ca_Leaf :: "x509 option"
  ca_PEM :: 'c

record ca_template =
  ct_serial :: int
  ct_commonName :: string
  ct_notBefore :: go_time
  ct_notAfter :: go_time
  ct_keyUsage :: "32 word"
  ct_basicConstraintsValid :: bool
  ct_isCA :: bool
  ct_maxPathLen :: int
  ct_maxPathLenZero :: bool

text \<open>The files, and the permissions of the directories that hold the CA.\<close>

record 'c disk =
  dk_files :: "'c fs"
  dk_dirs :: "string \<Rightarrow> perm option"

text \<open>\<open>filepath.Dir\<close> of a path that is already clean.\<close>

definition filepath_dir :: "string \<Rightarrow> string" where
  "filepath_dir path =
     (case LastIndexByte path (CHR ''/'') of
        None \<Rightarrow> ''.''
      | Some i \<Rightarrow> if i = 0 then ''/'' else take i path)"

section \<open>Operations\<close>

definition isCompromisedLegacyCA :: "bytes \<Rightarrow> bool" where
  "isCompromisedLegacyCA fingerprint = list_ex (\<lambda>compromised. fingerprint = compromised) compromisedLegacyCAFingerprints"

definition ExpiresSoon :: "'c CA \<Rightarrow> go_time \<Rightarrow> bool" where
  "ExpiresSoon ca now =
     (case ca_Leaf ca of
        None \<Rightarrow> False
      | Some leaf \<Rightarrow> time_sub (x5_notAfter leaf) now <s ExpiryWarning)"

text \<open>\<open>stat\<close> says whether inspecting the path works when the file system is asked.\<close>

definition exists_file :: "bool \<Rightarrow> string \<Rightarrow> 'c fs \<Rightarrow> (string, bool) result" where
  "exists_file stat path fs = (if stat then Ok (fs path \<noteq> None) else Err ''inspect'')"

text \<open>
  An exclusive write: the system call that fails, whether removing the file after a failure works,
  what a failed write has left, and the process's \<open>umask\<close>.
\<close>

datatype excl_step = OpenExcl | WriteExcl | CloseExcl

record 'c excl_io =
  ei_fail :: "excl_step option"
  ei_removed :: bool
  ei_part :: 'c

definition writeExclusive :: "perm \<Rightarrow> 'c excl_io \<Rightarrow> string \<Rightarrow> 'c \<Rightarrow> perm \<Rightarrow> 'c fs \<Rightarrow> bool \<times> 'c fs" where
  "writeExclusive umask io path data mode fs =
     (let p = mode AND NOT umask;
          remove = (\<lambda>f. if ei_removed io then fs(path := None) else fs(path \<mapsto> f))
      in if fs path \<noteq> None \<or> ei_fail io = Some OpenExcl then (False, fs)
         else if ei_fail io = Some WriteExcl
           then (False, remove \<lparr>file_data = ei_part io, file_perm = p, file_regular = True\<rparr>)
         else if ei_fail io = Some CloseExcl
           then (False, remove \<lparr>file_data = data, file_perm = p, file_regular = True\<rparr>)
         else (True, fs(path \<mapsto> \<lparr>file_data = data, file_perm = p, file_regular = True\<rparr>)))"

datatype dir_fail = MkdirFails | ChmodFails

fun secure_dirs :: "(nat \<Rightarrow> dir_fail option) \<Rightarrow> nat \<Rightarrow> string list \<Rightarrow> (string \<Rightarrow> perm option) \<Rightarrow>
    string option \<times> (string \<Rightarrow> perm option)" where
  "secure_dirs io k [] D = (None, D)"
| "secure_dirs io k (d # ds) D =
     (case io k of
        Some MkdirFails \<Rightarrow> (Some ''create CA directory'', D)
      | Some ChmodFails \<Rightarrow> (Some ''secure CA directory'', D(d \<mapsto> (case D d of None \<Rightarrow> 448 | Some p \<Rightarrow> p)))
      | None \<Rightarrow> secure_dirs io (Suc k) ds (D(d \<mapsto> 448)))"

record 'c pair_io =
  pi_dirs :: "nat \<Rightarrow> dir_fail option"
  pi_umask :: perm
  pi_key :: "'c excl_io"
  pi_cert :: "'c excl_io"
  pi_rollback :: bool

definition writePair :: "'c pair_io \<Rightarrow> string \<Rightarrow> string \<Rightarrow> 'c \<Rightarrow> 'c \<Rightarrow> 'c disk \<Rightarrow> string option \<times> 'c disk" where
  "writePair io certPath keyPath certPEM keyPEM D =
     (case secure_dirs (pi_dirs io) 0 [filepath_dir certPath, filepath_dir keyPath] (dk_dirs D) of
        (Some e, dirs) \<Rightarrow> (Some e, D\<lparr>dk_dirs := dirs\<rparr>)
      | (None, dirs) \<Rightarrow>
          (case writeExclusive (pi_umask io) (pi_key io) keyPath keyPEM 384 (dk_files D) of
             (False, fs) \<Rightarrow> (Some ''write CA private key'', \<lparr>dk_files = fs, dk_dirs = dirs\<rparr>)
           | (True, fs) \<Rightarrow>
               (case writeExclusive (pi_umask io) (pi_cert io) certPath certPEM 420 fs of
                  (False, fs') \<Rightarrow> (Some ''write CA certificate'',
                    \<lparr>dk_files = (if pi_rollback io then fs'(keyPath := None) else fs'), dk_dirs = dirs\<rparr>)
                | (True, fs') \<Rightarrow> (None, \<lparr>dk_files = fs', dk_dirs = dirs\<rparr>))))"

record generate_io =
  gi_key :: bool
  gi_serial :: "int option"
  gi_create :: bool
  gi_encode :: bool

definition ca_template_of :: "string \<Rightarrow> go_time \<Rightarrow> int \<Rightarrow> ca_template" where
  "ca_template_of name now serial =
     \<lparr>ct_serial = serial, ct_commonName = name @ '' local CA'',
      ct_notBefore = time_add now (word_of_int (- 5 * 60 * second_ns)), ct_notAfter = time_add now CAValidity,
      ct_keyUsage = KeyUsageDigitalSignature OR KeyUsageCertSign OR KeyUsageCRLSign,
      ct_basicConstraintsValid = True, ct_isCA = True, ct_maxPathLen = 0, ct_maxPathLenZero = True\<rparr>"

definition generate :: "(ca_template \<Rightarrow> 'c \<times> 'c) \<Rightarrow> generate_io \<Rightarrow> string \<Rightarrow> go_time \<Rightarrow> (string, 'c \<times> 'c) result" where
  "generate seal io name now =
     (if \<not> gi_key io then Err ''generate CA private key''
      else case gi_serial io of
        None \<Rightarrow> Err ''generate CA serial number''
      | Some serial \<Rightarrow>
          if \<not> gi_create io then Err ''create CA certificate''
          else if \<not> gi_encode io then Err ''encode CA private key''
          else Ok (seal (ca_template_of name now serial)))"

text \<open>The library the certificate is read with.\<close>

record 'c tls =
  tl_key_pair :: "'c \<Rightarrow> 'c \<Rightarrow> bytes option"
  tl_parse :: "bytes \<Rightarrow> x509 option"
  tl_sha256 :: "bytes \<Rightarrow> bytes"

record ca_load_io =
  lo_cert :: bool
  lo_key :: bool
  lo_now :: go_time
  lo_chmod :: bool

definition load_ca :: "'c tls \<Rightarrow> ca_load_io \<Rightarrow> string \<Rightarrow> string \<Rightarrow> 'c disk \<Rightarrow> (string, 'c CA) result \<times> 'c disk" where
  "load_ca lib io certPath keyPath D =
     (case (if lo_cert io then dk_files D certPath else None) of
        None \<Rightarrow> (Err ''read CA certificate'', D)
      | Some cert \<Rightarrow>
     (case (if lo_key io then dk_files D keyPath else None) of
        None \<Rightarrow> (Err ''read CA private key'', D)
      | Some key \<Rightarrow>
     (case tl_key_pair lib (file_data cert) (file_data key) of
        None \<Rightarrow> (Err ''load CA key pair'', D)
      | Some der \<Rightarrow>
     (case tl_parse lib der of
        None \<Rightarrow> (Err ''parse CA certificate'', D)
      | Some leaf \<Rightarrow>
          if \<not> x5_isCA leaf \<or> x5_keyUsage leaf AND KeyUsageCertSign = 0
            then (Err ''certificate is not a certificate authority'', D)
          else if isCompromisedLegacyCA (tl_sha256 lib (x5_raw leaf)) then (Err ''refusing a public legacy CA'', D)
          else if lo_now io < x5_notBefore leaf \<or> x5_notAfter leaf < lo_now io
            then (Err ''CA certificate is not valid'', D)
          else if \<not> lo_chmod io then (Err ''secure CA private key'', D)
          else (Ok \<lparr>ca_Leaf = Some leaf, ca_PEM = file_data cert\<rparr>,
                D\<lparr>dk_files := (dk_files D)(keyPath \<mapsto> key\<lparr>file_perm := 384\<rparr>)\<rparr>)))))"

text \<open>
  One start of the program: the outcomes of its calls, and \<open>cr_others\<close>, what other processes
  have done to the disk between the checks and the first write.
\<close>

record 'c create_io =
  cr_stat_cert :: bool
  cr_stat_key :: bool
  cr_now :: go_time
  cr_generate :: generate_io
  cr_others :: "'c disk \<Rightarrow> 'c disk"
  cr_pair :: "'c pair_io"
  cr_load :: ca_load_io

definition LoadOrCreateCA ::
  "'c tls \<Rightarrow> (ca_template \<Rightarrow> 'c \<times> 'c) \<Rightarrow> 'c create_io \<Rightarrow> string \<Rightarrow> string \<Rightarrow> string \<Rightarrow> 'c disk \<Rightarrow>
     (string, 'c CA \<times> bool) result \<times> 'c disk" where
  "LoadOrCreateCA lib seal io certPath keyPath name D =
     (case exists_file (cr_stat_cert io) certPath (dk_files D) of
        Inl e \<Rightarrow> (Err e, D)
      | Inr certExists \<Rightarrow>
     (case exists_file (cr_stat_key io) keyPath (dk_files D) of
        Inl e \<Rightarrow> (Err e, D)
      | Inr keyExists \<Rightarrow>
          if certExists \<noteq> keyExists
            then (Err ''CA certificate and private key must either both exist or both be absent'', D)
          else
            let (err, D1) =
                  (if certExists then (None, D)
                   else case generate seal (cr_generate io) name (cr_now io) of
                     Inl e \<Rightarrow> (Some e, D)
                   | Inr (certPEM, keyPEM) \<Rightarrow> writePair (cr_pair io) certPath keyPath certPEM keyPEM (cr_others io D))
            in case err of
                 Some e \<Rightarrow> (Err e, D1)
               | None \<Rightarrow>
                   (case load_ca lib (cr_load io) certPath keyPath D1 of
                      (Inl e, D2) \<Rightarrow> (Err e, D2)
                    | (Inr ca, D2) \<Rightarrow> (Ok (ca, \<not> certExists), D2))))"

section \<open>Exclusive writes\<close>

text \<open>An exclusive write never touches a file that is there, whatever fails.\<close>

lemma writeExclusive_keeps:
  "fs q = Some f \<Longrightarrow> writeExclusive umask io path data mode fs = (ok, fs') \<Longrightarrow> fs' q = Some f"
  by (auto simp: writeExclusive_def Let_def split: if_splits)

lemma writeExclusive_true:
  "writeExclusive umask io path data mode fs = (True, fs') \<longleftrightarrow>
     fs path = None \<and> ei_fail io = None \<and>
     fs' = fs(path \<mapsto> \<lparr>file_data = data, file_perm = mode AND NOT umask, file_regular = True\<rparr>)"
  by (cases "ei_fail io"; cases "the (ei_fail io)") (auto simp: writeExclusive_def Let_def)

lemma writeExclusive_false:
  "writeExclusive umask io path data mode fs = (False, fs') \<Longrightarrow> ei_removed io \<Longrightarrow> fs' = fs"
  by (auto simp: writeExclusive_def Let_def split: if_splits)

lemma secure_dirs_ok:
  "secure_dirs io k ds D = (None, D') \<Longrightarrow> (\<forall>d \<in> set ds. D' d = Some 448) \<and> (\<forall>d. D d = Some 448 \<longrightarrow> D' d = Some 448)"
  by (induction io k ds D rule: secure_dirs.induct) (auto split: option.splits dir_fail.splits if_splits)

lemma writePair_cases:
  assumes "writePair io c k cert key D = (r, D')"
  obtains (dirs) e dirs where "r = Some e" "D' = D\<lparr>dk_dirs := dirs\<rparr>"
  | (key) dirs fs where "r = Some ''write CA private key''" "writeExclusive (pi_umask io) (pi_key io) k key 384 (dk_files D) = (False, fs)"
      "D' = \<lparr>dk_files = fs, dk_dirs = dirs\<rparr>"
  | (cert) dirs fs fs' where "r = Some ''write CA certificate''"
      "writeExclusive (pi_umask io) (pi_key io) k key 384 (dk_files D) = (True, fs)"
      "writeExclusive (pi_umask io) (pi_cert io) c cert 420 fs = (False, fs')"
      "D' = \<lparr>dk_files = (if pi_rollback io then fs'(k := None) else fs'), dk_dirs = dirs\<rparr>"
  | (ok) dirs fs fs' where "r = None" "secure_dirs (pi_dirs io) 0 [filepath_dir c, filepath_dir k] (dk_dirs D) = (None, dirs)"
      "writeExclusive (pi_umask io) (pi_key io) k key 384 (dk_files D) = (True, fs)"
      "writeExclusive (pi_umask io) (pi_cert io) c cert 420 fs = (True, fs')" "D' = \<lparr>dk_files = fs', dk_dirs = dirs\<rparr>"
  using assms unfolding writePair_def by (auto split: prod.splits option.splits bool.splits)

text \<open>Files that are there stay as they are, even when they appear after the check for them.\<close>

lemma writePair_keeps:
  assumes "writePair io c k cert key D = (r, D')" "dk_files D q = Some f"
  shows "dk_files D' q = Some f"
  using assms(1)
proof (cases rule: writePair_cases)
  case dirs
  then show ?thesis using assms(2) by simp
next
  case (key dirs fs)
  then show ?thesis using writeExclusive_keeps assms(2) by simp
next
  case (cert dirs fs fs')
  then have "q \<noteq> k" using assms(2) by (auto simp: writeExclusive_true)
  then show ?thesis
    using cert(4) writeExclusive_keeps [OF writeExclusive_keeps [OF assms(2) cert(2)] cert(3)] by simp
next
  case (ok dirs fs fs')
  then show ?thesis using writeExclusive_keeps [OF writeExclusive_keeps [OF assms(2) ok(3)] ok(4)] by simp
qed

text \<open>A pair of files is written whole or not at all, as long as removing what was written works.\<close>

lemma writePair_whole:
  assumes w: "writePair io c k cert key D = (r, D')" and "ei_removed (pi_key io)" "ei_removed (pi_cert io)" "pi_rollback io"
  shows "(r = None \<and> dk_files D c = None \<and> dk_files D k = None \<and> c \<noteq> k \<and>
      dk_files D' = (dk_files D)(k \<mapsto> \<lparr>file_data = key, file_perm = 384 AND NOT (pi_umask io), file_regular = True\<rparr>,
         c \<mapsto> \<lparr>file_data = cert, file_perm = 420 AND NOT (pi_umask io), file_regular = True\<rparr>)) \<or>
    (r \<noteq> None \<and> dk_files D' = dk_files D)"
  using w
proof (cases rule: writePair_cases)
  case dirs
  then show ?thesis by simp
next
  case (key dirs fs)
  then show ?thesis using writeExclusive_false assms(2) by simp
next
  case (cert dirs fs fs')
  have "fs' = fs" using writeExclusive_false [OF cert(3) assms(3)] .
  then have "dk_files D' = (dk_files D)(k := None)" "dk_files D k = None" using cert(2,4) assms(4) by (auto simp: writeExclusive_true)
  then show ?thesis using cert(1) by auto
next
  case (ok dirs fs fs')
  then show ?thesis by (auto simp: writeExclusive_true split: if_splits)
qed

section \<open>Loading\<close>

text \<open>What a usable authority is at an instant.\<close>

definition usable_ca :: "'c tls \<Rightarrow> go_time \<Rightarrow> x509 \<Rightarrow> bool" where
  "usable_ca lib now leaf \<longleftrightarrow> x5_isCA leaf \<and> x5_keyUsage leaf AND KeyUsageCertSign \<noteq> 0 \<and>
     tl_sha256 lib (x5_raw leaf) \<notin> set compromisedLegacyCAFingerprints \<and>
     x5_notBefore leaf \<le> now \<and> now \<le> x5_notAfter leaf"

lemma load_ca_ok:
  "load_ca lib io c k D = (Ok ca, D') \<longleftrightarrow> lo_cert io \<and> lo_key io \<and> lo_chmod io \<and>
     (\<exists>cert key der leaf. dk_files D c = Some cert \<and> dk_files D k = Some key \<and>
        tl_key_pair lib (file_data cert) (file_data key) = Some der \<and> tl_parse lib der = Some leaf \<and>
        usable_ca lib (lo_now io) leaf \<and> ca = \<lparr>ca_Leaf = Some leaf, ca_PEM = file_data cert\<rparr> \<and>
        D' = D\<lparr>dk_files := (dk_files D)(k \<mapsto> key\<lparr>file_perm := 384\<rparr>)\<rparr>)"
  unfolding load_ca_def usable_ca_def isCompromisedLegacyCA_def list_ex_iff
  by (auto split: option.splits if_splits)

lemma load_ca_frame:
  assumes "load_ca lib io c k D = (r, D')"
  shows "dk_files D' q = dk_files D q \<or>
    q = k \<and> (\<exists>f. dk_files D q = Some f \<and> dk_files D' q = Some (f\<lparr>file_perm := 384\<rparr>))"
  using assms unfolding load_ca_def by (auto split: option.splits if_splits)

lemma load_ca_dom:
  assumes "load_ca lib io c k D = (r, D')"
  shows "dom (dk_files D') = dom (dk_files D)"
  using assms unfolding load_ca_def by (auto split: option.splits if_splits)

text \<open>The disk at the moment the program starts to write, if it writes at all.\<close>

definition start_disk :: "(ca_template \<Rightarrow> 'c \<times> 'c) \<Rightarrow> 'c create_io \<Rightarrow> string \<Rightarrow> string \<Rightarrow> string \<Rightarrow> 'c disk \<Rightarrow> 'c disk" where
  "start_disk seal io certPath keyPath name D =
     (if cr_stat_cert io \<and> cr_stat_key io \<and> dk_files D certPath = None \<and> dk_files D keyPath = None \<and>
         (case generate seal (cr_generate io) name (cr_now io) of Inl _ \<Rightarrow> False | Inr _ \<Rightarrow> True)
      then cr_others io D else D)"

lemma LoadOrCreateCA_cases:
  assumes "LoadOrCreateCA lib seal io c k name D = (r, D')"
  obtains (error) e where "r = Err e" "D' = D" "start_disk seal io c k name D = D"
  | (there) r' where "dk_files D c \<noteq> None" "dk_files D k \<noteq> None" "load_ca lib (cr_load io) c k D = (r', D')"
      "r = map_sum id (\<lambda>ca. (ca, False)) r'"
  | (unwritten) cert key e where "dk_files D c = None" "dk_files D k = None" "r = Err e"
      "start_disk seal io c k name D = cr_others io D"
      "writePair (cr_pair io) c k cert key (cr_others io D) = (Some e, D')"
  | (made) cert key D1 r' where "dk_files D c = None" "dk_files D k = None"
      "start_disk seal io c k name D = cr_others io D"
      "writePair (cr_pair io) c k cert key (cr_others io D) = (None, D1)" "load_ca lib (cr_load io) c k D1 = (r', D')"
      "r = map_sum id (\<lambda>ca. (ca, True)) r'"
proof -
  consider "\<exists>e. r = Err e \<and> D' = D \<and> start_disk seal io c k name D = D" | "cr_stat_cert io" "cr_stat_key io" "(dk_files D c = None) = (dk_files D k = None)"
    using assms by (auto simp: LoadOrCreateCA_def exists_file_def start_disk_def split: if_splits)
  then show thesis
  proof cases
    case 1
    then show thesis using error by blast
  next
    case 2
    show thesis
    proof (cases "dk_files D c")
      case (Some f)
      then obtain f' where "dk_files D k = Some f'" using 2 by auto
      then show thesis using assms 2 Some there
        by (cases "load_ca lib (cr_load io) c k D"; cases "fst (load_ca lib (cr_load io) c k D)")
          (auto simp: LoadOrCreateCA_def exists_file_def)
    next
      case None
      then have none: "dk_files D k = None" using 2 by simp
      show thesis
      proof (cases "generate seal (cr_generate io) name (cr_now io)")
        case (Inl e)
        then show thesis using assms 2 None none error by (auto simp: LoadOrCreateCA_def exists_file_def start_disk_def)
      next
        case (Inr p)
        obtain cert key where p: "p = (cert, key)" by (cases p)
        have start: "start_disk seal io c k name D = cr_others io D" using 2 None none Inr by (simp add: start_disk_def)
        obtain e D1 where w: "writePair (cr_pair io) c k cert key (cr_others io D) = (e, D1)" by fastforce
        obtain r' D2 where l: "load_ca lib (cr_load io) c k D1 = (r', D2)" by fastforce
        show thesis
        proof (cases e)
          case (Some m)
          then show thesis using assms 2 None none Inr p w start unwritten by (auto simp: LoadOrCreateCA_def exists_file_def)
        next
          case None': None
          have "r = map_sum id (\<lambda>ca. (ca, True)) r'" "D' = D2"
            using assms 2 None none Inr p w l None' by (cases r'; auto simp: LoadOrCreateCA_def exists_file_def)+
          then show thesis using made None none start w l None' by blast
        qed
      qed
    qed
  qed
qed

section \<open>Properties\<close>

text \<open>
  Example data: one certificate and key, encoded as 1 and 2, that the library reads back as they
  were made, and a start in which every call works.
\<close>

definition example_x509 :: x509 where
  "example_x509 = \<lparr>x5_raw = [1], x5_isCA = True, x5_keyUsage = 97, x5_notBefore = -300 * second_ns, x5_notAfter = 730 * day_ns\<rparr>"

definition example_tls :: "int tls" where
  "example_tls = \<lparr>tl_key_pair = (\<lambda>c k. if c = 1 \<and> k = 2 then Some [1] else None),
     tl_parse = (\<lambda>der. if der = [1] then Some example_x509 else None), tl_sha256 = (\<lambda>_. [0])\<rparr>"

definition example_excl :: "int excl_io" where
  "example_excl = \<lparr>ei_fail = None, ei_removed = True, ei_part = 0\<rparr>"

definition example_start :: "int excl_io \<Rightarrow> int create_io" where
  "example_start cert_io = \<lparr>cr_stat_cert = True, cr_stat_key = True, cr_now = 0,
     cr_generate = \<lparr>gi_key = True, gi_serial = Some 7, gi_create = True, gi_encode = True\<rparr>, cr_others = id,
     cr_pair = \<lparr>pi_dirs = (\<lambda>_. None), pi_umask = 18, pi_key = example_excl, pi_cert = cert_io, pi_rollback = True\<rparr>,
     cr_load = \<lparr>lo_cert = True, lo_key = True, lo_now = 5, lo_chmod = True\<rparr>\<rparr>"

definition example_disk :: "int disk" where
  "example_disk = \<lparr>dk_files = (\<lambda>p. if p = ''/old'' then Some \<lparr>file_data = 9, file_perm = 420, file_regular = True\<rparr> else None),
     dk_dirs = (\<lambda>_. None)\<rparr>"

definition example_create :: "(string, int CA \<times> bool) result \<times> int disk" where
  "example_create = LoadOrCreateCA example_tls (\<lambda>_. (1, 2)) (example_start example_excl) ''/c/ca.pem'' ''/c/ca.key'' ''lemmingd'' example_disk"

lemmas example_ca_simps = example_create_def LoadOrCreateCA_def exists_file_def generate_def writePair_def writeExclusive_def
  load_ca_def example_tls_def example_start_def example_excl_def example_disk_def example_x509_def isCompromisedLegacyCA_def
  compromisedLegacyCAFingerprints_def KeyUsageCertSign_def day_ns_def second_ns_def Let_def

lemma example_create_value:
  "fst example_create = Ok (\<lparr>ca_Leaf = Some example_x509, ca_PEM = 1\<rparr>, True)"
  "dk_files (snd example_create) ''/c/ca.key'' = Some \<lparr>file_data = 2, file_perm = 384, file_regular = True\<rparr>"
  "dk_files (snd example_create) ''/c/ca.pem'' = Some \<lparr>file_data = 1, file_perm = 420, file_regular = True\<rparr>"
  by (simp_all add: example_ca_simps)

text \<open>
  C27: An authority that is returned is usable: it was read from the two files as they are on disk, is a
  certificate authority that may sign, is not one of the published compromised ones, and is valid now;
  its key file can be read by the owner only; and it is reported as new exactly if neither file existed.
\<close>

theorem LoadOrCreate_usable:
  assumes "LoadOrCreateCA lib seal io certPath keyPath name D = (Ok (ca, created), D')" "certPath \<noteq> keyPath"
  shows "\<exists>cert key der leaf. dk_files D' certPath = Some cert \<and> dk_files D' keyPath = Some key \<and> file_perm key = 384 \<and>
    tl_key_pair lib (file_data cert) (file_data key) = Some der \<and> tl_parse lib der = Some leaf \<and>
    usable_ca lib (lo_now (cr_load io)) leaf \<and> ca = \<lparr>ca_Leaf = Some leaf, ca_PEM = file_data cert\<rparr> \<and>
    (created \<longleftrightarrow> dk_files D certPath = None) \<and> (created \<longleftrightarrow> dk_files D keyPath = None)"
  using assms(1)
proof (cases rule: LoadOrCreateCA_cases)
  case (there r')
  then show ?thesis using assms(2) by (cases r') (auto simp: load_ca_ok)
next
  case (made cert key D1 r')
  then show ?thesis using assms(2) by (cases r') (auto simp: load_ca_ok)
qed simp_all

lemma LoadOrCreate_usable_witness: "usable_ca example_tls 5 example_x509"
proof -
  have "LoadOrCreateCA example_tls (\<lambda>_. (1, 2)) (example_start example_excl) ''/c/ca.pem'' ''/c/ca.key'' ''lemmingd'' example_disk =
      (Ok (\<lparr>ca_Leaf = Some example_x509, ca_PEM = 1\<rparr>, True), snd example_create)"
    using example_create_value(1) by (metis example_create_def prod.collapse)
  from LoadOrCreate_usable [OF this] show ?thesis by (auto simp: example_start_def)
qed

text \<open>
  C28: Starting never destroys a file. Whatever call fails, and even if other processes create files between
  the check and the write, every file that is there when the program starts to write keeps its content and,
  the key's permissions apart, everything else; and a start that fails to write leaves no half of a pair, as
  long as removing what it wrote works.
\<close>

theorem LoadOrCreate_keeps_files:
  assumes "LoadOrCreateCA lib seal io certPath keyPath name D = (r, D')" "W = start_disk seal io certPath keyPath name D"
  shows "(\<forall>p f. dk_files W p = Some f \<longrightarrow> dk_files D' p = Some f \<or> p = keyPath \<and> dk_files D' p = Some (f\<lparr>file_perm := 384\<rparr>)) \<and>
    (ei_removed (pi_key (cr_pair io)) \<and> ei_removed (pi_cert (cr_pair io)) \<and> pi_rollback (cr_pair io) \<longrightarrow>
       dom (dk_files D') = dom (dk_files W) \<or> dom (dk_files D') = dom (dk_files W) \<union> {certPath, keyPath})"
  using assms(1)
proof (cases rule: LoadOrCreateCA_cases)
  case (error e)
  then show ?thesis using assms(2) by simp
next
  case (there r')
  then have "W = D" using assms(2) by (auto simp: start_disk_def)
  moreover have "dk_files D' p = Some f \<or> p = keyPath \<and> dk_files D' p = Some (f\<lparr>file_perm := 384\<rparr>)"
    if "dk_files D p = Some f" for p f
    using load_ca_frame [OF there(3), of p] that by auto
  ultimately show ?thesis using load_ca_dom [OF there(3)] by simp
next
  case (unwritten cert key e)
  have "dk_files D' = dk_files (cr_others io D)"
    if "ei_removed (pi_key (cr_pair io))" "ei_removed (pi_cert (cr_pair io))" "pi_rollback (cr_pair io)"
    using writePair_whole [OF unwritten(5) that] by simp
  then show ?thesis using writePair_keeps [OF unwritten(5)] unwritten(4) assms(2) by simp
next
  case (made cert key D1 r')
  have "dom (dk_files D1) = dom (dk_files W) \<union> {certPath, keyPath}"
    if "ei_removed (pi_key (cr_pair io))" "ei_removed (pi_cert (cr_pair io))" "pi_rollback (cr_pair io)"
    using writePair_whole [OF made(4) that] made(3) assms(2) by auto
  moreover have "dk_files D' p = Some f \<or> p = keyPath \<and> dk_files D' p = Some (f\<lparr>file_perm := 384\<rparr>)"
    if "dk_files W p = Some f" for p f
    using writePair_keeps [OF made(4), of p f] that made(3) assms(2) load_ca_frame [OF made(5), of p] by auto
  ultimately show ?thesis using load_ca_dom [OF made(5)] by simp
qed

lemma LoadOrCreate_keeps_files_witness: "dk_files (snd example_create) ''/old'' = Some \<lparr>file_data = 9, file_perm = 420, file_regular = True\<rparr>"
proof -
  have e: "LoadOrCreateCA example_tls (\<lambda>_. (1, 2)) (example_start example_excl) ''/c/ca.pem'' ''/c/ca.key'' ''lemmingd'' example_disk =
      (fst example_create, snd example_create)" by (simp add: example_create_def)
  have "start_disk (\<lambda>_. (1, 2)) (example_start example_excl) ''/c/ca.pem'' ''/c/ca.key'' ''lemmingd'' example_disk = example_disk"
    by (simp add: start_disk_def example_start_def)
  with LoadOrCreate_keeps_files [OF e refl]
  have "\<forall>p f. dk_files example_disk p = Some f \<longrightarrow> dk_files (snd example_create) p = Some f \<or>
      p = ''/c/ca.key'' \<and> dk_files (snd example_create) p = Some (f\<lparr>file_perm := 384\<rparr>)"
    by presburger
  then show ?thesis
    by (elim allE [of _ "''/old''"] allE [of _ "\<lparr>file_data = 9, file_perm = 420, file_regular = True\<rparr>"])
      (simp add: example_disk_def)
qed

text \<open>The saturation of \<open>Sub\<close> does not matter for the warning.\<close>

lemma ExpiresSoon_iff:
  "ExpiresSoon ca now \<longleftrightarrow> (\<exists>leaf. ca_Leaf ca = Some leaf \<and> x5_notAfter leaf < now + 30 * day_ns)"
proof -
  have "sint (time_sub t u) = max min_int64 (min max_int64 (t - u))" for t u
    unfolding time_sub_def by (rule sint_word_of_int_64) (auto simp: min_int64_def max_int64_def)
  moreover have "sint ExpiryWarning = 30 * day_ns"
    unfolding ExpiryWarning_def by (rule sint_word_of_int_64) (auto simp: min_int64_def max_int64_def day_ns_def second_ns_def)
  ultimately show ?thesis
    by (auto simp: ExpiresSoon_def word_sless_alt min_int64_def max_int64_def day_ns_def second_ns_def split: option.split)
qed

text \<open>A start in which no call fails and no other process interferes.\<close>

definition calls_work :: "'c create_io \<Rightarrow> bool" where
  "calls_work io \<longleftrightarrow> cr_stat_cert io \<and> cr_stat_key io \<and> gi_key (cr_generate io) \<and> gi_serial (cr_generate io) \<noteq> None \<and>
     gi_create (cr_generate io) \<and> gi_encode (cr_generate io) \<and> cr_others io = id \<and> pi_dirs (cr_pair io) = (\<lambda>_. None) \<and>
     ei_fail (pi_key (cr_pair io)) = None \<and> ei_fail (pi_cert (cr_pair io)) = None \<and>
     lo_cert (cr_load io) \<and> lo_key (cr_load io) \<and> lo_chmod (cr_load io)"

lemma KeyUsage_bits: "(KeyUsageDigitalSignature OR KeyUsageCertSign OR KeyUsageCRLSign) AND KeyUsageCertSign \<noteq> 0"
  by (simp add: KeyUsageDigitalSignature_def KeyUsageCertSign_def KeyUsageCRLSign_def)

text \<open>
  The first start creates the authority and every later start loads the same one. With neither file there
  and a library that reads back the certificate it made, the first start returns a new authority, valid from five
  minutes before until two years after its creation and allowed to sign, in directories only the user can enter; and
  a start at any later time within these two years returns the same authority, not new, and writes nothing.
\<close>

theorem create_then_load:
  assumes "calls_work io" "calls_work io'" "dk_files D certPath = None" "dk_files D keyPath = None" "certPath \<noteq> keyPath"
    and library: "\<forall>t. tl_key_pair lib (fst (seal t)) (snd (seal t)) = Some (der t) \<and>
      tl_parse lib (der t) = Some \<lparr>x5_raw = der t, x5_isCA = ct_isCA t, x5_keyUsage = ct_keyUsage t,
        x5_notBefore = ct_notBefore t div second_ns * second_ns, x5_notAfter = ct_notAfter t div second_ns * second_ns\<rparr> \<and>
      tl_sha256 lib (der t) \<notin> set compromisedLegacyCAFingerprints"
    and times: "cr_now io \<le> lo_now (cr_load io)" "lo_now (cr_load io) \<le> lo_now (cr_load io')"
      "lo_now (cr_load io') + second_ns \<le> cr_now io + 730 * day_ns"
  shows "\<exists>ca D'. LoadOrCreateCA lib seal io certPath keyPath name D = (Ok (ca, True), D') \<and>
     LoadOrCreateCA lib seal io' certPath keyPath name D' = (Ok (ca, False), D') \<and>
     dk_dirs D' (filepath_dir certPath) = Some 448 \<and> dk_dirs D' (filepath_dir keyPath) = Some 448 \<and>
     dom (dk_files D') = dom (dk_files D) \<union> {certPath, keyPath}"
proof -
  obtain serial where serial: "gi_serial (cr_generate io) = Some serial" using assms(1) by (auto simp: calls_work_def)
  define t where "t = ca_template_of name (cr_now io) serial"
  let ?leaf = "\<lparr>x5_raw = der t, x5_isCA = ct_isCA t, x5_keyUsage = ct_keyUsage t,
        x5_notBefore = ct_notBefore t div second_ns * second_ns, x5_notAfter = ct_notAfter t div second_ns * second_ns\<rparr>"
  let ?cert = "\<lparr>file_data = fst (seal t), file_perm = 420 AND NOT (pi_umask (cr_pair io)), file_regular = True\<rparr>"
  let ?key = "\<lparr>file_data = snd (seal t), file_perm = 384 AND NOT (pi_umask (cr_pair io)), file_regular = True\<rparr>"
  let ?dirs = "(dk_dirs D)(filepath_dir certPath \<mapsto> 448, filepath_dir keyPath \<mapsto> 448)"
  let ?D1 = "\<lparr>dk_files = (dk_files D)(keyPath \<mapsto> ?key, certPath \<mapsto> ?cert), dk_dirs = ?dirs\<rparr>"
  let ?D2 = "\<lparr>dk_files = (dk_files D)(keyPath \<mapsto> ?key\<lparr>file_perm := 384\<rparr>, certPath \<mapsto> ?cert), dk_dirs = ?dirs\<rparr>"
  let ?ca = "\<lparr>ca_Leaf = Some ?leaf, ca_PEM = fst (seal t)\<rparr>"
  have bounds: "ct_notBefore t = cr_now io - 300 * second_ns" "ct_notAfter t = cr_now io + 730 * day_ns"
    by (simp_all add: t_def ca_template_of_def time_add_def CAValidity_def day_ns_def second_ns_def sint_word_of_int_64
        min_int64_def max_int64_def)
  have usable: "usable_ca lib now ?leaf" if now: "cr_now io \<le> now" "now + second_ns \<le> cr_now io + 730 * day_ns" for now
  proof -
    have "ct_notBefore t div second_ns * second_ns \<le> now" "now \<le> ct_notAfter t div second_ns * second_ns"
      using now unfolding bounds by (simp_all add: second_ns_def day_ns_def)
    moreover have "ct_isCA t" "ct_keyUsage t AND KeyUsageCertSign \<noteq> 0"
      using KeyUsage_bits by (simp_all add: t_def ca_template_of_def)
    ultimately show ?thesis using library by (simp add: usable_ca_def)
  qed
  have written: "writePair (cr_pair io) certPath keyPath (fst (seal t)) (snd (seal t)) D = (None, ?D1)"
    using assms(1,3-5) by (simp add: writePair_def calls_work_def writeExclusive_def Let_def)
  have load1: "load_ca lib (cr_load io) certPath keyPath ?D1 = (Ok ?ca, ?D2)"
    unfolding load_ca_ok using assms(1,5) library usable [of "lo_now (cr_load io)"] times
    by (auto simp: calls_work_def fun_upd_twist)
  have load2: "load_ca lib (cr_load io') certPath keyPath ?D2 = (Ok ?ca, ?D2)"
    unfolding load_ca_ok using assms(2,5) library usable [of "lo_now (cr_load io')"] times
    by (auto simp: calls_work_def fun_upd_twist)
  have "generate seal (cr_generate io) name (cr_now io) = Ok (fst (seal t), snd (seal t))"
    using assms(1) serial by (simp add: generate_def calls_work_def t_def)
  then have "LoadOrCreateCA lib seal io certPath keyPath name D = (Ok (?ca, True), ?D2)"
    using assms(1,3,4) written load1 by (simp add: LoadOrCreateCA_def exists_file_def calls_work_def split_beta)
  moreover have "LoadOrCreateCA lib seal io' certPath keyPath name ?D2 = (Ok (?ca, False), ?D2)"
    using assms(2,5) load2 by (simp add: LoadOrCreateCA_def exists_file_def calls_work_def)
  moreover have "dom (dk_files ?D2) = dom (dk_files D) \<union> {certPath, keyPath}" by auto
  ultimately show ?thesis by (intro exI [of _ ?ca] exI [of _ ?D2]) simp
qed

text \<open>A library in which a certificate's bytes are the fields that matter.\<close>

definition plain_der :: "ca_template \<Rightarrow> bytes" where
  "plain_der t = [if ct_isCA t then 1 else 0, uint (ct_keyUsage t), ct_notBefore t, ct_notAfter t]"

definition plain_tls :: "bytes tls" where
  "plain_tls = \<lparr>tl_key_pair = (\<lambda>c k. if k = [] then Some c else None),
     tl_parse = (\<lambda>d. case d of [a, u, b, e] \<Rightarrow> Some \<lparr>x5_raw = d, x5_isCA = (a = 1), x5_keyUsage = word_of_int u,
         x5_notBefore = b div second_ns * second_ns, x5_notAfter = e div second_ns * second_ns\<rparr> | _ \<Rightarrow> None),
     tl_sha256 = (\<lambda>_. [])\<rparr>"

definition plain_start :: "go_time \<Rightarrow> bytes create_io" where
  "plain_start now = \<lparr>cr_stat_cert = True, cr_stat_key = True, cr_now = 0,
     cr_generate = \<lparr>gi_key = True, gi_serial = Some 7, gi_create = True, gi_encode = True\<rparr>, cr_others = id,
     cr_pair = \<lparr>pi_dirs = (\<lambda>_. None), pi_umask = 18, pi_key = \<lparr>ei_fail = None, ei_removed = True, ei_part = []\<rparr>,
       pi_cert = \<lparr>ei_fail = None, ei_removed = True, ei_part = []\<rparr>, pi_rollback = True\<rparr>,
     cr_load = \<lparr>lo_cert = True, lo_key = True, lo_now = now, lo_chmod = True\<rparr>\<rparr>"

lemma create_then_load_witness:
  "\<exists>ca D'. LoadOrCreateCA plain_tls (\<lambda>t. (plain_der t, [])) (plain_start 0) ''ca.pem'' ''ca.key'' ''lemmingd''
      \<lparr>dk_files = (\<lambda>_. None), dk_dirs = (\<lambda>_. None)\<rparr> = (Ok (ca, True), D') \<and>
    LoadOrCreateCA plain_tls (\<lambda>t. (plain_der t, [])) (plain_start (100 * day_ns)) ''ca.pem'' ''ca.key'' ''lemmingd'' D' = (Ok (ca, False), D')"
proof -
  have "\<forall>t. tl_key_pair plain_tls (fst (plain_der t, [] :: bytes)) (snd (plain_der t, [])) = Some (plain_der t) \<and>
      tl_parse plain_tls (plain_der t) = Some \<lparr>x5_raw = plain_der t, x5_isCA = ct_isCA t, x5_keyUsage = ct_keyUsage t,
        x5_notBefore = ct_notBefore t div second_ns * second_ns, x5_notAfter = ct_notAfter t div second_ns * second_ns\<rparr> \<and>
      tl_sha256 plain_tls (plain_der t) \<notin> set compromisedLegacyCAFingerprints"
    by (simp add: plain_tls_def plain_der_def compromisedLegacyCAFingerprints_def)
  from create_then_load [where D = "\<lparr>dk_files = (\<lambda>_. None), dk_dirs = (\<lambda>_. None)\<rparr>", OF _ _ _ _ _ this,
      of "plain_start 0" "plain_start (100 * day_ns)" "''ca.pem''" "''ca.key''" "''lemmingd''"]
  show ?thesis by (auto simp: calls_work_def plain_start_def day_ns_def second_ns_def)
qed

end
