(* ===== verification/HamsterdMain.thy ===== *)
theory HamsterdMain
  imports ConfigFile ProxyGuard Mitm CaStore
begin

text \<open>
  The hamsterd command (\<open>cmd/hamsterd/main.go\<close>): the stages of a start with their exit codes, which CONNECT requests are
  intercepted, which requests go through the cache, and the pages for direct requests. Flag parsing, the components'
  constructors and the proxy library are outcomes or outside.
\<close>

section \<open>Hosts\<close>

definition domainHost :: "string \<Rightarrow> string" where
  "domainHost hostPort =
     (case SplitHostPort hostPort of
        Ok (host, _) \<Rightarrow> TrimSuffix host ''.''
      | Err _ \<Rightarrow> TrimSuffix hostPort ''.'')"

definition matchesDomain :: "string \<Rightarrow> string list \<Rightarrow> bool" where
  "matchesDomain hostPort domains =
     (if domains = [] then True
      else let host = domainHost hostPort
           in list_ex (\<lambda>domain. EqualFold host (TrimSuffix domain ''.'')) domains)"

definition connectPorts :: "int list \<Rightarrow> int list" where
  "connectPorts ports = (if ports = [] then [443] else ports)"

section \<open>Handlers\<close>

datatype connect_action = TunnelTo string | Intercept string

definition hamsterd_connect :: "string list \<Rightarrow> string \<Rightarrow> connect_action" where
  "hamsterd_connect domains host = (if \<not> matchesDomain host domains then TunnelTo host else Intercept host)"

datatype way_out = ThroughCache | Direct

definition hamsterd_request :: "string list \<Rightarrow> url \<Rightarrow> way_out" where
  "hamsterd_request domains u =
     (if matchesDomain (url_hostname (url_host u)) domains then ThroughCache else Direct)"

text \<open>The session header of a response, when there is one and its request is known.\<close>

definition hamsterd_response :: "string \<Rightarrow> bool \<Rightarrow> header option \<Rightarrow> header option" where
  "hamsterd_response session known h =
     (if h = None \<or> \<not> known then h else map_option (\<lambda>h. hset h ''X-Hamsterd-Session'' session) h)"

text \<open>
  The pages of the proxy itself, for a path that is already clean: \<open>http.ServeMux\<close> answers GET and HEAD and refuses other methods.
\<close>

datatype page = Welcome | CACert | Healthy | MethodNotAllowed

definition informationHandler :: "string \<Rightarrow> string \<Rightarrow> page" where
  "informationHandler verb path =
     (if verb \<noteq> ''GET'' \<and> verb \<noteq> ''HEAD'' then MethodNotAllowed
      else if path = ''/ca.crt'' then CACert
      else if path = ''/healthz'' then Healthy
      else Welcome)"

section \<open>Start\<close>

text \<open>The sizes of the cache in bytes, computed in 64-bit integers.\<close>

definition cache_bytes :: "cache_config \<Rightarrow> i64 \<times> i64" where
  "cache_bytes c =
     (word_of_int (cc_MaxSizeMiB c) * 1024 * 1024, word_of_int (cc_MaxObjectMiB c) * 1024 * 1024)"

definition proxy_options :: "config \<Rightarrow> options" where
  "proxy_options cfg = \<lparr>op_RemoteClients = cf_AllowRemoteClients cfg, op_ConnectPorts = cf_ConnectPorts cfg,
     op_Trusted = None, op_ListenAddress = cf_Listen cfg\<rparr>"

text \<open>
  The flags as parsed, and the outcomes of a start: finding the paths and parsing the flags, the files read, the write of a first
  configuration, the authority, the issuer and the cache. \<open>running\<close> is what reaches \<open>proxycore.Serve\<close>.
\<close>

record hamsterd_io =
  hi_paths :: bool
  hi_flags :: bool
  hi_version :: bool
  hi_config :: string
  hi_cacheDir :: string
  hi_listen :: string
  hi_read :: "string \<Rightarrow> bool"
  hi_tmp :: string
  hi_part :: doc
  hi_fail :: "config_step option"
  hi_ca :: bool
  hi_issuer :: bool
  hi_cache :: bool

record running =
  rn_listen :: string
  rn_options :: options
  rn_domains :: "string list"
  rn_directory :: string
  rn_cache :: "i64 \<times> i64"
  rn_ttl :: duration

text \<open>The configuration with the \<open>-listen\<close> flag, which is checked again; both commands do this.\<close>

definition override_listen :: "string \<Rightarrow> service \<Rightarrow> config \<Rightarrow> (config_error, config) result" where
  "override_listen listen svc cfg =
     (if listen = [] then Ok cfg
      else case Validate (cfg\<lparr>cf_Listen := listen\<rparr>) svc of
        Some e \<Rightarrow> Err e
      | None \<Rightarrow> Ok (cfg\<lparr>cf_Listen := listen\<rparr>))"

definition hamsterd_start :: "hamsterd_io \<Rightarrow> doc fs \<Rightarrow> (int, running) result \<times> doc fs" where
  "hamsterd_start io fs =
     (if \<not> hi_paths io then (Err 1, fs)
      else if \<not> hi_flags io then (Err 2, fs)
      else if hi_version io then (Err 0, fs)
      else case ConfigFile.LoadOrCreate (hi_read io) (hi_tmp io) (hi_part io) (hi_fail io) (hi_config io) Hamsterd (hi_cacheDir io) fs of
        (Err _, fs1) \<Rightarrow> (Err 1, fs1)
      | (Ok (cfg0, created), fs1) \<Rightarrow>
          (case override_listen (hi_listen io) Hamsterd cfg0 of
             Err _ \<Rightarrow> (Err 1, fs1)
           | Ok cfg \<Rightarrow>
               if \<not> hi_ca io then (Err 1, fs1)
               else case ParseDuration (cc_DefaultTTL (cf_Cache cfg)) of
                 None \<Rightarrow> (Err 1, fs1)
               | Some ttl \<Rightarrow>
                   if \<not> hi_issuer io then (Err 1, fs1)
                   else if \<not> hi_cache io then (Err 1, fs1)
                   else (Ok \<lparr>rn_listen = cf_Listen cfg, rn_options = proxy_options cfg, rn_domains = cf_Domains cfg,
                           rn_directory = cc_Directory (cf_Cache cfg), rn_cache = cache_bytes (cf_Cache cfg), rn_ttl = ttl\<rparr>, fs1)))"

definition hamsterd_exit :: "('e \<Rightarrow> bool) \<Rightarrow> 'e serving \<Rightarrow> int" where
  "hamsterd_exit closed serving = (if ServeAfterListen closed (serving\<lparr>sv_ready := None\<rparr>) = [] then 0 else 1)"

section \<open>Facts about a start\<close>

text \<open>\<open>LoadOrCreate\<close> returns checked configurations only.\<close>

lemma LoadOrCreate_Validate:
  assumes "ConfigFile.LoadOrCreate rd tmp part fail path svc dir fs = (Ok (cfg, created), fs')" "svc = Hamsterd \<or> svc = Lemmingd"
  shows "Validate cfg svc = None"
  using assms Validate_Default [OF assms(2), of dir]
  by (auto simp: ConfigFile.LoadOrCreate_def Let_def split: sum.splits read_error.splits option.splits)

lemma override_listen_Ok:
  "override_listen listen svc cfg = Ok c \<Longrightarrow> Validate cfg svc = None \<Longrightarrow>
   Validate c svc = None \<and> (listen \<noteq> [] \<longrightarrow> cf_Listen c = listen) \<and> c = cfg\<lparr>cf_Listen := cf_Listen c\<rparr>"
  by (auto simp: override_listen_def split: if_splits option.splits)

text \<open>What serves has a checked configuration: without remote clients it listens on a loopback address.\<close>

lemma hamsterd_started:
  assumes "hamsterd_start io fs = (Ok run, fs')"
  shows "\<exists>cfg. Validate cfg Hamsterd = None \<and> rn_options run = proxy_options cfg \<and> rn_listen run = cf_Listen cfg \<and>
    rn_cache run = cache_bytes (cf_Cache cfg) \<and> ParseDuration (cc_DefaultTTL (cf_Cache cfg)) = Some (rn_ttl run) \<and>
    (hi_listen io \<noteq> [] \<longrightarrow> rn_listen run = hi_listen io)"
proof -
  obtain cfg0 created where l: "ConfigFile.LoadOrCreate (hi_read io) (hi_tmp io) (hi_part io) (hi_fail io) (hi_config io) Hamsterd (hi_cacheDir io) fs =
      (Ok (cfg0, created), fs')"
    using assms by (auto simp: hamsterd_start_def split: if_splits prod.splits sum.splits option.splits)
  obtain cfg ttl where c: "override_listen (hi_listen io) Hamsterd cfg0 = Ok cfg" "ParseDuration (cc_DefaultTTL (cf_Cache cfg)) = Some ttl"
    "run = \<lparr>rn_listen = cf_Listen cfg, rn_options = proxy_options cfg, rn_domains = cf_Domains cfg,
       rn_directory = cc_Directory (cf_Cache cfg), rn_cache = cache_bytes (cf_Cache cfg), rn_ttl = ttl\<rparr>"
    using assms l by (auto simp: hamsterd_start_def split: if_splits sum.splits option.splits)
  then show ?thesis using override_listen_Ok [OF c(1) LoadOrCreate_Validate [OF l]] by auto
qed

section \<open>Lemmas on names\<close>

text \<open>
  A host as it stands in a CONNECT request, without its brackets: no spaces, at most one final dot; and the names among them, which have no
  colon. What remains are IPv6 literals, with at least two colons.
\<close>

definition bare_host :: "string \<Rightarrow> bool" where
  "bare_host h \<longleftrightarrow> h \<noteq> [] \<and> \<not> HasSuffix h ''..'' \<and> h \<noteq> ''.'' \<and> (\<forall>c \<in> set h. \<not> is_space c \<and> c \<noteq> CHR ''['' \<and> c \<noteq> CHR '']'')"

definition plain_host :: "string \<Rightarrow> bool" where
  "plain_host h \<longleftrightarrow> h \<noteq> [] \<and> \<not> HasSuffix h ''..'' \<and> h \<noteq> ''.'' \<and>
     (\<forall>c \<in> set h. \<not> is_space c \<and> c \<noteq> CHR '':'' \<and> c \<noteq> CHR ''['' \<and> c \<noteq> CHR '']'')"

definition connect_name :: "string \<Rightarrow> bool" where
  "connect_name h \<longleftrightarrow> bare_host h \<and> (CHR '':'' \<notin> set h \<or> 2 \<le> count_list h (CHR '':''))"

lemma plain_host_iff: "plain_host h \<longleftrightarrow> bare_host h \<and> CHR '':'' \<notin> set h"
  by (auto simp: plain_host_def bare_host_def)

lemma TrimSpace_plain:
  assumes "\<forall>c \<in> set s. \<not> is_space c"
  shows "TrimSpace s = s"
proof -
  have id: "dropWhile is_space t = t" if "\<forall>c \<in> set t. \<not> is_space c" for t using that by (cases t) auto
  have "dropWhile is_space (rev s) = rev s" using id [of "rev s"] assms by simp
  then show ?thesis using id [OF assms] by (simp add: TrimSpace_def)
qed

lemma lower_char_special:
  "lower_char c = CHR ''.'' \<longleftrightarrow> c = CHR ''.''" "lower_char c = CHR '':'' \<longleftrightarrow> c = CHR '':''"
  "lower_char c = CHR ''['' \<longleftrightarrow> c = CHR ''[''" "lower_char c = CHR '']'' \<longleftrightarrow> c = CHR '']''"
  by (rule lower_char_eq_iff; simp)+

lemma HasSuffix_dot: "HasSuffix s ''.'' \<longleftrightarrow> s \<noteq> [] \<and> last s = CHR ''.''"
  unfolding HasSuffix_iff by (cases s rule: rev_cases) auto

lemma TrimSuffix_dot: "TrimSuffix s ''.'' = (if s \<noteq> [] \<and> last s = CHR ''.'' then butlast s else s)"
  by (simp add: TrimSuffix_def HasSuffix_dot butlast_conv_take)

lemma ToLower_TrimSuffix_dot: "ToLower (TrimSuffix s ''.'') = TrimSuffix (ToLower s) ''.''"
  by (auto simp: TrimSuffix_dot ToLower_def last_map map_butlast lower_char_special)

text \<open>The certificate name of a plain host: lower case, no final dot, otherwise the same characters.\<close>

lemma bare_host_norm:
  assumes "bare_host h"
  defines "n \<equiv> TrimSuffix (ToLower h) ''.''"
  shows "normalizeHostname h = n" "n \<noteq> []" "TrimSuffix n ''.'' = n" "ToLower n = n" "TrimSpace n = n"
    "CHR ''['' \<notin> set n" "CHR '']'' \<notin> set n" "ToLower (TrimSuffix h ''.'') = n" "\<forall>c \<in> set n. \<not> is_space c"
proof -
  have chars: "\<not> is_space c" "c \<noteq> CHR ''[''" "c \<noteq> CHR '']''" if "c \<in> set h" for c
    using assms(1) that by (auto simp: bare_host_def)
  have plain: "CHR ''['' \<notin> set h" "CHR '']'' \<notin> set h" using chars by blast+
  have sub: "set n \<subseteq> set (ToLower h)" unfolding n_def by (rule set_TrimSuffix)
  have lower: "is_space (lower_char c) \<longleftrightarrow> is_space c" for c
    using byte_lower_char [of c] by (cases "65 \<le> byte c \<and> byte c \<le> 90") (auto simp: lower_char_def is_space_def)
  show "normalizeHostname h = n" using TrimSpace_plain [of h] chars(1) by (simp add: normalizeHostname_def n_def)
  show "n \<noteq> []"
  proof -
    have "h \<noteq> []" "h \<noteq> ''.''" using assms(1) by (auto simp: bare_host_def)
    then show ?thesis by (cases h rule: rev_cases) (auto simp: n_def TrimSuffix_dot ToLower_def lower_char_special)
  qed
  show "TrimSuffix n ''.'' = n"
  proof (rule ccontr)
    assume "TrimSuffix n ''.'' \<noteq> n"
    then have dot: "n \<noteq> []" "last n = CHR ''.''" by (auto simp: TrimSuffix_dot split: if_splits)
    then have "\<not> HasSuffix (ToLower h) ''.'' \<Longrightarrow> False" by (auto simp: n_def TrimSuffix_dot HasSuffix_dot split: if_splits)
    then have "ToLower h = n @ ''.''" using TrimSuffix_cases [of "ToLower h" "''.''"] unfolding n_def by blast
    then obtain m where "ToLower h = m @ ''..''" using dot by (cases n rule: rev_cases) auto
    then have "HasSuffix h ''..''"
      by (cases h rule: rev_cases; cases "butlast h" rule: rev_cases)
        (auto simp: HasSuffix_iff ToLower_def lower_char_special butlast_append)
    then show False using assms(1) by (simp add: bare_host_def)
  qed
  show "ToLower n = n" by (simp add: n_def ToLower_TrimSuffix_dot)
  show "\<forall>c \<in> set n. \<not> is_space c" using sub chars(1) by (auto simp: ToLower_def lower)
  then show "TrimSpace n = n" by (rule TrimSpace_plain)
  show "CHR ''['' \<notin> set n" "CHR '']'' \<notin> set n"
    using sub plain set_ToLower_iff [of "CHR ''[''" h] set_ToLower_iff [of "CHR '']''" h] by auto
  show "ToLower (TrimSuffix h ''.'') = n" by (simp add: n_def ToLower_TrimSuffix_dot)
qed

lemma colons_norm: "count_list (TrimSuffix (ToLower h) ''.'') (CHR '':'') = count_list h (CHR '':'')"
proof -
  have "count_list (ToLower s) (CHR '':'') = count_list s (CHR '':'')" for s
    by (induction s) (simp_all add: ToLower_def lower_char_special)
  moreover have "count_list (TrimSuffix s ''.'') (CHR '':'') = count_list s (CHR '':'')" for s
    by (cases s rule: rev_cases) (auto simp: TrimSuffix_dot)
  ultimately show ?thesis by simp
qed

lemma colon_norm: "CHR '':'' \<in> set (TrimSuffix (ToLower h) ''.'') \<longleftrightarrow> CHR '':'' \<in> set h"
  using colons_norm [of h] by (metis count_list_0_iff)

lemma plain_host_norm:
  assumes "plain_host h"
  defines "n \<equiv> TrimSuffix (ToLower h) ''.''"
  shows "normalizeHostname h = n" "n \<noteq> []" "TrimSuffix n ''.'' = n" "ToLower n = n" "TrimSpace n = n"
    "CHR '':'' \<notin> set n" "CHR ''['' \<notin> set n" "CHR '']'' \<notin> set n" "ToLower (TrimSuffix h ''.'') = n"
    "\<forall>c \<in> set n. \<not> is_space c"
  using assms bare_host_norm [of h] colon_norm [of h] unfolding plain_host_iff by simp_all

text \<open>Without a port, the name of a host is not taken for an address.\<close>

lemma connect_name_no_port:
  assumes "connect_name h"
  shows "\<exists>e. SplitHostPort (TrimSuffix (ToLower h) ''.'') = Err e"
proof (cases "CHR '':'' \<in> set h")
  case True
  have "TrimSuffix (ToLower h) ''.'' \<noteq> []" "CHR ''['' \<notin> set (TrimSuffix (ToLower h) ''.'')"
    using assms bare_host_norm [of h] by (simp_all add: connect_name_def)
  then have "hd (TrimSuffix (ToLower h) ''.'') \<noteq> CHR ''[''" by (metis hd_in_set)
  then show ?thesis using assms True SplitHostPort_two_colons colons_norm [of h] by (auto simp: connect_name_def)
next
  case False
  then show ?thesis using SplitHostPort_no_colon colon_norm [of h] by blast
qed

lemma SplitHostPort_connect:
  assumes "connect_name h" "list_all is_digit port"
  shows "SplitHostPort (JoinHostPort h port) = Ok (h, port)" "connect_address (JoinHostPort h port) = (h, port)"
proof -
  show "SplitHostPort (JoinHostPort h port) = Ok (h, port)"
    using assms digits_plain [of port] by (intro SplitHostPort_Join) (auto simp: connect_name_def bare_host_def)
  then show "connect_address (JoinHostPort h port) = (h, port)" by (simp add: connect_address_def)
qed

text \<open>The authority an intercepted tunnel gives its requests.\<close>

lemma tunnel_authority:
  assumes "plain_host h" "port \<noteq> []" "list_all is_digit port" "serveMITM (h @ '':'' @ port) written first = Serve cert scheme authority"
  shows "authority = TrimSuffix (ToLower h) ''.'' \<or> authority = TrimSuffix (ToLower h) ''.'' @ '':'' @ port"
proof -
  have "CHR '':'' \<notin> set h" "CHR ''['' \<notin> set h" "CHR '']'' \<notin> set h" using assms(1) by (auto simp: plain_host_def)
  moreover have "CHR '':'' \<notin> set port" "CHR ''['' \<notin> set port" "CHR '']'' \<notin> set port"
    using assms(3) by (auto simp: list_all_iff is_digit_def)
  ultimately have "SplitHostPort (h @ '':'' @ port) = Ok (h, port)" by (intro SplitHostPort_plain)
  moreover have "JoinHostPort (TrimSuffix (ToLower h) ''.'') port = TrimSuffix (ToLower h) ''.'' @ '':'' @ port"
    using plain_host_norm(6) [OF assms(1)] by (simp add: JoinHostPort_def)
  ultimately show ?thesis using assms(4) plain_host_norm(1) [OF assms(1)]
    by (auto simp: serveMITM_def Let_def split: if_splits option.splits)
qed

lemma matchesDomain_lower:
  "ToLower (domainHost a) = ToLower (domainHost b) \<Longrightarrow> matchesDomain a ds = matchesDomain b ds"
  by (simp add: matchesDomain_def EqualFold_def)

section \<open>Properties\<close>

text \<open>
  C34: hamsterd decides about a host once. Every request that is forwarded from an intercepted CONNECT tunnel goes through the
  cache: the host it is sent to matches the domain list exactly as the CONNECT request did, and it is the host and port of the
  CONNECT request. The host is a name or IP literal without spaces and with at most one final dot; IPv6 literals on the default port of
  the scheme are left out, see \<open>ipv6_bypasses_cache\<close>.
\<close>

theorem tunnel_through_cache:
  assumes "connect_name h" "tunnel_address scheme h port"
    and connect: "hamsterd_connect domains (JoinHostPort h port) = Intercept connectHost"
    and serve: "serveMITM connectHost written first = Serve cert scheme authority"
    and forward: "mitmHandler scheme authority request u = Forward request'" "req_url request' = Some u'"
  shows "hamsterd_request domains u' = ThroughCache \<and>
    canonicalAddr scheme (url_host u') = JoinHostPort (TrimSuffix (ToLower h) ''.'') port \<and>
    (domains \<noteq> [] \<longrightarrow> (\<exists>d \<in> set domains. EqualFold (url_hostname (url_host u')) (TrimSuffix d ''.'')))"
proof -
  let ?n = "TrimSuffix (ToLower h) ''.''"
  have n: "normalizeHostname h = ?n" "TrimSuffix ?n ''.'' = ?n" "ToLower ?n = ?n" "ToLower (TrimSuffix h ''.'') = ?n"
    using assms(1) bare_host_norm [of h] by (simp_all add: connect_name_def)
  have host: "connectHost = JoinHostPort h port" "matchesDomain (JoinHostPort h port) domains"
    using connect by (auto simp: hamsterd_connect_def split: if_splits)
  note addr = SplitHostPort_connect [OF assms(1), of port]
  have digits: "list_all is_digit port" using assms(2) by (simp add: tunnel_address_def)
  note d = tunnel_dial [OF serve [unfolded host(1)] addr(2) [OF digits] assms(2), unfolded n(1)]
  have u': "url_host u' = authority" using forward by (auto simp: mitmHandler_def Let_def split: if_splits)
  have "domainHost (JoinHostPort h port) = TrimSuffix h ''.''" using addr(1) [OF digits] by (simp add: domainHost_def)
  moreover have plain: "domainHost ?n = ?n" using connect_name_no_port [OF assms(1)] n(2) by (auto simp: domainHost_def)
  ultimately have "matchesDomain ?n domains" using host(2) matchesDomain_lower [of "JoinHostPort h port" ?n domains] n(3,4) by simp
  then show ?thesis using u' d plain by (auto simp: hamsterd_request_def matchesDomain_def list_ex_iff Let_def split: if_splits)
qed

lemma tunnel_through_cache_witness:
  "hamsterd_request [''app.test''] \<lparr>url_scheme = ''https'', url_user = False, url_host = ''app.test:8443'', url_path = ''/x'', url_query = [],
     url_fragment = []\<rparr> = ThroughCache \<and> canonicalAddr ''https'' ''app.test:8443'' = ''app.test:8443''"
proof -
  let ?req = "\<lparr>req_method = ''GET'', req_url = None, req_host = ''APP.test:8443'', req_header = []\<rparr>"
  let ?u = "\<lparr>url_scheme = [], url_user = False, url_host = [], url_path = ''/x'', url_query = [], url_fragment = []\<rparr>"
  let ?u' = "?u\<lparr>url_scheme := ''https'', url_host := ''app.test:8443''\<rparr>"
  have c: "connect_name ''App.test.''" "tunnel_address ''https'' ''App.test.'' ''8443''"
    "hamsterd_connect [''app.test''] (JoinHostPort ''App.test.'' ''8443'') = Intercept ''App.test.:8443''"
    "serveMITM ''App.test.:8443'' True (Some 22) = Serve (Some ''app.test'') ''https'' ''app.test:8443''"
    "mitmHandler ''https'' ''app.test:8443'' ?req ?u = Forward (?req\<lparr>req_url := Some ?u'\<rparr>)"
    "JoinHostPort (TrimSuffix (ToLower ''App.test.'') ''.'') ''8443'' = ''app.test:8443''"
    by code_simp+
  from tunnel_through_cache [OF c(1-5), of ?u'] c(6) show ?thesis by simp
qed

text \<open>A listed IPv6 literal: CONNECT is intercepted, but its requests bypass the cache, to another host.\<close>

lemma ipv6_bypasses_cache:
  "hamsterd_connect [''2001:db8::1''] ''[2001:db8::1]:443'' = Intercept ''[2001:db8::1]:443''"
  "serveMITM ''[2001:db8::1]:443'' True (Some 22) = Serve (Some ''2001:db8::1'') ''https'' ''2001:db8::1''"
  "hamsterd_request [''2001:db8::1''] \<lparr>url_scheme = ''https'', url_user = False, url_host = ''2001:db8::1'', url_path = ''/'', url_query = [],
     url_fragment = []\<rparr> = Direct"
  "canonicalAddr ''https'' ''2001:db8::1'' = ''[2001:db8:]:1''"
  by code_simp+

text \<open>
  A size the configuration accepts can leave the cache without room: it is counted in bytes without a check for overflow.
\<close>

lemma cache_bytes_overflow:
  "\<exists>cfg. Validate cfg Hamsterd = None \<and> 0 < cc_MaxSizeMiB (cf_Cache cfg) \<and> sint (fst (cache_bytes (cf_Cache cfg))) = 0"
proof (intro exI conjI)
  let ?cfg = "(Default Hamsterd ''/c'')\<lparr>cf_Cache := (cf_Cache (Default Hamsterd ''/c''))\<lparr>cc_MaxSizeMiB := 2 ^ 44\<rparr>\<rparr>"
  show "Validate ?cfg Hamsterd = None" by code_simp
  show "0 < cc_MaxSizeMiB (cf_Cache ?cfg)" by simp
  show "sint (fst (cache_bytes (cf_Cache ?cfg))) = 0" by (simp add: cache_bytes_def)
qed

end
