(* ===== verification/FirefoxLease.thy ===== *)
theory FirefoxLease
  imports GoFile GoNet
begin

text \<open>
  The locks and the lease of a managed Firefox profile (\<open>internal/firefox/firefox.go\<close> and
  \<open>lock_unix.go\<close>): a directory that serializes launchers, a lease file that names its owner by a random
  token, and the locks Firefox itself keeps on a profile. Outcomes of system calls are arguments.
  The protocol of any number of launchers and their Firefox processes on one profile is a step relation.
\<close>

definition launcherLockName :: string where "launcherLockName = ''.lemmingd-firefox.lock''"
definition preparationLockName :: string where "preparationLockName = ''.lemmingd-firefox.prepare''"

section \<open>The native locks of Firefox\<close>

text \<open>Opening \<open>.parentlock\<close> and asking for its lock; \<open>lstat\<close> and reading of the \<open>lock\<close> link.\<close>

datatype fcntl_io = FileMissing | OpenError | LockDenied | LockError | LockFree

datatype link_io = LinkMissing | LstatError | NotALink | ReadlinkError | LinkTo string

datatype signal_result = SignalSent | SignalRefused | SignalNoProcess

definition fcntlLockHeld :: "fcntl_io \<Rightarrow> (string, bool) result" where
  "fcntlLockHeld io =
     (case io of
        FileMissing \<Rightarrow> Ok False
      | OpenError \<Rightarrow> Err ''inspect Firefox profile lock''
      | LockDenied \<Rightarrow> Ok True
      | LockError \<Rightarrow> Err ''inspect Firefox profile lock''
      | LockFree \<Rightarrow> Ok False)"

definition symlinkLockHeld :: "(int \<Rightarrow> signal_result) \<Rightarrow> link_io \<Rightarrow> (string, bool) result" where
  "symlinkLockHeld kill io =
     (case io of
        LinkMissing \<Rightarrow> Ok False
      | LstatError \<Rightarrow> Err ''inspect Firefox profile lock''
      | NotALink \<Rightarrow> Ok True
      | ReadlinkError \<Rightarrow> Err ''inspect Firefox profile lock''
      | LinkTo target \<Rightarrow>
          (case Cut target '':'' of
             (_, pidText, found) \<Rightarrow>
               (case Atoi (TrimPrefix pidText ''+'') of
                  None \<Rightarrow> Ok True
                | Some pid \<Rightarrow>
                    if \<not> found \<or> pid < 1 then Ok True
                    else Ok (kill pid = SignalSent \<or> kill pid = SignalRefused))))"

definition firefoxProfileLocked :: "(int \<Rightarrow> signal_result) \<Rightarrow> fcntl_io \<Rightarrow> link_io \<Rightarrow> (string, bool) result" where
  "firefoxProfileLocked kill parent link =
     (case fcntlLockHeld parent of
        Inl e \<Rightarrow> Err e
      | Inr True \<Rightarrow> Ok True
      | Inr False \<Rightarrow> symlinkLockHeld kill link)"

definition checkFirefoxProfileLock :: "(string, bool) result \<Rightarrow> string option" where
  "checkFirefoxProfileLock profileLocked =
     (case profileLocked of
        Inl e \<Rightarrow> Some e
      | Inr locked \<Rightarrow> if locked then Some ''appears to be in use; close Firefox first'' else None)"

section \<open>The lease\<close>

record profileLease =
  pl_state :: string
  pl_token :: string

definition contents :: "profileLease \<Rightarrow> int \<Rightarrow> string" where
  "contents lease pid = pl_state lease @ '' '' @ FormatInt pid @ '' '' @ pl_token lease @ [char_of (10 :: nat)]"

definition parseLease :: "string \<Rightarrow> (string \<times> int \<times> string) option" where
  "parseLease data =
     (let parts = Fields data
      in if length parts = 1 then
           (case Atoi (parts ! 0) of
              None \<Rightarrow> None
            | Some pid \<Rightarrow> if pid < 1 then None else Some (''preparing'', pid, []))
         else if length parts \<noteq> 3 \<or> (parts ! 0 \<noteq> ''preparing'' \<and> parts ! 0 \<noteq> ''running'') then None
         else
           (case Atoi (parts ! 1) of
              None \<Rightarrow> None
            | Some pid \<Rightarrow> if pid < 1 \<or> parts ! 2 = [] then None else Some (parts ! 0, pid, parts ! 2)))"

text \<open>The two lock files of a profile: the preparation directory and the lease file's text.\<close>

record profile =
  pf_prep :: bool
  pf_lease :: "string option"

datatype prep_error = AlreadyPreparing | PrepareFailed

definition acquirePreparationLock :: "bool \<Rightarrow> profile \<Rightarrow> (prep_error, profile) result" where
  "acquirePreparationLock mkdir P =
     (if pf_prep P then Err AlreadyPreparing
      else if \<not> mkdir then Err PrepareFailed
      else Ok (P\<lparr>pf_prep := True\<rparr>))"

definition remove_preparation :: "profile \<Rightarrow> profile" where
  "remove_preparation P = P\<lparr>pf_prep := False\<rparr>"

text \<open>
  One attempt to create the lease file: another error than that it exists, whether writing and closing
  work, what a failed write leaves if removing it fails, and whether a stale lease can be removed.
\<close>

record lease_io =
  ls_open :: bool
  ls_write :: bool
  ls_close :: bool
  ls_undo :: bool
  ls_part :: string
  ls_stale :: bool

fun lease_attempts :: "lease_io list \<Rightarrow> profileLease \<Rightarrow> int \<Rightarrow> profile \<Rightarrow> (string, profileLease) result \<times> profile" where
  "lease_attempts [] lease pid P = (Err ''could not acquire Firefox profile lease'', P)"
| "lease_attempts (io # ios) lease pid P =
     (if pf_lease P = None \<and> ls_open io then
        let text = contents lease pid
        in if \<not> ls_write io
             then (Err ''write Firefox profile lease'', P\<lparr>pf_lease := (if ls_undo io then None else Some (ls_part io))\<rparr>)
           else if \<not> ls_close io
             then (Err ''close Firefox profile lease'', P\<lparr>pf_lease := (if ls_undo io then None else Some text)\<rparr>)
           else (Ok lease, P\<lparr>pf_lease := Some text\<rparr>)
      else if \<not> ls_open io then (Err ''create Firefox profile lease'', P)
      else if \<not> ls_stale io then (Err ''remove stale Firefox profile lease'', P)
      else lease_attempts ios lease pid (P\<lparr>pf_lease := None\<rparr>))"

text \<open>The random bytes, if they can be read, are sixteen.\<close>

definition newLeaseToken :: "nat list option \<Rightarrow> string option" where
  "newLeaseToken random = map_option hex_encode random"

definition acquireProfileLease :: "lease_io \<Rightarrow> lease_io \<Rightarrow> string option \<Rightarrow> int \<Rightarrow> profile \<Rightarrow> (string, profileLease) result \<times> profile" where
  "acquireProfileLease io1 io2 token pid P =
     (case token of
        None \<Rightarrow> (Err ''create Firefox profile lease token'', P)
      | Some t \<Rightarrow> lease_attempts [io1, io2] \<lparr>pl_state = ''preparing'', pl_token = t\<rparr> pid P)"

text \<open>Writing the running state may fail and leave a part.\<close>

definition update_lease :: "string option \<Rightarrow> profileLease \<Rightarrow> int \<Rightarrow> profile \<Rightarrow> bool \<times> profileLease \<times> profile" where
  "update_lease failed lease pid P =
     (let lease' = lease\<lparr>pl_state := ''running''\<rparr>
      in case failed of
           Some part \<Rightarrow> (False, lease', P\<lparr>pf_lease := Some part\<rparr>)
         | None \<Rightarrow> (True, lease', P\<lparr>pf_lease := Some (contents lease' pid)\<rparr>))"

definition remove_lease :: "bool \<Rightarrow> bool \<Rightarrow> profileLease \<Rightarrow> profile \<Rightarrow> bool \<times> profile" where
  "remove_lease rd rm lease P =
     (case pf_lease P of
        None \<Rightarrow> (True, P)
      | Some data \<Rightarrow>
          if \<not> rd then (False, P)
          else case parseLease data of
            None \<Rightarrow> (True, P)
          | Some (_, _, token) \<Rightarrow>
              if token \<noteq> pl_token lease then (True, P)
              else if rm then (True, P\<lparr>pf_lease := None\<rparr>) else (False, P))"

definition removeExitedLease :: "bool \<Rightarrow> bool \<Rightarrow> bool \<Rightarrow> profileLease \<Rightarrow> profile \<Rightarrow> profile" where
  "removeExitedLease mkdir rd rm lease P =
     (case acquirePreparationLock mkdir P of
        Inl _ \<Rightarrow> P
      | Inr P1 \<Rightarrow> remove_preparation (snd (remove_lease rd rm lease P1)))"

section \<open>Reading back a lease\<close>

definition plain_word :: "string \<Rightarrow> bool" where
  "plain_word s \<longleftrightarrow> s \<noteq> [] \<and> list_all (\<lambda>c. \<not> is_space c) s"

lemma fields_aux_word:
  "list_all (\<lambda>c. \<not> is_space c) s \<Longrightarrow> fields_aux acc (s @ r) = fields_aux (rev s @ acc) r"
  by (induction s arbitrary: acc) auto

lemma Fields_word:
  assumes "plain_word s" "is_space c"
  shows "fields_aux [] (s @ c # r) = s # fields_aux [] r"
  using assms fields_aux_word [of s "[]" "c # r"] by (auto simp: plain_word_def)

lemma digit_not_space: "is_digit c \<Longrightarrow> \<not> is_space c"
  by (auto simp: is_digit_def is_space_def)

lemma plain_word_FormatInt: "1 \<le> pid \<Longrightarrow> plain_word (FormatInt pid)"
  using dec_string_digits [of pid] dec_string_ne [of pid] by (auto simp: plain_word_def FormatInt_def list_all_iff digit_not_space)

lemma newLeaseToken_plain:
  assumes "newLeaseToken (Some bytes) = Some token" "bytes \<noteq> []" "list_all (\<lambda>b. b < 256) bytes"
  shows "plain_word token"
proof -
  have digit: "\<not> is_space (hex_digit d)" if "d < 16" for d using that by (simp add: is_space_def hex_digit_def)
  have "token = hex_encode bytes" using assms(1) by (simp add: newLeaseToken_def)
  moreover have "hex_encode bytes \<noteq> []" using assms(2) by (cases bytes) (simp_all add: hex_encode_def)
  moreover have "\<not> is_space c" if "c \<in> set (hex_encode bytes)" for c
    using that assms(3) digit by (auto simp: hex_encode_def list_all_iff less_mult_imp_div_less)
  ultimately show ?thesis by (simp add: plain_word_def list_all_iff)
qed

lemma parse_contents:
  assumes "pl_state lease = ''preparing'' \<or> pl_state lease = ''running''" "1 \<le> pid" "pid \<le> max_int64" "plain_word (pl_token lease)"
  shows "parseLease (contents lease pid) = Some (pl_state lease, pid, pl_token lease)"
proof -
  have s: "plain_word (pl_state lease)" using assms(1) by (auto simp: plain_word_def is_space_def)
  have sp: "is_space (CHR '' '')" "is_space (char_of (10 :: nat))" by (simp_all add: is_space_def)
  have "Fields (contents lease pid) = [pl_state lease, FormatInt pid, pl_token lease]"
    using Fields_word [OF s sp(1)] Fields_word [OF plain_word_FormatInt [OF assms(2)] sp(1)] Fields_word [OF assms(4) sp(2)]
    by (simp add: Fields_def contents_def)
  moreover have "Atoi (FormatInt pid) = Some pid" using assms(2,3) by (intro ParseInt_FormatInt) (auto simp: min_int64_def)
  ultimately show ?thesis using assms by (auto simp: parseLease_def plain_word_def)
qed

section \<open>The lease as a file with an owner\<close>

definition lease_valid :: "profileLease \<times> int \<Rightarrow> bool" where
  "lease_valid l \<longleftrightarrow> plain_word (pl_token (fst l)) \<and> 1 \<le> snd l \<and> snd l \<le> max_int64"

definition lease_owner :: "profile \<Rightarrow> string option" where
  "lease_owner P = Option.bind (pf_lease P) (\<lambda>data. map_option (\<lambda>(_, _, token). token) (parseLease data))"

lemma update_lease_owner:
  "lease_valid l \<Longrightarrow> lease_owner (snd (snd (update_lease None (fst l) (snd l) P))) = Some (pl_token (fst l))"
  using parse_contents [of "(fst l)\<lparr>pl_state := ''running''\<rparr>" "snd l"]
  by (simp add: lease_valid_def lease_owner_def update_lease_def Let_def)

lemma remove_lease_owner:
  "snd (remove_lease True True l P) = (if lease_owner P = Some (pl_token l) then P\<lparr>pf_lease := None\<rparr> else P)"
  by (auto simp: remove_lease_def lease_owner_def split: option.splits)

interpretation lease_file: owned_file lease_valid "\<lambda>l. pl_token (fst l)" "\<lambda>l P. snd (snd (update_lease None (fst l) (snd l) P))" lease_owner
  "\<lambda>t P. snd (remove_lease True True \<lparr>pl_state = ''running'', pl_token = t\<rparr> P)"
  by unfold_locales (simp_all add: update_lease_owner remove_lease_owner, simp add: lease_owner_def)

text \<open>The clean-up after an exited Firefox leaves the lease of a launcher that came after it.\<close>

lemma removeExitedLease_keeps_newer:
  fixes P :: profile
  assumes "lease_valid (new, pid)" "pl_token new \<noteq> t"
  defines "P' \<equiv> snd (snd (update_lease None new pid P))"
  shows "lease_owner (removeExitedLease mkdir True True \<lparr>pl_state = ''running'', pl_token = t\<rparr> P') = Some (pl_token new)"
proof -
  have own: "lease_owner P' = Some (pl_token new)" using update_lease_owner [OF assms(1)] by (simp add: P'_def)
  have "lease_owner (P'\<lparr>pf_prep := True\<rparr>) \<noteq> Some t" using own assms(2) by (simp add: lease_owner_def)
  from lease_file.release_other [OF this] own show ?thesis
    by (simp add: removeExitedLease_def acquirePreparationLock_def remove_preparation_def lease_owner_def)
qed

section \<open>Launchers and browsers on one profile\<close>

text \<open>
  Where a launcher stands: idle; holding the preparation lock before and after the check of the native
  locks; with its lease; with a started Firefox; undoing a failed launch, with and then without its lease; with a
  running Firefox; with an exited one; cleaning up after it, before and after removing the lease; done.
\<close>

datatype phase = Idle | Preparing | Checked | Leased | Started | Undoing | Unleased | Running | Exited | Cleaning | Cleaned | Done

text \<open>Who holds the native lock of the profile: nobody, a Firefox of launcher \<open>i\<close>, or one started by hand.\<close>

datatype holder = Free | Own nat | ByHand

record launchers =
  la_profile :: profile
  la_native :: holder
  la_phase :: "nat \<Rightarrow> phase"

definition lease_of :: "(nat \<Rightarrow> string) \<Rightarrow> nat \<Rightarrow> string \<Rightarrow> profileLease" where
  "lease_of tok i st = \<lparr>pl_state = st, pl_token = tok i\<rparr>"

definition set_phase :: "nat \<Rightarrow> phase \<Rightarrow> launchers \<Rightarrow> launchers" where
  "set_phase i p S = S\<lparr>la_phase := (la_phase S)(i := p)\<rparr>"

definition set_profile :: "profile \<Rightarrow> launchers \<Rightarrow> launchers" where
  "set_profile P S = S\<lparr>la_profile := P\<rparr>"

definition leave_native :: "nat \<Rightarrow> launchers \<Rightarrow> launchers" where
  "leave_native i S = (if la_native S = Own i then S\<lparr>la_native := Free\<rparr> else S)"

text \<open>
  \<open>tok\<close> and \<open>pid\<close> give each launcher's token and process number, and \<open>fpid\<close> that of its Firefox. Every step is
  one lock operation or one change of a file; failing operations are steps as well.
\<close>

inductive launch_step :: "(nat \<Rightarrow> string) \<Rightarrow> (nat \<Rightarrow> int) \<Rightarrow> (nat \<Rightarrow> int) \<Rightarrow> launchers \<Rightarrow> launchers \<Rightarrow> bool"
  for tok pid fpid where
  prepare: "launch_step tok pid fpid S (set_phase i Preparing (set_profile P S))"
    if "la_phase S i = Idle" "acquirePreparationLock True (la_profile S) = Ok P"
| prepare_fails: "launch_step tok pid fpid S (set_phase i Done S)"
    if "la_phase S i = Idle" "acquirePreparationLock mkdir (la_profile S) = Err e"
| check_free: "launch_step tok pid fpid S (set_phase i Checked S)"
    if "la_phase S i = Preparing" "la_native S = Free"
| check_fails: "launch_step tok pid fpid S (set_phase i Unleased S)"
    if "la_phase S i = Preparing"
| lease: "launch_step tok pid fpid S (set_phase i Leased (set_profile P S))"
    if "la_phase S i = Checked" "acquireProfileLease io1 io2 (Some (tok i)) (pid i) (la_profile S) = (Ok l, P)"
| lease_fails: "launch_step tok pid fpid S (set_phase i Unleased (set_profile P S))"
    if "la_phase S i = Checked" "acquireProfileLease io1 io2 token (pid i) (la_profile S) = (Err e, P)"
| start: "launch_step tok pid fpid S (set_phase i Started S)"
    if "la_phase S i = Leased"
| take_native: "launch_step tok pid fpid S (S\<lparr>la_native := Own i\<rparr>)"
    if "la_phase S i = Started" "la_native S = Free"
| by_hand: "launch_step tok pid fpid S (S\<lparr>la_native := ByHand\<rparr>)"
    if "la_native S = Free"
| hand_exits: "launch_step tok pid fpid S (S\<lparr>la_native := Free\<rparr>)"
    if "la_native S = ByHand"
| launch_fails: "launch_step tok pid fpid S (set_phase i Undoing (leave_native i S))"
    if "la_phase S i = Leased \<or> la_phase S i = Started"
| update_fails: "launch_step tok pid fpid S (set_phase i Undoing (leave_native i (set_profile P S)))"
    if "la_phase S i = Started" "update_lease (Some part) (lease_of tok i ''preparing'') (fpid i) (la_profile S) = (ok, l, P)"
| undo: "launch_step tok pid fpid S (set_phase i Unleased (set_profile P S))"
    if "la_phase S i = Undoing" "remove_lease rd rm (lease_of tok i st) (la_profile S) = (ok, P)"
| unlock: "launch_step tok pid fpid S (set_phase i Done (set_profile (remove_preparation (la_profile S)) S))"
    if "la_phase S i = Unleased \<or> la_phase S i = Cleaned"
| runs: "launch_step tok pid fpid S (set_phase i Running (set_profile (remove_preparation P) S))"
    if "la_phase S i = Started" "la_native S \<noteq> Free"
      "update_lease None (lease_of tok i ''preparing'') (fpid i) (la_profile S) = (ok, l, P)"
| exits: "launch_step tok pid fpid S (set_phase i Exited (leave_native i S))"
    if "la_phase S i = Running"
| clean: "launch_step tok pid fpid S (set_phase i Cleaning (set_profile P S))"
    if "la_phase S i = Exited" "acquirePreparationLock True (la_profile S) = Ok P"
| clean_skips: "launch_step tok pid fpid S (set_phase i Done S)"
    if "la_phase S i = Exited" "acquirePreparationLock mkdir (la_profile S) = Err e"
| clean_lease: "launch_step tok pid fpid S (set_phase i Cleaned (set_profile P S))"
    if "la_phase S i = Cleaning" "remove_lease rd rm (lease_of tok i ''running'') (la_profile S) = (ok, P)"

inductive_cases launch_stepE: "launch_step tok pid fpid S T"

definition no_launchers :: "profile \<Rightarrow> launchers" where
  "no_launchers P = \<lparr>la_profile = P, la_native = Free, la_phase = (\<lambda>_. Idle)\<rparr>"

abbreviation launch_run :: "(nat \<Rightarrow> string) \<Rightarrow> (nat \<Rightarrow> int) \<Rightarrow> (nat \<Rightarrow> int) \<Rightarrow> launchers \<Rightarrow> launchers \<Rightarrow> bool" where
  "launch_run tok pid fpid \<equiv> (launch_step tok pid fpid)\<^sup>*\<^sup>*"

section \<open>The invariant\<close>

text \<open>The phases in which a launcher holds the preparation lock, and those in which it may change the profile.\<close>

definition preparing :: "phase \<Rightarrow> bool" where
  "preparing p \<longleftrightarrow> p \<in> {Preparing, Checked, Leased, Started, Undoing, Unleased, Cleaning, Cleaned}"

definition changing :: "phase \<Rightarrow> bool" where
  "changing p \<longleftrightarrow> p \<in> {Checked, Leased, Started}"

text \<open>The lease a launcher counts on.\<close>

definition lease_held :: "(nat \<Rightarrow> string) \<Rightarrow> (nat \<Rightarrow> int) \<Rightarrow> (nat \<Rightarrow> int) \<Rightarrow> launchers \<Rightarrow> nat \<Rightarrow> bool" where
  "lease_held tok pid fpid S i \<longleftrightarrow>
     (case la_phase S i of
        Leased \<Rightarrow> pf_lease (la_profile S) = Some (contents (lease_of tok i ''preparing'') (pid i))
      | Started \<Rightarrow> pf_lease (la_profile S) = Some (contents (lease_of tok i ''preparing'') (pid i))
      | Running \<Rightarrow> la_native S = Own i \<longrightarrow> pf_lease (la_profile S) = Some (contents (lease_of tok i ''running'') (fpid i))
      | _ \<Rightarrow> True)"

definition launch_ok :: "(nat \<Rightarrow> string) \<Rightarrow> (nat \<Rightarrow> int) \<Rightarrow> (nat \<Rightarrow> int) \<Rightarrow> launchers \<Rightarrow> bool" where
  "launch_ok tok pid fpid S \<longleftrightarrow>
     (\<forall>i j. preparing (la_phase S i) \<longrightarrow> preparing (la_phase S j) \<longrightarrow> i = j) \<and>
     (\<forall>i. preparing (la_phase S i) \<longrightarrow> pf_prep (la_profile S)) \<and>
     (\<forall>i. la_native S = Own i \<longrightarrow> la_phase S i = Started \<or> la_phase S i = Running) \<and>
     (\<forall>i j. la_native S = Own i \<longrightarrow> la_phase S i = Running \<longrightarrow> \<not> changing (la_phase S j)) \<and>
     (\<forall>i. lease_held tok pid fpid S i)"

lemma lease_attempts_ok:
  "lease_attempts ios l p P = (Ok l', P') \<Longrightarrow> l' = l \<and> P' = P\<lparr>pf_lease := Some (contents l p)\<rparr>"
  by (induction ios l p P rule: lease_attempts.induct) (auto simp: Let_def split: if_splits)

lemma lease_attempts_prep: "pf_prep (snd (lease_attempts ios l p P)) = pf_prep P"
  by (induction ios l p P rule: lease_attempts.induct) (auto simp: Let_def)

lemma acquireProfileLease_ok:
  "acquireProfileLease io1 io2 (Some t) p P = (Ok l, P') \<Longrightarrow>
     P' = P\<lparr>pf_lease := Some (contents \<lparr>pl_state = ''preparing'', pl_token = t\<rparr> p)\<rparr>"
  using lease_attempts_ok [of "[io1, io2]" "\<lparr>pl_state = ''preparing'', pl_token = t\<rparr>" p P l P']
  by (simp add: acquireProfileLease_def del: lease_attempts.simps)

lemma acquireProfileLease_prep: "acquireProfileLease io1 io2 t p P = (r, P') \<Longrightarrow> pf_prep P' = pf_prep P"
  using lease_attempts_prep [of "[io1, io2]" "\<lparr>pl_state = ''preparing'', pl_token = the t\<rparr>" p P]
  by (cases t) (auto simp: acquireProfileLease_def simp del: lease_attempts.simps)

lemma remove_lease_cases:
  assumes "remove_lease rd rm l P = (ok, P')"
  shows "P' = P \<or> (\<exists>data s p. pf_lease P = Some data \<and> parseLease data = Some (s, p, pl_token l) \<and> P' = P\<lparr>pf_lease := None\<rparr>)"
  using assms by (auto simp: remove_lease_def split: option.splits if_splits)

lemma acquirePreparationLock_ok:
  "acquirePreparationLock mkdir P = Ok P' \<longleftrightarrow> \<not> pf_prep P \<and> mkdir \<and> P' = P\<lparr>pf_prep := True\<rparr>"
  by (auto simp: acquirePreparationLock_def)

lemma launchers_simps [simp]:
  "la_profile (set_phase i p S) = la_profile S" "la_native (set_phase i p S) = la_native S"
  "la_phase (set_phase i p S) = (la_phase S)(i := p)"
  "la_profile (set_profile P S) = P" "la_native (set_profile P S) = la_native S" "la_phase (set_profile P S) = la_phase S"
  "la_profile (leave_native i S) = la_profile S" "la_phase (leave_native i S) = la_phase S"
  "la_native (leave_native i S) = (if la_native S = Own i then Free else la_native S)"
  by (simp_all add: set_phase_def set_profile_def leave_native_def)

text \<open>
  A launcher that holds the preparation lock moves on: the others keep what they count on, unless it changes the lease
  while a Firefox of another one runs.
\<close>

lemma step_by_holder:
  assumes ok: "launch_ok tok pid fpid S" and i: "preparing (la_phase S i)"
    and T: "la_phase T = (la_phase S)(i := p)" "la_native T = la_native S \<or> la_native T = Free"
    and prep: "if preparing p then pf_prep (la_profile T) else True"
    and free: "changing p \<longrightarrow> changing (la_phase S i) \<or> la_native S = Free"
    and native: "la_native T = Own i \<longrightarrow> p = Started \<or> p = Running"
    and mine: "lease_held tok pid fpid T i"
    and others: "\<And>j. j \<noteq> i \<Longrightarrow> la_native S = Own j \<Longrightarrow> la_phase S j = Running \<Longrightarrow> \<not> changing (la_phase S i) \<Longrightarrow>
        pf_lease (la_profile S) = Some (contents (lease_of tok j ''running'') (fpid j)) \<Longrightarrow>
        pf_lease (la_profile T) = pf_lease (la_profile S)"
    and running: "p = Running \<longrightarrow> la_phase S i = Started"
  shows "launch_ok tok pid fpid T"
proof -
  have one: "\<And>a b. preparing (la_phase S a) \<Longrightarrow> preparing (la_phase S b) \<Longrightarrow> a = b"
    and own: "\<And>a. la_native S = Own a \<Longrightarrow> la_phase S a = Started \<or> la_phase S a = Running"
    and quiet: "\<And>a b. la_native S = Own a \<Longrightarrow> la_phase S a = Running \<Longrightarrow> \<not> changing (la_phase S b)"
    and held: "\<And>a. lease_held tok pid fpid S a"
    using ok unfolding launch_ok_def by blast+
  have alone: "\<And>j. j \<noteq> i \<Longrightarrow> \<not> preparing (la_phase S j)" using one i by blast
  have "lease_held tok pid fpid T j" for j
  proof (cases "j = i")
    case False
    show ?thesis
    proof (cases "la_phase S j = Running \<and> la_native T = Own j")
      case True
      then have native: "la_native S = Own j" using T(2) by auto
      then have "\<not> changing (la_phase S i)" using quiet True by blast
      then show ?thesis using True native held [of j] others [OF False] False T(1) by (simp add: lease_held_def)
    next
      case no: False
      then show ?thesis using alone [OF False] False T(1) by (auto simp: lease_held_def preparing_def split: phase.split)
    qed
  qed (use mine in simp)
  moreover have "\<not> changing (la_phase T j)" if a: "la_native T = Own a" "la_phase T a = Running" for a j
  proof (cases "a = i")
    case True
    then have "p = Running" using a(2) T(1) by simp
    moreover have "\<not> changing (la_phase S j)" if "j \<noteq> i" using alone [OF that] by (auto simp: changing_def preparing_def)
    ultimately show ?thesis using T(1) by (auto simp: changing_def)
  next
    case False
    then have "la_native S = Own a" "la_phase S a = Running" using a T by auto
    then show ?thesis using quiet [of a j] quiet [of a i] free T(1) by auto
  qed
  moreover have "la_phase T a = Started \<or> la_phase T a = Running" if "la_native T = Own a" for a
    using that native own [of a] T by auto
  moreover have "a = b" if "preparing (la_phase T a)" "preparing (la_phase T b)" for a b
    using that alone T(1) by (auto split: if_splits)
  moreover have "pf_prep (la_profile T)" if "preparing (la_phase T a)" for a
    using that alone [of a] T(1) prep by (auto split: if_splits)
  ultimately show ?thesis unfolding launch_ok_def by blast
qed

lemma step_by_other:
  assumes ok: "launch_ok tok pid fpid S" and i: "\<not> preparing (la_phase S i)"
    and T: "la_phase T = (la_phase S)(i := p)" "la_native T = (if la_native S = Own i then Free else la_native S)"
      "pf_lease (la_profile T) = pf_lease (la_profile S)"
    and prep: "pf_prep (la_profile S) \<longrightarrow> pf_prep (la_profile T)" "\<not> changing p" "p \<noteq> Running" "p \<noteq> Started"
      "preparing p \<longrightarrow> \<not> pf_prep (la_profile S) \<and> pf_prep (la_profile T)"
  shows "launch_ok tok pid fpid T"
proof -
  have one: "\<And>a b. preparing (la_phase S a) \<Longrightarrow> preparing (la_phase S b) \<Longrightarrow> a = b"
    and locked: "\<And>a. preparing (la_phase S a) \<Longrightarrow> pf_prep (la_profile S)"
    and own: "\<And>a. la_native S = Own a \<Longrightarrow> la_phase S a = Started \<or> la_phase S a = Running"
    and quiet: "\<And>a b. la_native S = Own a \<Longrightarrow> la_phase S a = Running \<Longrightarrow> \<not> changing (la_phase S b)"
    and held: "\<And>a. lease_held tok pid fpid S a"
    using ok unfolding launch_ok_def by blast+
  have "lease_held tok pid fpid T j" for j
    using held [of j] T prep by (cases "j = i") (auto simp: lease_held_def changing_def split: phase.splits)
  moreover have "\<not> changing (la_phase T b)" if "la_native T = Own a" "la_phase T a = Running" for a b
    using that quiet [of a b] T prep(2,3) by (auto split: if_splits)
  moreover have "la_phase T a = Started \<or> la_phase T a = Running" if "la_native T = Own a" for a
    using that own [of a] T by (auto split: if_splits)
  moreover have "a = b" if "preparing (la_phase T a)" "preparing (la_phase T b)" for a b
    using that one [of a b] locked [of a] locked [of b] T(1) prep(5) by (auto split: if_splits)
  moreover have "pf_prep (la_profile T)" if "preparing (la_phase T a)" for a
    using that locked [of a] T(1) prep(1,5) by (auto split: if_splits)
  ultimately show ?thesis unfolding launch_ok_def by blast
qed

lemma step_native:
  assumes ok: "launch_ok tok pid fpid S" and T: "T = S\<lparr>la_native := h\<rparr>" "h = Free \<or> h = ByHand \<or> (\<exists>i. h = Own i \<and> la_phase S i = Started)"
  shows "launch_ok tok pid fpid T"
  using ok T(2) unfolding launch_ok_def T(1) lease_held_def by (auto split: phase.splits)

definition processes_ok :: "(nat \<Rightarrow> string) \<Rightarrow> (nat \<Rightarrow> int) \<Rightarrow> (nat \<Rightarrow> int) \<Rightarrow> bool" where
  "processes_ok tok pid fpid \<longleftrightarrow> inj tok \<and> (\<forall>i. plain_word (tok i) \<and> 1 \<le> pid i \<and> pid i \<le> max_int64 \<and> 1 \<le> fpid i \<and> fpid i \<le> max_int64)"

lemma remove_other_lease:
  assumes "processes_ok tok pid fpid" "j \<noteq> i" "remove_lease rd rm (lease_of tok i st) P = (ok, P')"
    "pf_lease P = Some (contents (lease_of tok j ''running'') (fpid j))"
  shows "P' = P"
proof -
  have "parseLease (contents (lease_of tok j ''running'') (fpid j)) = Some (''running'', fpid j, tok j)"
    using parse_contents [of "lease_of tok j ''running''" "fpid j"] assms(1) by (simp add: processes_ok_def lease_of_def)
  moreover have "tok j \<noteq> tok i" using assms(1,2) by (auto simp: processes_ok_def inj_def)
  ultimately show ?thesis using remove_lease_cases [OF assms(3)] assms(4) by (auto simp: lease_of_def)
qed

lemma remove_lease_prep: "remove_lease rd rm l P = (ok, P') \<Longrightarrow> pf_prep P' = pf_prep P"
  using remove_lease_cases by fastforce

lemma launch_step_ok:
  assumes "launch_step tok pid fpid S T" "launch_ok tok pid fpid S" "processes_ok tok pid fpid"
  shows "launch_ok tok pid fpid T"
proof -
  have locked: "\<And>a. preparing (la_phase S a) \<Longrightarrow> pf_prep (la_profile S)" using assms(2) unfolding launch_ok_def by blast
  have native: "\<And>a. la_native S = Own a \<Longrightarrow> la_phase S a = Started \<or> la_phase S a = Running"
    using assms(2) unfolding launch_ok_def by blast
  have held: "\<And>a. lease_held tok pid fpid S a" using assms(2) unfolding launch_ok_def by blast
  note own = step_by_holder [OF assms(2)] and other = step_by_other [OF assms(2)]
  note simps = preparing_def changing_def lease_held_def remove_preparation_def acquirePreparationLock_ok
  show ?thesis
    using assms(1)
  proof cases
    case (prepare i P)
    then show ?thesis using native [of i] by (intro other [of i _ Preparing]) (auto simp: simps)
  next
    case (prepare_fails i mkdir e)
    then show ?thesis using native [of i] by (intro other [of i _ Done]) (auto simp: simps)
  next
    case (check_free i)
    then show ?thesis using native [of i] locked [of i] by (intro own [of i _ Checked]) (auto simp: simps)
  next
    case (check_fails i)
    then show ?thesis using native [of i] locked [of i] by (intro own [of i _ Unleased]) (auto simp: simps)
  next
    case (lease i io1 io2 l P)
    then show ?thesis using native [of i] locked [of i] acquireProfileLease_ok [OF lease(3)]
      by (intro own [of i _ Leased]) (auto simp: simps lease_of_def)
  next
    case (lease_fails i io1 io2 t e P)
    then show ?thesis using native [of i] locked [of i] acquireProfileLease_prep [OF lease_fails(3)]
      by (intro own [of i _ Unleased]) (auto simp: simps)
  next
    case (start i)
    then show ?thesis using native [of i] locked [of i] held [of i] by (intro own [of i _ Started]) (auto simp: simps)
  next
    case (take_native i)
    then show ?thesis by (intro step_native [OF assms(2)]) auto
  next
    case by_hand
    then show ?thesis by (intro step_native [OF assms(2)]) auto
  next
    case hand_exits
    then show ?thesis by (intro step_native [OF assms(2)]) auto
  next
    case (launch_fails i)
    then show ?thesis using native [of i] locked [of i] by (intro own [of i _ Undoing]) (auto simp: simps)
  next
    case (update_fails i part ok l P)
    then show ?thesis using native [of i] locked [of i] by (intro own [of i _ Undoing]) (auto simp: simps update_lease_def Let_def)
  next
    case (undo i rd rm st ok P)
    then show ?thesis using native [of i] locked [of i] remove_other_lease [OF assms(3) _ undo(3)] remove_lease_prep [OF undo(3)]
      by (intro own [of i _ Unleased]) (auto simp: simps)
  next
    case (unlock i)
    then show ?thesis using native [of i] by (intro own [of i _ Done]) (auto simp: simps)
  next
    case (runs i ok l P)
    then show ?thesis using native [of i] by (intro own [of i _ Running]) (auto simp: simps update_lease_def Let_def lease_of_def)
  next
    case (exits i)
    then show ?thesis using native [of i] by (intro other [of i _ Exited]) (auto simp: simps)
  next
    case (clean i P)
    then show ?thesis using native [of i] by (intro other [of i _ Cleaning]) (auto simp: simps)
  next
    case (clean_skips i mkdir e)
    then show ?thesis using native [of i] by (intro other [of i _ Done]) (auto simp: simps)
  next
    case (clean_lease i rd rm ok P)
    then show ?thesis using native [of i] locked [of i] remove_other_lease [OF assms(3) _ clean_lease(3)] remove_lease_prep [OF clean_lease(3)]
      by (intro own [of i _ Cleaned]) (auto simp: simps)
  qed
qed

lemma launch_run_ok:
  assumes "launch_run tok pid fpid S T" "launch_ok tok pid fpid S" "processes_ok tok pid fpid"
  shows "launch_ok tok pid fpid T"
  using assms by (induction rule: rtranclp_induct) (auto intro: launch_step_ok)

lemma no_launchers_ok: "launch_ok tok pid fpid (no_launchers P)"
  by (simp add: launch_ok_def no_launchers_def preparing_def changing_def lease_held_def)

lemma Cut_char: "c \<notin> set h \<Longrightarrow> Cut (h @ [c] @ n) [c] = (h, n, True)"
  by (induction h) (auto simp: HasPrefix_def)

lemma Cut_no_char: "c \<notin> set s \<Longrightarrow> Cut s [c] = (s, [], False)"
  by (induction s) (auto simp: HasPrefix_def)

section \<open>Properties\<close>

text \<open>A step changes the lease file only under the preparation lock, and takes over another launcher's lease only after the check.\<close>

lemma lease_changed_by:
  assumes "launch_step tok pid fpid S T" "launch_ok tok pid fpid S" "processes_ok tok pid fpid"
    "pf_lease (la_profile T) \<noteq> pf_lease (la_profile S)"
  shows "\<exists>k. preparing (la_phase S k) \<and> (la_phase S k = Checked \<or> lease_owner (la_profile S) = Some (tok k))"
proof -
  have started: "lease_owner (la_profile S) = Some (tok k)" if "la_phase S k = Started" for k
  proof -
    have "lease_held tok pid fpid S k" using assms(2) by (simp add: launch_ok_def)
    then have "pf_lease (la_profile S) = Some (contents (lease_of tok k ''preparing'') (pid k))"
      using that by (simp add: lease_held_def)
    then show ?thesis using parse_contents [of "lease_of tok k ''preparing''" "pid k"] assms(3)
      by (simp add: lease_owner_def processes_ok_def lease_of_def)
  qed
  have removed: "lease_owner (la_profile S) = Some (tok k)"
    if "remove_lease rd rm (lease_of tok k st) (la_profile S) = (ok, Q)" "pf_lease Q \<noteq> pf_lease (la_profile S)" for rd rm k st ok Q
    using remove_lease_cases [OF that(1)] that(2) by (auto simp: lease_owner_def lease_of_def)
  show ?thesis
    using assms(1)
  proof (cases rule: launch_step.cases)
    case (lease i io1 io2 l Q)
    then show ?thesis by (intro exI [of _ i]) (simp add: preparing_def)
  next
    case (lease_fails i io1 io2 token e Q)
    then show ?thesis by (intro exI [of _ i]) (simp add: preparing_def)
  next
    case (update_fails i part ok l Q)
    then show ?thesis using started by (intro exI [of _ i]) (simp add: preparing_def)
  next
    case (undo i rd rm st ok Q)
    then show ?thesis using removed [OF undo(3)] assms(4) by (intro exI [of _ i]) (simp add: preparing_def)
  next
    case (runs i ok l Q)
    then show ?thesis using started by (intro exI [of _ i]) (simp add: preparing_def)
  next
    case (clean_lease i rd rm ok Q)
    then show ?thesis using removed [OF clean_lease(3)] assms(4) by (intro exI [of _ i]) (simp add: preparing_def)
  qed (use assms(4) in \<open>auto simp: acquirePreparationLock_ok remove_preparation_def\<close>)
qed

text \<open>
  C36: On one profile only one launcher at a time prepares. However any number of launchers, their Firefox processes and
  Firefox processes started by hand interleave and whatever fails, at most one launcher is between taking and giving back the
  preparation lock. While the Firefox that a launcher started and saw running holds the native lock, no launcher is where it writes the
  lease, the preferences or the certificates, and the lease file names that launcher and its Firefox. Nobody changes the lease file
  without the preparation lock: who changes it owns the lease, or has found the native lock free and takes the profile over. Of a
  Firefox started by hand after that check nothing is said.
\<close>

theorem profile_protected:
  assumes "launch_run tok pid fpid (no_launchers P) S" "processes_ok tok pid fpid"
  shows "(preparing (la_phase S i) \<and> preparing (la_phase S j) \<longrightarrow> i = j) \<and>
    (la_native S = Own i \<and> la_phase S i = Running \<longrightarrow> \<not> changing (la_phase S j) \<and>
       map_option parseLease (pf_lease (la_profile S)) = Some (Some (''running'', fpid i, tok i))) \<and>
    (launch_step tok pid fpid S T \<and> pf_lease (la_profile T) \<noteq> pf_lease (la_profile S) \<longrightarrow>
       (\<exists>k. preparing (la_phase S k) \<and> (la_phase S k = Checked \<or> lease_owner (la_profile S) = Some (tok k))))"
proof -
  have ok: "launch_ok tok pid fpid S" using launch_run_ok [OF assms(1) no_launchers_ok assms(2)] .
  have "parseLease (contents (lease_of tok i ''running'') (fpid i)) = Some (''running'', fpid i, tok i)"
    using parse_contents [of "lease_of tok i ''running''" "fpid i"] assms(2) by (simp add: processes_ok_def lease_of_def)
  then have "map_option parseLease (pf_lease (la_profile S)) = Some (Some (''running'', fpid i, tok i))"
    if "la_native S = Own i" "la_phase S i = Running"
    using ok that by (auto simp: launch_ok_def lease_held_def split: phase.splits)
  moreover have "preparing (la_phase S i) \<and> preparing (la_phase S j) \<longrightarrow> i = j"
    "la_native S = Own i \<and> la_phase S i = Running \<longrightarrow> \<not> changing (la_phase S j)"
    using ok unfolding launch_ok_def by blast+
  ultimately show ?thesis using lease_changed_by [OF _ ok assms(2)] by blast
qed

text \<open>Two launchers; the first one's Firefox runs.\<close>

definition example_token :: "nat \<Rightarrow> string" where "example_token i = replicate (Suc i) (CHR ''a'')"

lemma example_processes: "processes_ok example_token (\<lambda>_. 7) (\<lambda>_. 8)"
  by (auto simp: processes_ok_def example_token_def inj_def plain_word_def is_space_def max_int64_def list_all_iff)

definition example_profile :: profile where
  "example_profile = \<lparr>pf_prep = False, pf_lease = None\<rparr>"

lemma profile_protected_witness:
  "\<exists>S. launch_run example_token (\<lambda>_. 7) (\<lambda>_. 8) (no_launchers example_profile) S \<and> la_phase S 0 = Running \<and> la_native S = Own 0 \<and>
     map_option parseLease (pf_lease (la_profile S)) = Some (Some (''running'', 8, example_token 0)) \<and> \<not> changing (la_phase S 1)"
proof -
  let ?step = "launch_step example_token (\<lambda>_. 7) (\<lambda>_. 8)"
  let ?text = "contents \<lparr>pl_state = ''preparing'', pl_token = example_token 0\<rparr> 7"
  let ?run = "contents \<lparr>pl_state = ''running'', pl_token = example_token 0\<rparr> 8"
  define S where "S = (\<lambda>prep lease native ph. \<lparr>la_profile = \<lparr>pf_prep = prep, pf_lease = lease\<rparr>, la_native = native,
    la_phase = (\<lambda>_. Idle)(0 := ph)\<rparr>)"
  let ?io = "\<lparr>ls_open = True, ls_write = True, ls_close = True, ls_undo = True, ls_part = [], ls_stale = True\<rparr>"
  note chain = converse_rtranclp_into_rtranclp [where r = ?step]
  have start: "no_launchers example_profile = S False None Free Idle"
    by (simp add: S_def no_launchers_def example_profile_def fun_eq_iff)
  have s1: "?step (S False None Free Idle) (S True None Free Preparing)"
    using launch_step.prepare [of "S False None Free Idle" 0 "\<lparr>pf_prep = True, pf_lease = None\<rparr>"]
    by (simp add: S_def acquirePreparationLock_def set_phase_def set_profile_def)
  have s2: "?step (S True None Free Preparing) (S True None Free Checked)"
    using launch_step.check_free [of "S True None Free Preparing" 0] by (simp add: S_def set_phase_def)
  have s3: "?step (S True None Free Checked) (S True (Some ?text) Free Leased)"
    using launch_step.lease [of "S True None Free Checked" 0 ?io ?io example_token "\<lambda>_. 7" "\<lparr>pl_state = ''preparing'', pl_token = example_token 0\<rparr>"
        "\<lparr>pf_prep = True, pf_lease = Some ?text\<rparr>"]
    by (simp add: S_def set_phase_def set_profile_def acquireProfileLease_def)
  have s4: "?step (S True (Some ?text) Free Leased) (S True (Some ?text) Free Started)"
    using launch_step.start [of "S True (Some ?text) Free Leased" 0] by (simp add: S_def set_phase_def)
  have s5: "?step (S True (Some ?text) Free Started) (S True (Some ?text) (Own 0) Started)"
    using launch_step.take_native [of "S True (Some ?text) Free Started" 0] by (simp add: S_def)
  have s6: "?step (S True (Some ?text) (Own 0) Started) (S False (Some ?run) (Own 0) Running)"
    using launch_step.runs [of "S True (Some ?text) (Own 0) Started" 0 example_token "\<lambda>_. 8" True "\<lparr>pl_state = ''running'', pl_token = example_token 0\<rparr>"
        "\<lparr>pf_prep = True, pf_lease = Some ?run\<rparr>"]
    by (simp add: S_def set_phase_def set_profile_def update_lease_def lease_of_def remove_preparation_def Let_def)
  have run: "launch_run example_token (\<lambda>_. 7) (\<lambda>_. 8) (no_launchers example_profile) (S False (Some ?run) (Own 0) Running)"
    unfolding start by (rule chain [OF s1 chain [OF s2 chain [OF s3 chain [OF s4 chain [OF s5 chain [OF s6 rtranclp.rtrancl_refl]]]]]])
  show ?thesis
    using profile_protected [OF run example_processes, of 0 1] run
    by (intro exI [of _ "S False (Some ?run) (Own 0) Running"]) (simp add: S_def)
qed

text \<open>
  A profile counts as free only if it is. The check answers free exactly if the lock of \<open>.parentlock\<close> is not held and the
  \<open>lock\<close> link is absent or names a process that does not run; whatever it cannot decide counts as in use or is an error.
\<close>

theorem profile_free_exact:
  "firefoxProfileLocked kill parent link = Ok False \<longleftrightarrow>
     (parent = FileMissing \<or> parent = LockFree) \<and>
     (link = LinkMissing \<or>
      (\<exists>host n pid. link = LinkTo (host @ '':'' @ n) \<and> CHR '':'' \<notin> set host \<and> Atoi (TrimPrefix n ''+'') = Some pid \<and> 1 \<le> pid \<and>
         kill pid = SignalNoProcess))"
proof (cases link)
  case (LinkTo target)
  show ?thesis
  proof (cases "CHR '':'' \<in> set target")
    case True
    then obtain h n where t: "target = h @ '':'' @ n" "CHR '':'' \<notin> set h" using split_list_first [OF True] by auto
    have "h' = h \<and> n' = n" if "h @ '':'' @ n = h' @ '':'' @ n'" "CHR '':'' \<notin> set h'" for h' n'
    proof -
      have "(h, n, True) = (h', n', True)"
        unfolding Cut_char [OF t(2), of n, symmetric] Cut_char [OF that(2), of n', symmetric] that(1) ..
      then show ?thesis by simp
    qed
    then have eq: "(link = LinkTo (h' @ '':'' @ n') \<and> CHR '':'' \<notin> set h') \<longleftrightarrow> h' = h \<and> n' = n" for h' n'
      unfolding LinkTo t(1) link_io.inject using t(2) by blast
    have "(\<exists>host n pid. link = LinkTo (host @ '':'' @ n) \<and> CHR '':'' \<notin> set host \<and> Atoi (TrimPrefix n ''+'') = Some pid \<and> 1 \<le> pid \<and>
        kill pid = SignalNoProcess) \<longleftrightarrow> (\<exists>pid. Atoi (TrimPrefix n ''+'') = Some pid \<and> 1 \<le> pid \<and> kill pid = SignalNoProcess)"
      unfolding conj_assoc [symmetric] eq by simp
    moreover have "symlinkLockHeld kill link = Ok False \<longleftrightarrow> (\<exists>pid. Atoi (TrimPrefix n ''+'') = Some pid \<and> 1 \<le> pid \<and> kill pid = SignalNoProcess)"
      using LinkTo t Cut_char [OF t(2), of n]
      by (cases "Atoi (TrimPrefix n ''+'')"; cases "kill (the (Atoi (TrimPrefix n ''+'')))") (auto simp: symlinkLockHeld_def)
    moreover have "link \<noteq> LinkMissing" using LinkTo by simp
    ultimately show ?thesis
      by (cases parent) (auto simp: firefoxProfileLocked_def fcntlLockHeld_def)
  next
    case False
    then have "symlinkLockHeld kill link \<noteq> Ok False"
      using LinkTo by (auto simp: symlinkLockHeld_def Cut_no_char split: option.split)
    then show ?thesis using LinkTo False
      by (cases parent) (auto simp: firefoxProfileLocked_def fcntlLockHeld_def)
  qed
qed (cases parent; auto simp: firefoxProfileLocked_def fcntlLockHeld_def symlinkLockHeld_def)+

end
