(* ===== verification/Firefox.thy ===== *)
theory Firefox
  imports FirefoxLease GoNet GoHttp
begin

text \<open>
  Preparing, starting and closing the managed Firefox (\<open>internal/firefox/firefox.go\<close>), on top of the locks of
  \<open>FirefoxLease\<close>. Outcomes of system calls, of the commands run and of the started process are arguments;
  the world keeps what a launch changes: lock files, preferences, commands run, and whether Firefox runs. \<open>url.ParseRequestURI\<close> and \<open>strconv.Quote\<close> are arguments.
\<close>

definition certificateNickname :: string where "certificateNickname = ''lemmingd local CA''"

record ff_config =
  fc_Profile :: string
  fc_CACertificate :: string
  fc_ProxyAddress :: string
  fc_URL :: string
  fc_Binary :: string
  fc_NSSCertutil :: string

section \<open>Checking and finding\<close>

text \<open>\<open>stat\<close> says of a path whether it is a directory, if it can be inspected.\<close>

definition validate :: "(string \<Rightarrow> bool option) \<Rightarrow> (string \<Rightarrow> url option) \<Rightarrow> ff_config \<Rightarrow> string option" where
  "validate stat parse c =
     (if fc_Profile c = [] \<or> fc_CACertificate c = [] \<or> fc_ProxyAddress c = [] \<or> fc_URL c = []
        then Some ''Firefox profile, CA certificate, proxy address, and URL are required''
      else case stat (fc_CACertificate c) of
        None \<Rightarrow> Some ''read CA certificate''
      | Some True \<Rightarrow> Some ''CA certificate is a directory''
      | Some False \<Rightarrow>
          (case SplitHostPort (fc_ProxyAddress c) of
             Err _ \<Rightarrow> Some ''invalid proxy address''
           | Ok _ \<Rightarrow>
               (case parse (fc_URL c) of
                  None \<Rightarrow> Some ''Firefox URL must be an absolute HTTP or HTTPS URL''
                | Some u \<Rightarrow>
                    if (url_scheme u \<noteq> ''http'' \<and> url_scheme u \<noteq> ''https'') \<or> url_host u = []
                      then Some ''Firefox URL must be an absolute HTTP or HTTPS URL''
                    else None)))"

definition findCertutil :: "string \<Rightarrow> (string \<Rightarrow> string option) \<Rightarrow> string \<Rightarrow> (string, string) result" where
  "findCertutil goos lookPath binary =
     (if binary \<noteq> [] then Ok binary
      else if goos = ''windows'' then
        (case lookPath ''nss-certutil'' of Some p \<Rightarrow> Ok p | None \<Rightarrow> Err ''NSS certutil was not found'')
      else (case lookPath ''certutil'' of Some p \<Rightarrow> Ok p | None \<Rightarrow> Err ''NSS certutil was not found''))"

text \<open>\<open>filepath.Join\<close> of a clean base and plain names, with the separator of the platform.\<close>

definition path_join :: "char \<Rightarrow> string list \<Rightarrow> string" where
  "path_join sep parts = Join parts [sep]"

definition firefoxCandidates :: "string \<Rightarrow> (string \<Rightarrow> string) \<Rightarrow> string option \<Rightarrow> string list" where
  "firefoxCandidates goos getenv home =
     (if goos = ''darwin'' then
        ''/Applications/Firefox.app/Contents/MacOS/firefox'' #
          (case home of
             Some h \<Rightarrow> [path_join (CHR ''/'') [h, ''Applications'', ''Firefox.app'', ''Contents'', ''MacOS'', ''firefox'']]
           | None \<Rightarrow> [])
      else if goos = ''windows'' then
        map (\<lambda>v. path_join (CHR 0x5C) [getenv v, ''Mozilla Firefox'', ''firefox.exe''])
          (filter (\<lambda>v. getenv v \<noteq> []) [''ProgramFiles'', ''ProgramFiles(x86)'', ''LOCALAPPDATA''])
      else [])"

definition findFirefox :: "string list \<Rightarrow> (string \<Rightarrow> string option) \<Rightarrow> (string \<Rightarrow> bool option) \<Rightarrow> string \<Rightarrow> (string, string) result" where
  "findFirefox candidates lookPath stat binary =
     (if binary \<noteq> [] then Ok binary
      else case lookPath ''firefox'' of
        Some p \<Rightarrow> Ok p
      | None \<Rightarrow>
          (case find (\<lambda>p. stat p = Some False) candidates of
             Some p \<Rightarrow> Ok p
           | None \<Rightarrow> Err ''Firefox was not found''))"

section \<open>Preferences\<close>

definition proxy_host :: "string \<Rightarrow> string" where
  "proxy_host host =
     (if host = [] then ''127.0.0.1''
      else case ParseIP host of
        Some a \<Rightarrow> if IsUnspecified a then (if To4 a \<noteq> None then ''127.0.0.1'' else ''::1'') else host
      | None \<Rightarrow> host)"

definition newline :: string where "newline = [char_of (10 :: nat)]"

definition quoted :: "string \<Rightarrow> string" where "quoted s = [char_of (34 :: nat)] @ s @ [char_of (34 :: nat)]"

definition user_pref :: "string \<Rightarrow> string \<Rightarrow> string" where
  "user_pref name value = ''user_pref('' @ quoted name @ '', '' @ value @ '');'' @ newline"

definition preferences :: "string \<Rightarrow> int \<Rightarrow> string" where
  "preferences quoted_host port =
     ''// Managed by lemmingd. Do not edit while Firefox is running.'' @ newline @
     user_pref ''network.proxy.type'' ''1'' @
     user_pref ''network.proxy.share_proxy_settings'' ''true'' @
     user_pref ''network.proxy.http'' quoted_host @
     user_pref ''network.proxy.http_port'' (FormatInt port) @
     user_pref ''network.proxy.ssl'' quoted_host @
     user_pref ''network.proxy.ssl_port'' (FormatInt port) @
     user_pref ''network.proxy.no_proxies_on'' (quoted ''localhost, 127.0.0.1, ::1'') @
     ''// lemmingd closes Firefox when it stops. A quit warning would stop that.'' @ newline @
     user_pref ''browser.warnOnQuit'' ''false''"

definition writePreferences :: "(string \<Rightarrow> string) \<Rightarrow> bool \<Rightarrow> string \<Rightarrow> (string, string) result" where
  "writePreferences Quote wr proxyAddress =
     (case SplitHostPort proxyAddress of
        Err _ \<Rightarrow> Err ''parse proxy address''
      | Ok (host, portText) \<Rightarrow>
          (case Atoi portText of
             None \<Rightarrow> Err ''parse proxy port''
           | Some port \<Rightarrow>
               if port < 1 \<or> 65535 < port then Err ''parse proxy port''
               else if \<not> wr then Err ''write Firefox proxy preferences''
               else Ok (preferences (Quote (proxy_host host)) port)))"

section \<open>Waiting for Firefox's own lock\<close>

text \<open>
  One round of the loop: the exit seen first, if Firefox has exited (with or without an error); the state of the native lock; what
  the second \<open>select\<close> sees.
\<close>

datatype wake = Ticked | TimedOut | ExitedNow bool

record poll =
  po_exited :: "bool option"
  po_locked :: "(string, bool) result"
  po_wake :: wake

definition exit_error :: "bool \<Rightarrow> string" where
  "exit_error failed = (if failed then ''Firefox exited during startup: error'' else ''Firefox exited during startup'')"

text \<open>\<open>None\<close> where the rounds given end before the loop does.\<close>

fun waitForFirefoxProfileLock :: "poll list \<Rightarrow> string option option" where
  "waitForFirefoxProfileLock [] = None"
| "waitForFirefoxProfileLock (p # ps) =
     (case po_exited p of
        Some failed \<Rightarrow> Some (Some (exit_error failed))
      | None \<Rightarrow>
          (case po_locked p of
             Inl e \<Rightarrow> Some (Some e)
           | Inr locked \<Rightarrow>
               if locked then Some None
               else (case po_wake p of
                       ExitedNow failed \<Rightarrow> Some (Some (exit_error failed))
                     | TimedOut \<Rightarrow> Some (Some ''Firefox did not lock its managed profile during startup'')
                     | Ticked \<Rightarrow> waitForFirefoxProfileLock ps)))"

text \<open>The loop waits for the timer at most: a last round that neither the lock nor the exit of Firefox ends is ended by it.\<close>

definition lock_wait :: "poll list \<Rightarrow> string option" where
  "lock_wait rounds =
     (case waitForFirefoxProfileLock rounds of
        Some r \<Rightarrow> r
      | None \<Rightarrow> Some ''Firefox did not lock its managed profile during startup'')"

section \<open>Launching\<close>

text \<open>
  \<open>fw_db\<close>: the certificate database exists. \<open>fw_trusted\<close>: the CA files whose certificates were added under the
  nickname and not removed since.
\<close>

type_synonym command = "string \<times> string list"

record ff_world =
  fw_profile :: profile
  fw_prefs :: "string option"
  fw_db :: bool
  fw_trusted :: "string list"
  fw_running :: bool
  fw_commands :: "command list"

datatype kill_outcome = Killed | ProcessDone | KillFailed

record launch_io =
  lc_mkdir :: bool
  lc_chmod :: bool
  lc_prep :: bool
  lc_unprep :: bool
  lc_locked :: "(string, bool) result"
  lc_lease :: "lease_io \<times> lease_io"
  lc_random :: "nat list option"
  lc_pid :: int
  lc_prefs :: bool
  lc_left :: "string option"
  lc_db :: bool
  lc_init :: bool
  lc_delete :: bool
  lc_add :: bool
  lc_start :: "int option"
  lc_polls :: "poll list"
  lc_update :: "string option"
  lc_kill :: kill_outcome
  lc_rd :: bool
  lc_rm :: bool

abbreviation lc_token :: "launch_io \<Rightarrow> string option" where
  "lc_token io \<equiv> newLeaseToken (lc_random io)"

definition run_command :: "command \<Rightarrow> ff_world \<Rightarrow> ff_world" where
  "run_command cmd W = W\<lparr>fw_commands := fw_commands W @ [cmd]\<rparr>"

text \<open>The error of stopping is joined to the one it follows.\<close>

definition stopCommand :: "kill_outcome \<Rightarrow> ff_world \<Rightarrow> string list \<times> ff_world" where
  "stopCommand k W =
     (if k = KillFailed then ([''stop Firefox after launch failure''], W) else ([], W\<lparr>fw_running := False\<rparr>))"

definition start_firefox :: "launch_io \<Rightarrow> ff_config \<Rightarrow> string \<Rightarrow> profileLease \<Rightarrow> ff_world \<Rightarrow>
    (string list, int \<times> profileLease) result \<times> ff_world" where
  "start_firefox io c firefox lease W =
     (case lc_start io of
        None \<Rightarrow> (Err [''start Firefox''], run_command (firefox, [''-no-remote'', ''-profile'', fc_Profile c, fc_URL c]) W)
      | Some pid \<Rightarrow>
          let W1 = (run_command (firefox, [''-no-remote'', ''-profile'', fc_Profile c, fc_URL c]) W)\<lparr>fw_running := True\<rparr>
          in case lock_wait (lc_polls io) of
               Some e \<Rightarrow> (case stopCommand (lc_kill io) W1 of (errs, W2) \<Rightarrow> (Err (e # errs), W2))
             | None \<Rightarrow>
                 (case update_lease (lc_update io) lease pid (fw_profile W1) of
                    (True, lease', P) \<Rightarrow> (Ok (pid, lease'), W1\<lparr>fw_profile := P\<rparr>)
                  | (False, _, P) \<Rightarrow>
                      (case stopCommand (lc_kill io) (W1\<lparr>fw_profile := P\<rparr>) of
                         (errs, W2) \<Rightarrow> (Err (''record Firefox process'' # errs), W2))))"

text \<open>\<open>lc_db\<close>: the database can be inspected. \<open>lc_delete\<close>: the removal of the old certificate works; the code ignores when it does not.\<close>

definition trust_ca :: "launch_io \<Rightarrow> ff_config \<Rightarrow> string \<Rightarrow> ff_world \<Rightarrow> string option \<times> ff_world" where
  "trust_ca io c certutil W =
     (let database = ''sql:'' @ fc_Profile c;
          init = (certutil, [''-N'', ''-d'', database, ''--empty-password'']);
          delete = (certutil, [''-D'', ''-d'', database, ''-n'', certificateNickname]);
          add = (certutil, [''-A'', ''-d'', database, ''-n'', certificateNickname, ''-t'', ''C,,'', ''-i'', fc_CACertificate c]);
          finish = (\<lambda>W.
            let W1 = run_command delete (if lc_delete io then W\<lparr>fw_trusted := []\<rparr> else W);
                W2 = run_command add W1
            in if lc_add io then (None, W2\<lparr>fw_trusted := fw_trusted W2 @ [fc_CACertificate c]\<rparr>)
               else (Some ''trust lemmingd CA in Firefox profile'', W2))
      in if \<not> lc_db io then (Some ''inspect Firefox certificate database'', W)
         else if fw_db W then finish W
         else if lc_init io then finish (run_command init (W\<lparr>fw_db := True\<rparr>))
         else (Some ''initialize Firefox certificate database'', run_command init W))"

definition launch_leased :: "(string \<Rightarrow> string) \<Rightarrow> launch_io \<Rightarrow> ff_config \<Rightarrow> string \<Rightarrow> string \<Rightarrow> profileLease \<Rightarrow> ff_world \<Rightarrow>
    (string list, int \<times> profileLease) result \<times> ff_world" where
  "launch_leased Quote io c certutil firefox lease W =
     (case writePreferences Quote (lc_prefs io) (fc_ProxyAddress c) of
        Inl e \<Rightarrow> (Err [e], if e = ''write Firefox proxy preferences'' then W\<lparr>fw_prefs := lc_left io\<rparr> else W)
      | Inr prefs \<Rightarrow>
          (case trust_ca io c certutil (W\<lparr>fw_prefs := Some prefs\<rparr>) of
             (Some e, W1) \<Rightarrow> (Err [e], W1)
           | (None, W1) \<Rightarrow> start_firefox io c firefox lease W1))"

definition launch_prepared :: "(string \<Rightarrow> string) \<Rightarrow> launch_io \<Rightarrow> ff_config \<Rightarrow> string \<Rightarrow> string \<Rightarrow> ff_world \<Rightarrow>
    (string list, int \<times> profileLease) result \<times> ff_world" where
  "launch_prepared Quote io c certutil firefox W =
     (case checkFirefoxProfileLock (lc_locked io) of
        Some e \<Rightarrow> (Err [e], W)
      | None \<Rightarrow>
          (case acquireProfileLease (fst (lc_lease io)) (snd (lc_lease io)) (lc_token io) (lc_pid io) (fw_profile W) of
             (Inl e, P) \<Rightarrow> (Err [e], W\<lparr>fw_profile := P\<rparr>)
           | (Inr lease, P) \<Rightarrow>
               (case launch_leased Quote io c certutil firefox lease (W\<lparr>fw_profile := P\<rparr>) of
                  (Inr b, W1) \<Rightarrow> (Ok b, W1)
                | (Inl e, W1) \<Rightarrow>
                    (Err e, W1\<lparr>fw_profile := snd (remove_lease (lc_rd io) (lc_rm io) lease (fw_profile W1))\<rparr>))))"

record finders =
  fi_goos :: string
  fi_lookPath :: "string \<Rightarrow> string option"
  fi_stat :: "string \<Rightarrow> bool option"
  fi_getenv :: "string \<Rightarrow> string"
  fi_home :: "string option"
  fi_parse :: "string \<Rightarrow> url option"

definition prepareAndLaunch :: "(string \<Rightarrow> string) \<Rightarrow> finders \<Rightarrow> launch_io \<Rightarrow> ff_config \<Rightarrow> ff_world \<Rightarrow>
    (string list, int \<times> profileLease) result \<times> ff_world" where
  "prepareAndLaunch Quote fi io c W =
     (case validate (fi_stat fi) (fi_parse fi) c of
        Some e \<Rightarrow> (Err [e], W)
      | None \<Rightarrow>
     (case findCertutil (fi_goos fi) (fi_lookPath fi) (fc_NSSCertutil c) of
        Inl e \<Rightarrow> (Err [e], W)
      | Inr certutil \<Rightarrow>
     (case findFirefox (firefoxCandidates (fi_goos fi) (fi_getenv fi) (fi_home fi)) (fi_lookPath fi) (fi_stat fi) (fc_Binary c) of
        Inl e \<Rightarrow> (Err [e], W)
      | Inr firefox \<Rightarrow>
          if \<not> lc_mkdir io then (Err [''create Firefox profile''], W)
          else if \<not> lc_chmod io then (Err [''protect Firefox profile''], W)
          else
            (case acquirePreparationLock (lc_prep io) (fw_profile W) of
               Inl AlreadyPreparing \<Rightarrow> (Err [''already being prepared''], W)
             | Inl PrepareFailed \<Rightarrow> (Err [''protect Firefox profile preparation''], W)
             | Inr P \<Rightarrow>
                 (case launch_prepared Quote io c certutil firefox (W\<lparr>fw_profile := P\<rparr>) of
                    (r, W1) \<Rightarrow> (r, if lc_unprep io then W1\<lparr>fw_profile := remove_preparation (fw_profile W1)\<rparr> else W1))))))"

section \<open>Closing\<close>

text \<open>
  The outcomes of closing: whether the quit request works, whether Firefox's exit and the removal of its lease are seen
  before the first and the second timer, and the kill.
\<close>

record close_io =
  cs_running :: bool
  cs_quit :: bool
  cs_quits :: bool
  cs_kill :: kill_outcome
  cs_stops :: bool

definition CloseBrowser :: "close_io \<Rightarrow> bool \<times> string list" where
  "CloseBrowser io =
     (if \<not> cs_running io then (False, [])
      else if cs_quit io \<and> cs_quits io then (False, [])
      else
        let quitErr = (if cs_quit io then [] else [''ask Firefox to quit''])
        in if cs_kill io = KillFailed then (True, quitErr @ [''stop Firefox''])
           else if cs_stops io then (True, quitErr)
           else (True, quitErr @ [''Firefox did not stop'']))"

section \<open>Lemmas\<close>

lemma proxy_host_dialable:
  "proxy_host h \<noteq> [] \<and> (\<forall>a. ParseIP (proxy_host h) = Some a \<longrightarrow> \<not> IsUnspecified a)"
proof -
  have "ParseIP ''127.0.0.1'' \<noteq> None" "ParseIP ''::1'' \<noteq> None" "\<not> IsUnspecified (the (ParseIP ''127.0.0.1''))"
    "\<not> IsUnspecified (the (ParseIP ''::1''))"
    by code_simp+
  then show ?thesis by (auto simp: proxy_host_def split: option.splits)
qed

lemma writePreferences_ok:
  "writePreferences Quote wr addr = Ok prefs \<longleftrightarrow> wr \<and>
     (\<exists>host portText port. SplitHostPort addr = Ok (host, portText) \<and> Atoi portText = Some port \<and> 1 \<le> port \<and> port \<le> 65535 \<and>
        prefs = preferences (Quote (proxy_host host)) port)"
  by (auto simp: writePreferences_def split: sum.splits option.splits)

lemma trust_ca_cases:
  assumes "trust_ca io c certutil W = (r, W')"
  shows "fw_profile W' = fw_profile W \<and> fw_running W' = fw_running W \<and> fw_prefs W' = fw_prefs W \<and>
    (r = None \<longrightarrow> fw_db W' \<and> fc_CACertificate c \<in> set (fw_trusted W') \<and> (lc_delete io \<longrightarrow> fw_trusted W' = [fc_CACertificate c]) \<and> fw_commands W' = fw_commands W @
       (if \<not> fw_db W then [(certutil, [''-N'', ''-d'', ''sql:'' @ fc_Profile c, ''--empty-password''])] else []) @
       [(certutil, [''-D'', ''-d'', ''sql:'' @ fc_Profile c, ''-n'', certificateNickname]),
        (certutil, [''-A'', ''-d'', ''sql:'' @ fc_Profile c, ''-n'', certificateNickname, ''-t'', ''C,,'', ''-i'', fc_CACertificate c])])"
  using assms by (auto simp: trust_ca_def run_command_def Let_def split: if_splits)

lemma lock_wait_seen:
  "lock_wait rounds = None \<Longrightarrow> \<exists>p \<in> set rounds. po_exited p = None \<and> po_locked p = Ok True"
  by (induction rounds rule: waitForFirefoxProfileLock.induct) (auto simp: lock_wait_def split: option.splits sum.splits if_splits wake.splits)

lemma start_firefox_cases:
  assumes "start_firefox io c firefox lease W = (r, W')"
  shows "fw_prefs W' = fw_prefs W \<and> fw_db W' = fw_db W \<and> fw_trusted W' = fw_trusted W \<and> pf_prep (fw_profile W') = pf_prep (fw_profile W) \<and>
    fw_commands W' = fw_commands W @ [(firefox, [''-no-remote'', ''-profile'', fc_Profile c, fc_URL c])] \<and>
    (case r of
       Inl _ \<Rightarrow> (fw_running W' \<longrightarrow> fw_running W \<or> lc_kill io = KillFailed) \<and>
         (pf_lease (fw_profile W') = pf_lease (fw_profile W) \<or> (\<exists>part. lc_update io = Some part \<and> pf_lease (fw_profile W') = Some part))
     | Inr (pid, lease') \<Rightarrow> lc_start io = Some pid \<and> lock_wait (lc_polls io) = None \<and> fw_running W' \<and> lease' = lease\<lparr>pl_state := ''running''\<rparr> \<and>
         pf_lease (fw_profile W') = Some (contents lease' pid))"
  using assms by (auto simp: start_firefox_def run_command_def stopCommand_def update_lease_def Let_def split: option.splits if_splits)

lemma launch_leased_ok:
  assumes "launch_leased Quote io c certutil firefox lease W = (Ok (pid, lease'), W')"
  shows "(\<exists>prefs. writePreferences Quote (lc_prefs io) (fc_ProxyAddress c) = Ok prefs \<and> fw_prefs W' = Some prefs) \<and>
    pf_prep (fw_profile W') = pf_prep (fw_profile W) \<and> fw_running W' \<and> lc_start io = Some pid \<and> lock_wait (lc_polls io) = None \<and>
    fw_db W' \<and> fc_CACertificate c \<in> set (fw_trusted W') \<and> (lc_delete io \<longrightarrow> fw_trusted W' = [fc_CACertificate c]) \<and>
    lease' = lease\<lparr>pl_state := ''running''\<rparr> \<and> pf_lease (fw_profile W') = Some (contents lease' pid) \<and>
    fw_commands W' = fw_commands W @
       (if \<not> fw_db W then [(certutil, [''-N'', ''-d'', ''sql:'' @ fc_Profile c, ''--empty-password''])] else []) @
       [(certutil, [''-D'', ''-d'', ''sql:'' @ fc_Profile c, ''-n'', certificateNickname]),
        (certutil, [''-A'', ''-d'', ''sql:'' @ fc_Profile c, ''-n'', certificateNickname, ''-t'', ''C,,'', ''-i'', fc_CACertificate c]),
        (firefox, [''-no-remote'', ''-profile'', fc_Profile c, fc_URL c])]"
proof -
  obtain prefs where prefs: "writePreferences Quote (lc_prefs io) (fc_ProxyAddress c) = Ok prefs"
    using assms by (auto simp: launch_leased_def split: sum.splits)
  obtain W1 where W1: "trust_ca io c certutil (W\<lparr>fw_prefs := Some prefs\<rparr>) = (None, W1)"
    using assms prefs by (auto simp: launch_leased_def split: prod.splits option.splits)
  then have start: "start_firefox io c firefox lease W1 = (Ok (pid, lease'), W')" using assms prefs by (simp add: launch_leased_def)
  show ?thesis using prefs trust_ca_cases [OF W1] start_firefox_cases [OF start] by simp
qed

lemma launch_leased_err:
  assumes "launch_leased Quote io c certutil firefox lease W = (Err e, W')" "\<not> fw_running W" "lc_kill io \<noteq> KillFailed"
  shows "\<not> fw_running W' \<and> pf_prep (fw_profile W') = pf_prep (fw_profile W) \<and>
    (pf_lease (fw_profile W') = pf_lease (fw_profile W) \<or> (\<exists>part. lc_update io = Some part \<and> pf_lease (fw_profile W') = Some part))"
proof (cases "writePreferences Quote (lc_prefs io) (fc_ProxyAddress c)")
  case (Inl m)
  then show ?thesis using assms by (auto simp: launch_leased_def split: if_splits)
next
  case (Inr prefs)
  obtain r W1 where W1: "trust_ca io c certutil (W\<lparr>fw_prefs := Some prefs\<rparr>) = (r, W1)" by fastforce
  note trust_ca_cases [OF W1]
  moreover have "start_firefox io c firefox lease W1 = (Err e, W')" if "r = None" using assms(1) Inr W1 that by (simp add: launch_leased_def)
  note start_firefox_cases [OF this]
  ultimately show ?thesis using assms Inr W1 by (cases r) (auto simp: launch_leased_def)
qed

lemma lease_attempts_err:
  assumes "lease_attempts ios lease pid P = (Err e, P')" "\<forall>io \<in> set ios. ls_undo io"
  shows "pf_lease P' = pf_lease P \<or> pf_lease P' = None"
  using assms by (induction ios lease pid P rule: lease_attempts.induct) (auto simp: Let_def split: if_splits)

lemma acquired_lease:
  assumes "acquireProfileLease io1 io2 (Some t) p P = (Ok l, P')"
  shows "l = \<lparr>pl_state = ''preparing'', pl_token = t\<rparr> \<and> P' = P\<lparr>pf_lease := Some (contents l p)\<rparr>"
  using lease_attempts_ok [of "[io1, io2]" "\<lparr>pl_state = ''preparing'', pl_token = t\<rparr>" p P l P'] assms
  by (simp add: acquireProfileLease_def del: lease_attempts.simps)

lemma prepareAndLaunch_cases:
  assumes "prepareAndLaunch Quote fi io c W = (r, W')"
  obtains (refused) e where "r = Err e" "W' = W"
  | (prepared) certutil firefox W1 where "\<not> pf_prep (fw_profile W) \<and> lc_mkdir io \<and> lc_chmod io" "validate (fi_stat fi) (fi_parse fi) c = None"
      "findCertutil (fi_goos fi) (fi_lookPath fi) (fc_NSSCertutil c) = Ok certutil"
      "findFirefox (firefoxCandidates (fi_goos fi) (fi_getenv fi) (fi_home fi)) (fi_lookPath fi) (fi_stat fi) (fc_Binary c) = Ok firefox"
      "launch_prepared Quote io c certutil firefox (W\<lparr>fw_profile := (fw_profile W)\<lparr>pf_prep := True\<rparr>\<rparr>) = (r, W1)"
      "W' = (if lc_unprep io then W1\<lparr>fw_profile := remove_preparation (fw_profile W1)\<rparr> else W1)"
  using assms unfolding prepareAndLaunch_def acquirePreparationLock_def
  by (auto split: option.splits sum.splits prod.splits prep_error.splits if_splits)

lemma launch_token:
  assumes "lc_random io = Some bytes" "length bytes = 16" "list_all (\<lambda>b. b < 256) bytes"
  shows "lc_token io = Some (hex_encode bytes)" "plain_word (hex_encode bytes)"
proof -
  show "lc_token io = Some (hex_encode bytes)" using assms(1) by (simp add: newLeaseToken_def)
  then show "plain_word (hex_encode bytes)" using assms newLeaseToken_plain [of bytes] by (cases bytes) auto
qed

section \<open>Properties\<close>

text \<open>A profile nobody uses, a system with the commands in one directory, and a launch in which every call works.\<close>

definition example_ff :: ff_config where
  "example_ff = \<lparr>fc_Profile = ''/p'', fc_CACertificate = ''/ca'', fc_ProxyAddress = ''127.0.0.1:8080'', fc_URL = ''http://a.test/'',
     fc_Binary = [], fc_NSSCertutil = []\<rparr>"

definition example_finders :: finders where
  "example_finders = \<lparr>fi_goos = ''linux'', fi_lookPath = (\<lambda>n. Some (''/bin/'' @ n)), fi_stat = (\<lambda>p. if p = ''/ca'' then Some False else None),
     fi_getenv = (\<lambda>_. []), fi_home = None,
     fi_parse = (\<lambda>_. Some \<lparr>url_scheme = ''http'', url_user = False, url_host = ''a.test'', url_path = ''/'', url_query = [], url_fragment = []\<rparr>)\<rparr>"

definition example_lease_io :: lease_io where
  "example_lease_io = \<lparr>ls_open = True, ls_write = True, ls_close = True, ls_undo = True, ls_part = [], ls_stale = True\<rparr>"

definition example_launch :: launch_io where
  "example_launch = \<lparr>lc_mkdir = True, lc_chmod = True, lc_prep = True, lc_unprep = True, lc_locked = Ok False,
     lc_lease = (example_lease_io, example_lease_io), lc_random = Some (replicate 16 171), lc_pid = 7, lc_prefs = True, lc_left = None, lc_db = True, lc_init = True,
     lc_delete = False, lc_add = True, lc_start = Some 8,
     lc_polls = [\<lparr>po_exited = None, po_locked = Ok False, po_wake = Ticked\<rparr>, \<lparr>po_exited = None, po_locked = Ok True, po_wake = Ticked\<rparr>],
     lc_update = None, lc_kill = Killed, lc_rd = True, lc_rm = True\<rparr>"

definition example_world :: ff_world where
  "example_world = \<lparr>fw_profile = \<lparr>pf_prep = False, pf_lease = Some ''12''\<rparr>, fw_prefs = None, fw_db = False, fw_trusted = [], fw_running = False, fw_commands = []\<rparr>"

text \<open>
  C37: A launch that succeeds has done everything it must, in order. The profile directory was made and protected, the native lock
  was free, the preferences name the proxy by an address that can be dialled, the certificate database exists, and the CA file is
  trusted under the nickname, as the only one if the removal of the old one worked (the code ignores when it does not). The
  certificate commands ran in this order, before Firefox was started on the profile with the URL. Firefox runs and was seen to have
  locked the profile before it exited, the lease names its process, and the preparation lock is given back.
\<close>

theorem launch_complete:
  assumes "prepareAndLaunch Quote fi io c W = (Ok (pid, lease), W')" "lc_unprep io" "lc_random io = Some bytes" "length bytes = 16"
    "list_all (\<lambda>b. b < 256) bytes" "1 \<le> pid" "pid \<le> max_int64"
  shows "lc_mkdir io \<and> lc_chmod io \<and> lc_locked io = Ok False \<and>
    (\<exists>p \<in> set (lc_polls io). po_exited p = None \<and> po_locked p = Ok True) \<and> fw_running W' \<and> \<not> pf_prep (fw_profile W') \<and>
    fw_db W' \<and> fc_CACertificate c \<in> set (fw_trusted W') \<and> (lc_delete io \<longrightarrow> fw_trusted W' = [fc_CACertificate c]) \<and>
    map_option parseLease (pf_lease (fw_profile W')) = Some (Some (''running'', pid, hex_encode bytes)) \<and>
    (\<exists>host portText port. SplitHostPort (fc_ProxyAddress c) = Ok (host, portText) \<and> Atoi portText = Some port \<and> 1 \<le> port \<and> port \<le> 65535 \<and>
       fw_prefs W' = Some (preferences (Quote (proxy_host host)) port)) \<and>
    (\<exists>certutil firefox. fw_commands W' = fw_commands W @
       (if \<not> fw_db W then [(certutil, [''-N'', ''-d'', ''sql:'' @ fc_Profile c, ''--empty-password''])] else []) @
       [(certutil, [''-D'', ''-d'', ''sql:'' @ fc_Profile c, ''-n'', certificateNickname]),
        (certutil, [''-A'', ''-d'', ''sql:'' @ fc_Profile c, ''-n'', certificateNickname, ''-t'', ''C,,'', ''-i'', fc_CACertificate c]),
        (firefox, [''-no-remote'', ''-profile'', fc_Profile c, fc_URL c])])"
  using assms(1)
proof (cases rule: prepareAndLaunch_cases)
  case (prepared certutil firefox W1)
  define token where "token = hex_encode bytes"
  note tok = launch_token [OF assms(3-5), folded token_def]
  let ?P = "(fw_profile W)\<lparr>pf_prep := True\<rparr>"
  have free: "checkFirefoxProfileLock (lc_locked io) = None" using prepared(5) by (auto simp: launch_prepared_def split: option.splits)
  then have unlocked: "lc_locked io = Ok False" by (auto simp: checkFirefoxProfileLock_def split: sum.splits if_splits)
  obtain l P where l: "acquireProfileLease (fst (lc_lease io)) (snd (lc_lease io)) (lc_token io) (lc_pid io) ?P = (Ok l, P)"
    using prepared(5) free by (auto simp: launch_prepared_def split: prod.splits sum.splits)
  then have lease: "l = \<lparr>pl_state = ''preparing'', pl_token = token\<rparr>"
    using tok(1) acquired_lease by metis
  have "launch_leased Quote io c certutil firefox l (W\<lparr>fw_profile := P\<rparr>) = (Ok (pid, lease), W1)"
    using prepared(5) free l by (auto simp: launch_prepared_def split: prod.splits sum.splits)
  note ok = launch_leased_ok [OF this]
  then have "lease = \<lparr>pl_state = ''running'', pl_token = token\<rparr>" using lease by simp
  then have "parseLease (contents lease pid) = Some (''running'', pid, token)"
    using parse_contents [of lease pid] tok(2) assms(6,7) by simp
  then show ?thesis using ok unlocked prepared(1,6) assms(2) lock_wait_seen [of "lc_polls io"] unfolding writePreferences_ok token_def
    by (auto simp: remove_preparation_def)
qed simp

lemma launch_complete_witness:
  "\<exists>W'. prepareAndLaunch id example_finders example_launch example_ff example_world = (Ok (8, \<lparr>pl_state = ''running'', pl_token = hex_encode (replicate 16 171)\<rparr>), W') \<and>
     map_option parseLease (pf_lease (fw_profile W')) = Some (Some (''running'', 8, hex_encode (replicate 16 171))) \<and> length (fw_commands W') = 4 \<and> ''/ca'' \<in> set (fw_trusted W')"
proof -
  let ?r = "prepareAndLaunch id example_finders example_launch example_ff example_world"
  have "fst ?r = Ok (8, \<lparr>pl_state = ''running'', pl_token = hex_encode (replicate 16 171)\<rparr>)" by code_simp
  then have r: "?r = (Ok (8, \<lparr>pl_state = ''running'', pl_token = hex_encode (replicate 16 171)\<rparr>), snd ?r)" by (metis prod.collapse)
  have side: "lc_unprep example_launch" "lc_random example_launch = Some (replicate 16 171)" "length (replicate 16 (171 :: nat)) = 16" "list_all (\<lambda>b. b < 256) (replicate 16 (171 :: nat))" "(1 :: int) \<le> 8" "8 \<le> max_int64"
    "fw_commands example_world = []" "\<not> fw_db example_world" "fc_CACertificate example_ff = ''/ca''"
    by (simp_all add: example_launch_def example_world_def example_ff_def list_all_iff max_int64_def)
  show ?thesis using launch_complete [OF r side(1-6)] side(7-9) r by (intro exI [of _ "snd ?r"]) auto
qed

text \<open>
  C38: A launch that fails leaves nothing behind. Whatever step fails, if undoing works then no Firefox stays behind, the preparation
  lock is as it was, no lease of this launch remains, and when another launcher holds the preparation lock then its lock and lease, the
  preferences, the certificates and the processes stay untouched.
\<close>

theorem launch_failure_cleans:
  assumes "prepareAndLaunch Quote fi io c W = (Err e, W')" "\<not> fw_running W" "lc_random io = Some bytes" "length bytes = 16" "list_all (\<lambda>b. b < 256) bytes"
    "1 \<le> lc_pid io" "lc_pid io \<le> max_int64"
    and undo: "lc_unprep io" "lc_rd io" "lc_rm io" "lc_kill io \<noteq> KillFailed" "ls_undo (fst (lc_lease io))" "ls_undo (snd (lc_lease io))"
  shows "\<not> fw_running W' \<and> pf_prep (fw_profile W') = pf_prep (fw_profile W) \<and>
    (pf_prep (fw_profile W) \<longrightarrow> W' = W) \<and>
    (pf_lease (fw_profile W') = pf_lease (fw_profile W) \<or>
     (\<forall>data. pf_lease (fw_profile W') = Some data \<longrightarrow> map_option (snd \<circ> snd) (parseLease data) \<noteq> Some (hex_encode bytes)))"
  using assms(1)
proof (cases rule: prepareAndLaunch_cases)
  case (refused e)
  then show ?thesis using assms(2) by simp
next
  case (prepared certutil firefox W1)
  define token where "token = hex_encode bytes"
  note tok = launch_token [OF assms(3-5), folded token_def]
  let ?P = "(fw_profile W)\<lparr>pf_prep := True\<rparr>"
  have core: "\<not> fw_running W1 \<and> (pf_lease (fw_profile W1) = pf_lease (fw_profile W) \<or>
     (\<forall>data. pf_lease (fw_profile W1) = Some data \<longrightarrow> map_option (snd \<circ> snd) (parseLease data) \<noteq> Some token))"
  proof (cases "checkFirefoxProfileLock (lc_locked io)")
    case (Some m)
    then show ?thesis using prepared(5) assms(2) by (auto simp: launch_prepared_def)
  next
    case free: None
    obtain r P where l: "acquireProfileLease (fst (lc_lease io)) (snd (lc_lease io)) (lc_token io) (lc_pid io) ?P = (r, P)" by fastforce
    show ?thesis
    proof (cases r)
      case (Inl m)
      then have "pf_lease P = pf_lease (fw_profile W) \<or> pf_lease P = None"
        using l tok(1) undo(5,6) lease_attempts_err [of "[fst (lc_lease io), snd (lc_lease io)]" _ "lc_pid io" ?P m P]
        by (simp add: acquireProfileLease_def del: lease_attempts.simps)
      then show ?thesis using prepared(5) free l Inl assms(2) by (auto simp: launch_prepared_def)
    next
      case (Inr lease)
      then have lease: "lease = \<lparr>pl_state = ''preparing'', pl_token = token\<rparr>" "P = ?P\<lparr>pf_lease := Some (contents lease (lc_pid io))\<rparr>"
        using acquired_lease [of "fst (lc_lease io)" "snd (lc_lease io)" token "lc_pid io" ?P lease P] l tok(1) by simp_all
      obtain W2 where W2: "launch_leased Quote io c certutil firefox lease (W\<lparr>fw_profile := P\<rparr>) = (Err e, W2)"
        "W1 = W2\<lparr>fw_profile := snd (remove_lease True True lease (fw_profile W2))\<rparr>"
        using prepared(5) free l Inr undo(2,3) by (auto simp: launch_prepared_def split: prod.splits sum.splits)
      have "\<not> fw_running W1" using launch_leased_err [OF W2(1)] W2(2) assms(2) undo(4) by simp
      moreover have "map_option (snd \<circ> snd) (parseLease data) \<noteq> Some token" if "pf_lease (fw_profile W1) = Some data" for data
        using that W2(2) lease(1) by (auto simp: remove_lease_def split: option.splits if_splits prod.splits)
      ultimately show ?thesis by blast
    qed
  qed
  have "W' = W1\<lparr>fw_profile := remove_preparation (fw_profile W1)\<rparr>" using prepared(6) undo(1) by simp
  then show ?thesis using core prepared(1) by (simp add: remove_preparation_def token_def)
qed

lemma launch_failure_cleans_witness:
  "\<not> pf_prep (fw_profile (snd (prepareAndLaunch id example_finders (example_launch\<lparr>lc_update := Some ''ab''\<rparr>) example_ff example_world))) \<and>
   \<not> fw_running (snd (prepareAndLaunch id example_finders (example_launch\<lparr>lc_update := Some ''ab''\<rparr>) example_ff example_world))"
proof -
  let ?io = "example_launch\<lparr>lc_update := Some ''ab''\<rparr>"
  let ?r = "prepareAndLaunch id example_finders ?io example_ff example_world"
  have "fst ?r = Err [''record Firefox process'']" by code_simp
  then have r: "?r = (Err [''record Firefox process''], snd ?r)" by (metis prod.collapse)
  have side: "\<not> fw_running example_world" "lc_random ?io = Some (replicate 16 171)" "length (replicate 16 (171 :: nat)) = 16" "list_all (\<lambda>b. b < 256) (replicate 16 (171 :: nat))" "1 \<le> lc_pid ?io" "lc_pid ?io \<le> max_int64"
    "lc_unprep ?io" "lc_rd ?io" "lc_rm ?io" "lc_kill ?io \<noteq> KillFailed" "ls_undo (fst (lc_lease ?io))" "ls_undo (snd (lc_lease ?io))"
    by (simp_all add: example_launch_def example_lease_io_def example_world_def list_all_iff max_int64_def)
  have "\<not> pf_prep (fw_profile example_world)" by (simp add: example_world_def)
  then show ?thesis using launch_failure_cleans [OF r side] by simp
qed

end
