(* ===== verification/LemmingdMain.thy ===== *)
theory LemmingdMain
  imports HamsterdMain LemmingRules Control Firefox
begin

text \<open>
  The lemmingd command (\<open>cmd/lemmingd/main.go\<close> and \<open>commands.go\<close>): which CONNECT requests are intercepted, how a request is rewritten
  and recorded, the addresses and fingerprints it prints, closing Firefox, and the \<open>config show\<close> and \<open>config merge\<close> commands. Flag parsing, the
  constructors of the components and the proxy library are outcomes or outside; \<open>escaped\<close> is \<open>URL.EscapedPath\<close>.
\<close>

section \<open>Handlers of the proxy\<close>

definition lemmingd_connect :: "router \<Rightarrow> string \<Rightarrow> connect_action" where
  "lemmingd_connect r host = (if Intercepts r host then Intercept host else TunnelTo host)"

datatype outcome = Answered int | Failed string

text \<open>\<open>recordingRoundTripper\<close>, after the round trip at the time \<open>now\<close>.\<close>

definition finish_record :: "go_time \<Rightarrow> outcome \<Rightarrow> request_view \<Rightarrow> request_view" where
  "finish_record now out record =
     (case out of
        Failed e \<Rightarrow> record\<lparr>rv_Time := now, rv_Status := 502, rv_Error := e\<rparr>
      | Answered status \<Rightarrow> record\<lparr>rv_Time := now, rv_Status := status\<rparr>)"

text \<open>The request handler with the router at that moment: the request that is sent, and the view of it that is recorded.\<close>

definition lemmingd_request :: "(url \<Rightarrow> string) \<Rightarrow> router \<Rightarrow> request \<Rightarrow> url \<Rightarrow> request \<times> request_view" where
  "lemmingd_request escaped r request u =
     (let record = \<lparr>rv_Time = 0, rv_Method = req_method request, rv_Host = url_hostname (url_host u), rv_Path = escaped u,
                    rv_Target = [], rv_Status = 0, rv_Error = []\<rparr>;
          (rewritten, changed) = Rewrite r request u
      in (rewritten,
          if changed then record\<lparr>rv_Target := (case req_url rewritten of Some u' \<Rightarrow> url_host u' | None \<Rightarrow> [])\<rparr> else record))"

definition lemmingd_round_trip :: "(url \<Rightarrow> string) \<Rightarrow> router \<Rightarrow> request \<Rightarrow> url \<Rightarrow> go_time \<Rightarrow> outcome \<Rightarrow> service_state \<Rightarrow> service_state" where
  "lemmingd_round_trip escaped r request u now out s =
     Record (finish_record now out (snd (lemmingd_request escaped r request u))) s"

section \<open>What the command prints\<close>

definition clientAddress :: "string \<Rightarrow> string" where
  "clientAddress listen =
     (case SplitHostPort listen of
        Err _ \<Rightarrow> listen
      | Ok (host, port) \<Rightarrow>
          let host' = (if host = [] \<or> (case ParseIP host of Some a \<Rightarrow> IsUnspecified a | None \<Rightarrow> False) then ''127.0.0.1'' else host)
          in JoinHostPort host' port)"

definition upper_hex :: "nat \<Rightarrow> string" where
  "upper_hex b = map upper_char [hex_digit (b div 16), hex_digit (b mod 16)]"

definition fingerprint :: "('d \<Rightarrow> nat list) \<Rightarrow> 'd \<Rightarrow> string" where
  "fingerprint sha256 der = Join (map upper_hex (sha256 der)) '':''"

text \<open>The last line \<open>closeFirefox\<close> logs, if it logs anything.\<close>

datatype close_log = LogWarning string | LogForced | LogClosed

definition closeFirefox :: "close_io \<Rightarrow> close_log option" where
  "closeFirefox io =
     (if \<not> cs_running io then None
      else case CloseBrowser io of
        (_, e # _) \<Rightarrow> Some (LogWarning e)
      | (True, []) \<Rightarrow> Some LogForced
      | (False, []) \<Rightarrow> Some LogClosed)"

section \<open>The config command\<close>

record effective_config =
  ef_ConfigFile :: string
  ef_AutoRulesFile :: string
  ef_RuleSources :: "source list"
  ef_Effective :: config

text \<open>What \<open>config show\<close> meets: the file missing, the configuration, the auto rules, encoding; and its result with a warning.\<close>

definition showConfig :: "(string \<Rightarrow> bool) \<Rightarrow> string \<Rightarrow> doc \<Rightarrow> config_step option \<Rightarrow> bool \<Rightarrow> bool \<Rightarrow> string \<Rightarrow> doc fs \<Rightarrow>
    int \<times> (effective_config \<times> config_error option) option \<times> doc fs" where
  "showConfig rd tmp part fail stat enc configPath fs =
     (if \<not> stat \<or> fs configPath = None then (1, None, fs)
      else case ConfigFile.LoadOrCreate rd tmp part fail configPath Lemmingd [] fs of
        (Err _, fs') \<Rightarrow> (1, None, fs')
      | (Ok (cfg, _), fs') \<Rightarrow>
          (case LoadAutoRules rd (AutoRulesPath configPath) fs' of
             Err _ \<Rightarrow> (1, None, fs')
           | Ok auto \<Rightarrow>
               let rules = cf_Rules cfg @ auto;
                   result = \<lparr>ef_ConfigFile = configPath, ef_AutoRulesFile = AutoRulesPath configPath,
                     ef_RuleSources = map (\<lambda>_. SourceConfig) (cf_Rules cfg) @ map (\<lambda>_. SourceAuto) auto,
                     ef_Effective = cfg\<lparr>cf_Rules := rules\<rparr>\<rparr>
               in (if enc then 0 else 1, Some (result, ValidateRules rules (cf_AllowRemoteTargets cfg)), fs')))"

record merge_view =
  mv_Merged :: int
  mv_ConfigFile :: string
  mv_Backup :: string

datatype merge_report = NothingToMerge string | MergedRules int string string | MergeCommandFailed

text \<open>
  \<open>config merge\<close>: ask the running proxy, and edit the files only when the call says that none runs. The result has the exit code,
  what is printed, the files after this process's own edits, and the request sent to the proxy.
\<close>

definition mergeConfig :: "(string \<Rightarrow> url option) \<Rightarrow> unix \<Rightarrow> merge_view call_io \<Rightarrow> merge_io \<Rightarrow> string \<Rightarrow> string \<Rightarrow> doc fs \<Rightarrow>
    (int \<times> merge_report) \<times> doc fs \<times> out_request option" where
  "mergeConfig parse ux cio mio dir configPath fs =
     (let report = (\<lambda>v. if mv_Merged v = 0 then (0, NothingToMerge (AutoRulesPath configPath))
                        else (0, MergedRules (mv_Merged v) (mv_ConfigFile v) (mv_Backup v)))
      in case Do parse ux cio (NewClient dir ''lemmingd'') ''POST'' ''/v1/merge'' None fs of
           (Ok (Some v), sent) \<Rightarrow> (report v, fs, sent)
         | (Ok None, sent) \<Rightarrow> (report \<lparr>mv_Merged = 0, mv_ConfigFile = [], mv_Backup = []\<rparr>, fs, sent)
         | (Err NotRunning, sent) \<Rightarrow>
             (case MergeAutoRules mio configPath (None :: (config \<Rightarrow> unit option) option) fs of
                (fs', Ok m) \<Rightarrow> (report \<lparr>mv_Merged = int (mr_Merged m), mv_ConfigFile = configPath, mv_Backup = mr_Backup m\<rparr>, fs', sent)
              | (fs', Err _) \<Rightarrow> ((1, MergeCommandFailed), fs', sent))
         | (Err _, sent) \<Rightarrow> ((1, MergeCommandFailed), fs, sent))"

datatype config_command = ShowCommand | MergeCommand | UsageError int

text \<open>\<open>args\<close> are the arguments after the flags; \<open>paths\<close> and \<open>flags\<close> whether finding the paths and parsing the flags work.\<close>

definition runConfig :: "bool \<Rightarrow> bool \<Rightarrow> string list \<Rightarrow> config_command" where
  "runConfig paths flags args =
     (if \<not> paths then UsageError 1
      else if \<not> flags then UsageError 2
      else if length args \<noteq> 1 then UsageError 2
      else if args ! 0 = ''show'' then ShowCommand
      else if args ! 0 = ''merge'' then MergeCommand
      else UsageError 2)"

text \<open>\<open>serve\<close>: \<open>None\<close> when serving ends well or is cancelled.\<close>

definition runMCP :: "bool \<Rightarrow> bool \<Rightarrow> string list \<Rightarrow> string option \<Rightarrow> int" where
  "runMCP paths flags args serve =
     (if \<not> paths then 1 else if \<not> flags then 2 else if args \<noteq> [] then 2 else if serve = None then 0 else 1)"

section \<open>Properties\<close>

lemma normalizeHost_tunnel:
  assumes "plain_host h" "port \<noteq> []" "list_all is_digit port"
  shows "normalizeHost (h @ '':'' @ port) = TrimSuffix (ToLower h) ''.''"
    "normalizeHost (TrimSuffix (ToLower h) ''.'') = TrimSuffix (ToLower h) ''.''"
    "normalizeHost (TrimSuffix (ToLower h) ''.'' @ '':'' @ port) = TrimSuffix (ToLower h) ''.''"
proof -
  let ?n = "TrimSuffix (ToLower h) ''.''"
  note n = plain_host_norm [OF assms(1)]
  have port: "CHR '':'' \<notin> set port" "CHR ''['' \<notin> set port" "CHR '']'' \<notin> set port" "\<forall>c \<in> set port. \<not> is_space c"
    using assms(3) by (auto simp: list_all_iff is_digit_def is_space_def)
  have lower: "ToLower port = port" using assms(3) by (auto simp: ToLower_def list_all_iff is_digit_def lower_char_def intro!: map_idI)
  have "is_digit (last port)" using assms(2,3) by (simp add: list_all_iff)
  then have last: "last port \<noteq> CHR ''.''" by (auto simp: is_digit_def)
  have general: "normalizeHost (g @ '':'' @ port) = TrimSuffix (ToLower g) ''.''"
    if "\<forall>c \<in> set g. \<not> is_space c \<and> c \<noteq> CHR '':'' \<and> c \<noteq> CHR ''['' \<and> c \<noteq> CHR '']''" for g
  proof -
    have "TrimSpace (g @ '':'' @ port) = g @ '':'' @ port" using that port(4) by (intro TrimSpace_plain) (auto simp: is_space_def)
    moreover have "ToLower (g @ '':'' @ port) = ToLower g @ '':'' @ port"
      using lower by (simp add: ToLower_append) (simp add: ToLower_def lower_char_def)
    moreover have "TrimSuffix (ToLower g @ '':'' @ port) ''.'' = ToLower g @ '':'' @ port"
      using last assms(2) by (simp add: TrimSuffix_dot)
    moreover have "SplitHostPort (ToLower g @ '':'' @ port) = Ok (ToLower g, port)"
      using that port set_ToLower_iff [of "CHR '':''" g] set_ToLower_iff [of "CHR ''[''" g] set_ToLower_iff [of "CHR '']''" g]
      by (intro SplitHostPort_plain) auto
    ultimately show ?thesis by (simp add: normalizeHost_def)
  qed
  show "normalizeHost (h @ '':'' @ port) = ?n" using assms(1) by (intro general) (auto simp: plain_host_def)
  show "normalizeHost ?n = ?n" using n(3-6) by (simp add: normalizeHost_def SplitHostPort_no_colon)
  show "normalizeHost (?n @ '':'' @ port) = ?n" using general [of ?n] n(3,4,6-8,10) by auto
qed

lemma normalizeHost_connect:
  assumes "connect_name h" "port \<noteq> []" "list_all is_digit port"
  shows "normalizeHost (JoinHostPort h port) = TrimSuffix (ToLower h) ''.''"
    "normalizeHost (TrimSuffix (ToLower h) ''.'') = TrimSuffix (ToLower h) ''.''"
    "normalizeHost (JoinHostPort (TrimSuffix (ToLower h) ''.'') port) = TrimSuffix (ToLower h) ''.''"
proof -
  let ?n = "TrimSuffix (ToLower h) ''.''"
  have h: "bare_host h" using assms(1) by (simp add: connect_name_def)
  note n = bare_host_norm [OF h]
  note port = digits_plain [OF assms(3)]
  have digit: "\<not> is_space c" "lower_char c = c" "c \<noteq> CHR ''.''" if "c \<in> set port" for c
    using assms(3) that by (auto simp: list_all_iff is_digit_def is_space_def lower_char_def)
  have lower: "ToLower port = port" using digit(2) by (auto simp: ToLower_def intro!: map_idI)
  have general: "normalizeHost (JoinHostPort g port) = TrimSuffix (ToLower g) ''.''"
    if g: "\<forall>c \<in> set g. \<not> is_space c \<and> c \<noteq> CHR ''['' \<and> c \<noteq> CHR '']''" for g
  proof -
    have colon: "CHR '':'' \<in> set (ToLower g) \<longleftrightarrow> CHR '':'' \<in> set g"
      using set_ToLower_iff [of "CHR '':''" g] by simp
    have "TrimSpace (JoinHostPort g port) = JoinHostPort g port"
      using g digit(1) by (intro TrimSpace_plain) (auto simp: JoinHostPort_def is_space_def)
    moreover have "ToLower (JoinHostPort g port) = JoinHostPort (ToLower g) port"
      using lower colon by (simp add: JoinHostPort_def ToLower_append) (simp add: ToLower_def lower_char_def)
    moreover have "TrimSuffix (JoinHostPort (ToLower g) port) ''.'' = JoinHostPort (ToLower g) port"
      using digit(3) [of "last port"] assms(2) by (simp add: TrimSuffix_dot JoinHostPort_def)
    moreover have "SplitHostPort (JoinHostPort (ToLower g) port) = Ok (ToLower g, port)"
      using g port set_ToLower_iff [of "CHR ''[''" g] set_ToLower_iff [of "CHR '']''" g] by (intro SplitHostPort_Join) auto
    ultimately show ?thesis by (simp add: normalizeHost_def)
  qed
  show "normalizeHost (JoinHostPort h port) = ?n" using h by (intro general) (auto simp: bare_host_def)
  show "normalizeHost ?n = ?n" using n(3-5) connect_name_no_port [OF assms(1)] by (auto simp: normalizeHost_def)
  show "normalizeHost (JoinHostPort ?n port) = ?n" using general [of ?n] n(3,4,6,7,9) by auto
qed

text \<open>
  C33: lemmingd sends the decrypted requests of a tunnel where the rule of its CONNECT host says. If the CONNECT request was intercepted,
  there is a rule for the host, and every request that is forwarded from the tunnel goes to the target of this rule, with its
  scheme, exactly if the rule matches its path, and otherwise unchanged to the host and port of the CONNECT request; what is recorded names that
  target. The host is a name or IP literal without spaces and with at most one final dot; IPv6 literals on the default port
  of the scheme are left out, see \<open>ipv6_tunnel_escapes\<close>.
\<close>

theorem tunnel_routed:
  assumes "connect_name h" "tunnel_address scheme h port"
    and connect: "lemmingd_connect r (JoinHostPort h port) = Intercept connectHost"
    and serve: "serveMITM connectHost written first = Serve cert scheme authority"
    and forward: "mitmHandler scheme authority request u = Forward request'" "req_url request' = Some u'"
  shows "\<exists>rule. host_rule r (TrimSuffix (ToLower h) ''.'') = Some rule \<and>
    (if matches (url_path u') rule
     then req_url (fst (lemmingd_request escaped r request' u')) = Some (u'\<lparr>url_scheme := rl_Scheme rule, url_host := rl_Target rule\<rparr>) \<and>
       rv_Target (snd (lemmingd_request escaped r request' u')) = rl_Target rule
     else fst (lemmingd_request escaped r request' u') = request' \<and> rv_Target (snd (lemmingd_request escaped r request' u')) = [] \<and>
       canonicalAddr (url_scheme u') (url_host u') = JoinHostPort (TrimSuffix (ToLower h) ''.'') port)"
proof -
  let ?n = "TrimSuffix (ToLower h) ''.''"
  have port: "port \<noteq> []" "list_all is_digit port" using assms(2) by (simp_all add: tunnel_address_def)
  note norm = normalizeHost_connect [OF assms(1) port]
  have host: "connectHost = JoinHostPort h port" "Intercepts r (JoinHostPort h port)"
    using connect by (auto simp: lemmingd_connect_def split: if_splits)
  then obtain rule where rule: "host_rule r ?n = Some rule" using norm(1) by (auto simp: Intercepts_def)
  have n: "normalizeHostname h = ?n" using assms(1) bare_host_norm [of h] by (simp add: connect_name_def)
  note serve' = serve [unfolded host(1)] and addr = SplitHostPort_connect(2) [OF assms(1) port(2)]
  have u': "url_host u' = authority" "url_scheme u' = scheme" using forward by (auto simp: mitmHandler_def Let_def split: if_splits)
  have "normalizeHost (url_host u') = ?n" using serveMITM_cases(3) [OF serve' addr] norm u' n by simp
  then have "request_rule r request' u' = Some rule" using rule by (simp add: request_rule_def)
  then show ?thesis using rule tunnel_dial(1) [OF serve' addr assms(2)] u' n by (auto simp: lemmingd_request_def Rewrite_def Let_def)
qed

lemma tunnel_routed_witness:
  "\<exists>r rule. New example_rules = Ok r \<and> host_rule r ''app.test'' = Some rule \<and>
     req_url (fst (lemmingd_request url_path r \<lparr>req_method = ''GET'', req_url = Some \<lparr>url_scheme = ''https'', url_user = False,
        url_host = ''app.test:8443'', url_path = ''/x'', url_query = [], url_fragment = []\<rparr>, req_host = ''APP.test:8443'', req_header = []\<rparr>
       \<lparr>url_scheme = ''https'', url_user = False, url_host = ''app.test:8443'', url_path = ''/x'', url_query = [], url_fragment = []\<rparr>)) =
     Some \<lparr>url_scheme = rl_Scheme rule, url_user = False, url_host = rl_Target rule, url_path = ''/x'', url_query = [], url_fragment = []\<rparr>"
proof -
  obtain r where r: "New example_rules = Ok r" "host_rule r ''app.test'' = Some
      \<lparr>rl_Scheme = ''http'', rl_Target = ''127.0.0.1:81'', rl_Include = [''/''], rl_Exclude = [''/api'']\<rparr>"
    using New_example by blast
  let ?req = "\<lparr>req_method = ''GET'', req_url = None, req_host = ''APP.test:8443'', req_header = []\<rparr>"
  let ?u = "\<lparr>url_scheme = [], url_user = False, url_host = [], url_path = ''/x'', url_query = [], url_fragment = []\<rparr>"
  let ?u' = "?u\<lparr>url_scheme := ''https'', url_host := ''app.test:8443''\<rparr>"
  have c: "connect_name ''App.test.''" "tunnel_address ''https'' ''App.test.'' ''8443''"
    "serveMITM ''App.test.:8443'' True (Some 22) = Serve (Some ''app.test'') ''https'' ''app.test:8443''"
    "mitmHandler ''https'' ''app.test:8443'' ?req ?u = Forward (?req\<lparr>req_url := Some ?u'\<rparr>)" "normalizeHost ''App.test.:8443'' = ''app.test''"
    "TrimSuffix (ToLower ''App.test.'') ''.'' = ''app.test''" "JoinHostPort ''App.test.'' ''8443'' = ''App.test.:8443''"
    by code_simp+
  have i: "lemmingd_connect r (JoinHostPort ''App.test.'' ''8443'') = Intercept ''App.test.:8443''"
    using r(2) c(5,7) by (simp add: lemmingd_connect_def Intercepts_def)
  have m: "matches ''/x'' \<lparr>rl_Scheme = ''http'', rl_Target = ''127.0.0.1:81'', rl_Include = [''/''], rl_Exclude = [''/api'']\<rparr>" by code_simp
  show ?thesis
    using tunnel_routed [OF c(1,2) i c(3,4), of ?u' url_path] r c(6) m by auto
qed

text \<open>
  C35: \<open>config show\<close> prints what a service would do. If it warns of nothing, then lemmingd started on the same configuration and files uses
  exactly the rules printed, in that order and with the sources printed, and skips no auto rules.
\<close>

theorem show_matches_service:
  assumes "showConfig rd tmp part fail stat enc configPath fs = (code, Some (result, None), fs')"
  shows "\<exists>cfg created s. ConfigFile.LoadOrCreate rd tmp part fail configPath Lemmingd [] fs = (Ok (cfg, created), fs') \<and>
    NewService rd configPath cfg fs' = Ok s \<and> ls_autoErr s = None \<and> length (ef_RuleSources result) = length (cf_Rules (ef_Effective result)) \<and>
    Rules s = map2 view (ef_RuleSources result) (cf_Rules (ef_Effective result))"
proof -
  obtain cfg created where load: "ConfigFile.LoadOrCreate rd tmp part fail configPath Lemmingd [] fs = (Ok (cfg, created), fs')"
    using assms by (auto simp: showConfig_def Let_def split: if_splits prod.splits sum.splits)
  obtain auto where auto: "LoadAutoRules rd (AutoRulesPath configPath) fs' = Ok auto"
    using assms load by (auto simp: showConfig_def Let_def split: if_splits sum.splits)
  have result: "ef_RuleSources result = map (\<lambda>_. SourceConfig) (cf_Rules cfg) @ map (\<lambda>_. SourceAuto) auto"
    "cf_Rules (ef_Effective result) = cf_Rules cfg @ auto" "ValidateRules (cf_Rules cfg @ auto) (cf_AllowRemoteTargets cfg) = None"
    using assms load auto by (auto simp: showConfig_def Let_def split: if_splits)
  obtain r where "Redirect.New (cf_Rules cfg @ auto) = Ok r" using ValidateRules_New [OF result(3)] by blast
  then have build: "build (initial_service configPath cfg) (cf_Rules cfg) auto = Ok r"
    using result(3) by (simp add: build_Ok_iff initial_service_def)
  let ?s = "(install (initial_service configPath cfg) r)\<lparr>ls_auto := auto\<rparr>"
  have "NewService rd configPath cfg fs' = Ok ?s"
    using build auto by (simp add: NewService_def Let_def initial_service_def)
  moreover have "ls_base (install (initial_service configPath cfg) r) = cf_Rules cfg" "ls_autoErr (install (initial_service configPath cfg) r) = None"
    by (simp_all add: install_eq initial_service_def)
  moreover have "map2 view (map (\<lambda>_. a) xs @ map (\<lambda>_. b) ys) (xs @ ys) = map (view a) xs @ map (view b) ys" for a b and xs ys :: "redirect_rule list"
    by (induction xs) (induction ys, auto)
  ultimately show ?thesis using load result by (intro exI [of _ cfg] exI [of _ created] exI [of _ ?s]) (simp add: Rules_def)
qed

lemma example_load: "ConfigFile.LoadOrCreate (\<lambda>_. True) ''t'' ([], True) None ''c'' Lemmingd [] example_fs = (Ok (example_config, False), example_fs)"
proof -
  have "fill_defaults Lemmingd [] example_config = example_config" by code_simp
  moreover have "readPrivate (\<lambda>_. True) ''c'' example_fs = Ok (config_doc example_config)"
    by (simp add: readPrivate_def checkPrivate_def example_fs_def)
  ultimately show ?thesis using example_decode example_valid by (simp add: ConfigFile.LoadOrCreate_def)
qed

lemma example_auto_load: "LoadAutoRules (\<lambda>_. True) (AutoRulesPath ''c'') example_fs = Ok example_auto"
proof -
  have "AutoRulesPath ''c'' = ''rules.auto.json''" by code_simp
  then show ?thesis using example_on_disk by (simp add: on_disk_def example_merge_def)
qed

lemma show_matches_service_witness:
  "\<exists>result s. showConfig (\<lambda>_. True) ''t'' ([], True) None True True ''c'' example_fs = (0, Some (result, None), example_fs) \<and>
     NewService (\<lambda>_. True) ''c'' example_config example_fs = Ok s \<and> Rules s = map2 view [SourceConfig, SourceAuto] (cf_Rules (ef_Effective result))"
proof -
  have v: "ValidateRules (cf_Rules example_config @ example_auto) (cf_AllowRemoteTargets example_config) = None" by code_simp
  have c: "example_fs ''c'' \<noteq> None" "map (\<lambda>_. SourceConfig) (cf_Rules example_config) @ map (\<lambda>_. SourceAuto) example_auto = [SourceConfig, SourceAuto]"
    by (simp_all add: example_fs_def example_config_def example_auto_def)
  obtain result where shown: "showConfig (\<lambda>_. True) ''t'' ([], True) None True True ''c'' example_fs = (0, Some (result, None), example_fs)"
    and sources: "ef_RuleSources result = [SourceConfig, SourceAuto]"
    using v c by (simp add: showConfig_def example_load example_auto_load [simplified] Let_def)
  then show ?thesis using show_matches_service [OF shown] sources by (auto simp: example_load)
qed

text \<open>Files are edited by the command only when no proxy answers.\<close>

lemma merge_command_exclusive:
  assumes "mergeConfig parse ux cio mio dir configPath fs = (r, fs', Some q)" "cio_send cio q \<noteq> DialError"
  shows "fs' = fs"
proof -
  obtain d where d: "Do parse ux cio (NewClient dir ''lemmingd'') ''POST'' ''/v1/merge'' None fs = (d, Some q)"
    using assms(1) by (auto simp: mergeConfig_def Let_def split: prod.splits sum.splits option.splits call_error.splits)
  have "d \<noteq> Err NotRunning"
    using Do_sent [OF d] assms(2) by (auto simp: finish_call_def Let_def split: sent.splits option.splits if_splits)
  then show ?thesis using assms(1) d by (auto simp: mergeConfig_def Let_def split: sum.splits option.splits call_error.splits)
qed

text \<open>The request just handled is the newest one listed.\<close>

lemma request_recorded:
  assumes "ring_ok s"
  shows "Recent 1 (lemmingd_round_trip escaped r request u now out s) = [finish_record now out (snd (lemmingd_request escaped r request u))]"
proof -
  have ordered: "rev (ordered (Record q s)) = take recentRequests (q # rev (ordered s))" for q
    using ordered_Record [OF assms, of q] by (simp add: lastn_def)
  show ?thesis
    using ordered by (simp add: lemmingd_round_trip_def Recent_def Let_def recentRequests_def flip: ordered_def)
qed

end
