(* ===== verification/LemmingdRun.thy ===== *)
theory LemmingdRun
  imports LemmingdMain
begin

text \<open>
  The start of lemmingd (\<open>run\<close> in \<open>cmd/lemmingd/main.go\<close>): the command that is chosen, the stages of a start up to serving, what
  happens after serving, and how the parts built at the start depend on each other: the guard of the proxy reads the trust list of
  the service, and the handlers read its router.
\<close>

section \<open>The command\<close>

datatype entry = EntryMCP "string list" | EntryConfig "string list" | EntryProxy bool "string list"

definition dispatch :: "string list \<Rightarrow> entry" where
  "dispatch args =
     (if args \<noteq> [] \<and> args ! 0 = ''mcp'' then EntryMCP (tl args)
      else if args \<noteq> [] \<and> args ! 0 = ''config'' then EntryConfig (tl args)
      else if args \<noteq> [] \<and> args ! 0 = ''firefox'' then EntryProxy True (tl args)
      else EntryProxy False args)"

section \<open>Starting\<close>

text \<open>
  The flags as parsed, and the outcomes of a start: finding the paths and parsing the flags, the files read, the write of a first
  configuration, the authority, the issuer, and the calls of the control server.
\<close>

record lemmingd_io =
  li_paths :: bool
  li_flags :: bool
  li_version :: bool
  li_config :: string
  li_listen :: string
  li_args :: "string list"
  li_read :: "string \<Rightarrow> bool"
  li_tmp :: string
  li_part :: doc
  li_fail :: "config_step option"
  li_ca :: bool
  li_issuer :: bool
  li_control :: start_io

record lemmingd_running =
  lr_config :: config
  lr_service :: service_state
  lr_server :: "server option"

text \<open>The guard's options while the service is in state \<open>s\<close>: the trust list is shared.\<close>

definition lemmingd_options :: "config \<Rightarrow> service_state \<Rightarrow> options" where
  "lemmingd_options cfg s = \<lparr>op_RemoteClients = cf_AllowRemoteClients cfg, op_ConnectPorts = cf_ConnectPorts cfg,
     op_Trusted = Some (ls_trusted s), op_ListenAddress = cf_Listen cfg\<rparr>"

definition start_control :: "unix \<Rightarrow> lemmingd_io \<Rightarrow> config \<Rightarrow> doc fs \<Rightarrow> (string, server option) result \<times> doc fs" where
  "start_control ux io cfg fs =
     (if \<not> cf_ControlAPI cfg then (Ok None, fs)
      else case Control.Start ux (li_control io) (filepath_dir (li_config io)) ''lemmingd'' fs of
        (Err e, fs') \<Rightarrow> (Err e, fs')
      | (Ok server, fs') \<Rightarrow> (Ok (Some server), fs'))"

text \<open>An exit code, or what runs when serving starts; and the files then.\<close>

definition lemmingd_start :: "unix \<Rightarrow> lemmingd_io \<Rightarrow> bool \<Rightarrow> doc fs \<Rightarrow> (int, lemmingd_running) result \<times> doc fs" where
  "lemmingd_start ux io firefoxMode fs =
     (if \<not> li_paths io then (Err 1, fs)
      else if \<not> li_flags io then (Err 2, fs)
      else if li_version io then (Err 0, fs)
      else if firefoxMode \<and> length (li_args io) \<noteq> 1 then (Err 2, fs)
      else case ConfigFile.LoadOrCreate (li_read io) (li_tmp io) (li_part io) (li_fail io) (li_config io) Lemmingd [] fs of
        (Err _, fs1) \<Rightarrow> (Err 1, fs1)
      | (Ok (cfg0, created), fs1) \<Rightarrow>
          (case override_listen (li_listen io) Lemmingd cfg0 of
             Err _ \<Rightarrow> (Err 1, fs1)
           | Ok cfg \<Rightarrow>
               if \<not> li_ca io then (Err 1, fs1)
               else case NewService (li_read io) (li_config io) cfg fs1 of
                 Err _ \<Rightarrow> (Err 1, fs1)
               | Ok s \<Rightarrow>
                   if \<not> li_issuer io then (Err 1, fs1)
                   else case start_control ux io cfg fs1 of
                     (Err _, fs2) \<Rightarrow> (Err 1, fs2)
                   | (Ok server, fs2) \<Rightarrow> (Ok \<lparr>lr_config = cfg, lr_service = s, lr_server = server\<rparr>, fs2)))"

text \<open>\<open>filepath.Join\<close> of the result of \<open>filepath.Dir\<close> and a plain name.\<close>

definition join_dir :: "string \<Rightarrow> string \<Rightarrow> string" where
  "join_dir dir name = (if dir = ''.'' then name else if dir = ''/'' then ''/'' @ name else dir @ ''/'' @ name)"

text \<open>The Firefox to launch once the proxy listens, and what \<open>onReady\<close> returns.\<close>

definition lemmingd_firefox :: "lemmingd_io \<Rightarrow> config \<Rightarrow> string \<Rightarrow> string \<Rightarrow> string \<Rightarrow> ff_config" where
  "lemmingd_firefox io cfg caCertPath binary certutil =
     \<lparr>fc_Profile = join_dir (filepath_dir (li_config io)) ''firefox-profile'', fc_CACertificate = caCertPath,
      fc_ProxyAddress = cf_Listen cfg, fc_URL = li_args io ! 0, fc_Binary = binary, fc_NSSCertutil = certutil\<rparr>"

definition on_ready :: "bool \<Rightarrow> (string list, 'b) result \<Rightarrow> string list option option" where
  "on_ready firefoxMode launched =
     (if \<not> firefoxMode then None else case launched of Inl e \<Rightarrow> Some (Some e) | Inr _ \<Rightarrow> Some None)"

text \<open>
  After serving: Firefox is closed if one was started, the exit code says whether serving ended well, and the control server is
  closed last, with the files as they are then.
\<close>

definition lemmingd_exit :: "unix \<Rightarrow> bool \<Rightarrow> bool \<Rightarrow> bool \<Rightarrow> ('e \<Rightarrow> bool) \<Rightarrow> 'e serving \<Rightarrow> close_io option \<Rightarrow> lemmingd_running \<Rightarrow> doc fs \<Rightarrow>
    int \<times> close_log option \<times> doc fs" where
  "lemmingd_exit ux shut rd rm closed serving browser running fs =
     (if ServeAfterListen closed serving = [] then 0 else 1,
      Option.bind browser closeFirefox,
      case lr_server running of None \<Rightarrow> fs | Some server \<Rightarrow> snd (CloseServer ux shut rd rm server fs))"

section \<open>Facts about a start\<close>

lemma endpoint_not_auto: "dir @ ''/'' @ FileName \<noteq> AutoRulesPath path"
proof
  assume "dir @ ''/'' @ FileName = AutoRulesPath path"
  then have "rev (dir @ ''/'' @ FileName) = rev (AutoRulesPath path)" by simp
  then show False by (auto simp: AutoRulesPath_def AutoRulesFile_def FileName_def split: option.splits)
qed

lemma NewService_autoPath: "NewService rd configPath cfg fs = Ok s \<Longrightarrow> ls_autoPath s = AutoRulesPath configPath"
  by (auto simp: NewService_def Let_def install_eq initial_service_def split: sum.splits)

lemma Start_frame:
  assumes "Control.Start ux io dir service fs = (r, fs')" "q \<noteq> st_tmp io" "q \<noteq> dir @ ''/'' @ FileName"
  shows "fs' q = fs q"
proof -
  have f: "after_write (writeEndpoint (st_tmp io) (st_part io) fail (dir @ ''/'' @ FileName) e fs) q = fs q" for fail e
    unfolding after_write_def writeEndpoint_def
    by (rule write_atomic_frame [OF assms(2,3) last_in_set]) (simp add: write_atomic_def Let_def)
  show ?thesis using assms(1) f by (auto simp: Control.Start_def Let_def split: option.splits)
qed

text \<open>What a start that succeeds has done: the configuration is checked, the service is new, then the control server starts.\<close>

lemma lemmingd_started:
  assumes "lemmingd_start ux io firefoxMode fs = (Ok run, fs')"
  obtains fs1 where "Validate (lr_config run) Lemmingd = None"
    "NewService (li_read io) (li_config io) (lr_config run) fs1 = Ok (lr_service run)"
    "start_control ux io (lr_config run) fs1 = (Ok (lr_server run), fs')"
proof -
  obtain cfg0 created fs1 where l: "ConfigFile.LoadOrCreate (li_read io) (li_tmp io) (li_part io) (li_fail io) (li_config io) Lemmingd [] fs =
      (Ok (cfg0, created), fs1)"
    using assms(1) by (auto simp: lemmingd_start_def split: if_splits prod.splits sum.splits)
  have c: "override_listen (li_listen io) Lemmingd cfg0 = Ok (lr_config run)"
    "NewService (li_read io) (li_config io) (lr_config run) fs1 = Ok (lr_service run)"
    "start_control ux io (lr_config run) fs1 = (Ok (lr_server run), fs')"
    using assms l by (auto simp: lemmingd_start_def split: if_splits prod.splits sum.splits)
  then show ?thesis using that override_listen_Ok [OF c(1) LoadOrCreate_Validate [OF l]] by simp
qed

lemma Validate_local:
  "Validate cfg svc = None \<Longrightarrow> \<not> cf_AllowRemoteClients cfg \<Longrightarrow> \<exists>host port. SplitHostPort (cf_Listen cfg) = Ok (host, port) \<and> isLoopback host"
  by (auto simp: Validate_def validateListen_def split: if_splits option.splits sum.splits prod.splits)

lemma Trim_plain: "\<forall>c \<in> set s. c \<notin> set cs \<Longrightarrow> Trim s cs = s"
proof -
  assume a: "\<forall>c \<in> set s. c \<notin> set cs"
  have id: "dropWhile (\<lambda>c. c \<in> set cs) t = t" if "\<forall>c \<in> set t. c \<notin> set cs" for t using that by (cases t) auto
  have "dropWhile (\<lambda>c. c \<in> set cs) (rev s) = rev s" using id [of "rev s"] a by simp
  then show ?thesis using id [OF a] by (simp add: Trim_def)
qed

text \<open>The name the guard looks up for a plain host, with or without a port.\<close>

lemma host_name_plain:
  assumes "plain_host h" "port \<noteq> []" "list_all is_digit port"
  shows "host_name (h @ '':'' @ port) = TrimSuffix (ToLower h) ''.''"
    "host_name (TrimSuffix (ToLower h) ''.'') = TrimSuffix (ToLower h) ''.''"
    "host_name (TrimSuffix (ToLower h) ''.'' @ '':'' @ port) = TrimSuffix (ToLower h) ''.''"
proof -
  let ?n = "TrimSuffix (ToLower h) ''.''"
  note n = plain_host_norm [OF assms(1)]
  have h: "CHR '':'' \<notin> set h" "CHR ''['' \<notin> set h" "CHR '']'' \<notin> set h" using assms(1) by (auto simp: plain_host_def)
  have port: "CHR '':'' \<notin> set port" "CHR ''['' \<notin> set port" "CHR '']'' \<notin> set port"
    using assms(3) by (auto simp: list_all_iff is_digit_def)
  have trim: "Trim h ''[]'' = h" "Trim ?n ''[]'' = ?n" using h n(7,8) by (auto intro!: Trim_plain)
  have "normalizeHostname ?n = ?n" using n(3-5) by (simp add: normalizeHostname_def)
  then show "host_name (h @ '':'' @ port) = ?n" "host_name ?n = ?n" "host_name (?n @ '':'' @ port) = ?n"
    using trim n(1,6) SplitHostPort_plain [OF h port] SplitHostPort_plain [OF n(6-8) port]
    by (simp_all add: host_name_def SplitHostPort_no_colon)
qed

section \<open>Properties\<close>

text \<open>
  C5: What serves after a start of lemmingd fits together. The configuration is valid, also with the \<open>-listen\<close> flag, so without remote
  clients the proxy listens on a loopback address; the service is one of a run on that configuration, over the files as they are
  once the control API is up; the guard of the proxy trusts exactly the targets and hosts of the service's router; and a control server
  runs exactly if the configuration asks for it, with its endpoint next to the configuration.
\<close>

theorem start_consistent:
  assumes "lemmingd_start ux io firefoxMode fs = (Ok run, fs')" "st_tmp (li_control io) \<noteq> AutoRulesPath (li_config io)"
  shows "Validate (lr_config run) Lemmingd = None \<and>
    (\<not> cf_AllowRemoteClients (lr_config run) \<longrightarrow>
       (\<exists>host port. SplitHostPort (cf_Listen (lr_config run)) = Ok (host, port) \<and> isLoopback host)) \<and>
    service_run (li_config io) (lr_config run) (lr_service run, fs') \<and>
    (\<exists>r. ls_router (lr_service run) = Some r \<and>
       op_Trusted (lemmingd_options (lr_config run) (lr_service run)) = Some (TrustSet (Targets r) (Domains r))) \<and>
    (case lr_server run of
       None \<Rightarrow> \<not> cf_ControlAPI (lr_config run)
     | Some server \<Rightarrow> cf_ControlAPI (lr_config run) \<and> sv_path server = filepath_dir (li_config io) @ ''/'' @ FileName)"
proof -
  let ?cfg = "lr_config run" and ?s = "lr_service run"
  obtain fs1 where valid: "Validate ?cfg Lemmingd = None" and new: "NewService (li_read io) (li_config io) ?cfg fs1 = Ok ?s"
    and control: "start_control ux io ?cfg fs1 = (Ok (lr_server run), fs')"
    using assms(1) by (rule lemmingd_started)
  have server: "case lr_server run of None \<Rightarrow> \<not> cf_ControlAPI ?cfg \<and> fs' = fs1
     | Some server \<Rightarrow> cf_ControlAPI ?cfg \<and> Control.Start ux (li_control io) (filepath_dir (li_config io)) ''lemmingd'' fs1 = (Ok server, fs')"
    using control by (cases "lr_server run") (auto simp: start_control_def split: if_splits prod.splits sum.splits)
  then have "fs' (AutoRulesPath (li_config io)) = fs1 (AutoRulesPath (li_config io))"
    using Start_frame [OF _ assms(2) [symmetric] endpoint_not_auto [symmetric]] by (cases "lr_server run") auto
  moreover have "ls_autoPath ?s = AutoRulesPath (li_config io)"
    using NewService_autoPath [OF new] .
  ultimately have run: "service_run (li_config io) ?cfg (?s, fs')"
    using service_run.step [OF service_run.start [OF new] service_step.edit] by simp
  moreover have "\<exists>r. ls_router ?s = Some r \<and> ls_trusted ?s = TrustSet (Targets r) (Domains r)"
    using service_run_inv [OF run] by (auto simp: service_inv_def follows_def)
  moreover have "\<not> cf_AllowRemoteClients ?cfg \<longrightarrow> (\<exists>host port. SplitHostPort (cf_Listen ?cfg) = Ok (host, port) \<and> isLoopback host)"
    using Validate_local [OF valid] by simp
  moreover have "case lr_server run of None \<Rightarrow> \<not> cf_ControlAPI ?cfg
     | Some server \<Rightarrow> cf_ControlAPI ?cfg \<and> sv_path server = filepath_dir (li_config io) @ ''/'' @ FileName"
    using server by (auto simp: Start_Ok split: option.splits)
  ultimately show ?thesis using valid by (simp add: lemmingd_options_def)
qed

definition example_lemmingd :: lemmingd_io where
  "example_lemmingd = \<lparr>li_paths = True, li_flags = True, li_version = False, li_config = ''c'', li_listen = [], li_args = [],
     li_read = (\<lambda>_. True), li_tmp = ''t'', li_part = ([], True), li_fail = None, li_ca = True, li_issuer = True, li_control = example_start_io\<rparr>"

lemma example_lemmingd_start:
  "lemmingd_start example_unix example_lemmingd False example_fs =
     (Ok \<lparr>lr_config = example_config, lr_service = example_start, lr_server = None\<rparr>, example_fs)"
proof -
  have "\<not> cf_ControlAPI example_config" by code_simp
  then show ?thesis
    by (simp add: lemmingd_start_def example_lemmingd_def example_load example_started override_listen_def start_control_def)
qed

lemma start_consistent_witness:
  "Validate example_config Lemmingd = None \<and> service_run ''c'' example_config (example_start, example_fs) \<and> \<not> cf_ControlAPI example_config"
proof -
  have "st_tmp (li_control example_lemmingd) \<noteq> AutoRulesPath (li_config example_lemmingd)" by code_simp
  from start_consistent [OF example_lemmingd_start this] show ?thesis by (simp add: example_lemmingd_def)
qed

text \<open>
  C6: With remote clients the guard never stands in the way of a rule for a host name or an IPv4 literal. In every state of a running service
  that a request can see, even while a change of rules is being installed, a CONNECT to such a host is refused at most for its port; the requests forwarded
  from its tunnel pass the check of destinations; and the dial to the rule's target is never refused by the guard, whatever the target
  resolves to.
\<close>

theorem routed_request_admitted:
  assumes run: "service_run configPath cfg (s, fs)" "s1 \<in> set (install_trace s r)" "ls_router s1 = Some rt"
    and host: "plain_host h" "port \<noteq> []" "list_all is_digit port"
    and connect: "lemmingd_connect rt (h @ '':'' @ port) = Intercept connectHost"
    and serve: "serveMITM connectHost written first = Serve cert scheme authority"
    and forward: "mitmHandler scheme authority request u = Forward request'" "req_url request' = Some u'"
    and g: "g = newDestinationGuard ifaces (lemmingd_options cfg s1)"
  shows "handle_connect (lemmingd_options cfg s1) g (h @ '':'' @ port) \<in> {None, Some ''port''} \<and>
    (\<exists>hd. handle_request (lemmingd_options cfg s1) g u' (req_header request') = Ok hd) \<and>
    (case Rewrite rt request' u' of
       (request2, True) \<Rightarrow> (\<exists>u2. req_url request2 = Some u2 \<and> DialContext g resolve dial (url_host u2) \<noteq> Err ErrDestinationDenied)
     | _ \<Rightarrow> True)"
proof -
  let ?n = "TrimSuffix (ToLower h) ''.''"
  have c: "connectHost = h @ '':'' @ port" "Intercepts rt (h @ '':'' @ port)"
    using connect by (auto simp: lemmingd_connect_def split: if_splits)
  then obtain rule where rule: "host_rule rt ?n = Some rule" using normalizeHost_tunnel(1) [OF host] by (auto simp: Intercepts_def)
  have trusted: "trust_target (gd_trusted g) (rl_Target rule)" "trust_host (gd_trusted g) ?n"
    using install_trusted [OF run rule] plain_host_norm(3-5) [OF host(1)]
    by (simp_all add: g newDestinationGuard_def lemmingd_options_def normalizeHostname_def)
  have u': "url_host u' = authority" using forward by (auto simp: mitmHandler_def Let_def split: if_splits)
  note auth = tunnel_authority [OF host serve [unfolded c(1)]]
  have "host_name (url_host u') = ?n" "normalizeHost (url_host u') = ?n"
    using auth host_name_plain [OF host] normalizeHost_tunnel [OF host] by (auto simp: u')
  then have admitted: "\<not> deniedHost g (h @ '':'' @ port)" "\<not> deniedHost g (url_host u')" "request_rule rt request' u' = Some rule"
    using trusted(2) rule host_name_plain [OF host] by (simp_all add: deniedHost_iff admitted_name_def request_rule_def)
  have never: "dial_addrs (\<lambda>_. None) dial f as \<noteq> Err ErrDestinationDenied" if "f \<noteq> Some ErrDestinationDenied" for f as
    using that by (induction as arbitrary: f) (auto simp: Let_def split: option.splits)
  have "DialContext g resolve dial (rl_Target rule) \<noteq> Err ErrDestinationDenied"
    using trusted(1) never by (simp add: DialContext_def)
  then show ?thesis using admitted by (auto simp: handle_connect_def handle_request_def Rewrite_def)
qed

text \<open>The example with remote clients: a request to \<open>b.test\<close> goes to a loopback address the guard refuses otherwise.\<close>

definition remote_config :: config where
  "remote_config = example_config\<lparr>cf_AllowRemoteClients := True\<rparr>"

lemma routed_request_admitted_witness:
  "\<exists>s rt u2. service_run ''c'' remote_config (s, example_fs) \<and> ls_router s = Some rt \<and>
     req_url (fst (Rewrite rt \<lparr>req_method = ''GET'', req_url = Some \<lparr>url_scheme = ''https'', url_user = False, url_host = ''b.test'',
           url_path = ''/x'', url_query = [], url_fragment = []\<rparr>, req_host = ''b.test'', req_header = []\<rparr>
         \<lparr>url_scheme = ''https'', url_user = False, url_host = ''b.test'', url_path = ''/x'', url_query = [], url_fragment = []\<rparr>)) = Some u2 \<and>
     url_host u2 = ''127.0.0.1:82'' \<and>
     DialContext (newDestinationGuard None (lemmingd_options remote_config (install s rt))) (\<lambda>a. [a]) (\<lambda>_. True) (url_host u2) \<noteq> Err ErrDestinationDenied"
proof -
  let ?rule = "\<lparr>rl_Scheme = ''http'', rl_Target = ''127.0.0.1:82'', rl_Include = [''/''], rl_Exclude = [''/api'']\<rparr>"
  have "(case NewService (\<lambda>_. True) ''c'' remote_config example_fs of Ok s \<Rightarrow>
      (case ls_router s of Some rt \<Rightarrow> host_rule rt ''b.test'' = Some ?rule | None \<Rightarrow> False) | Err _ \<Rightarrow> False)"
    by code_simp
  then obtain s rt where s: "NewService (\<lambda>_. True) ''c'' remote_config example_fs = Ok s" "ls_router s = Some rt" "host_rule rt ''b.test'' = Some ?rule"
    by (auto split: option.splits sum.splits)
  let ?req = "\<lparr>req_method = ''GET'', req_url = None, req_host = ''b.test'', req_header = []\<rparr>"
  let ?u = "\<lparr>url_scheme = [], url_user = False, url_host = [], url_path = ''/x'', url_query = [], url_fragment = []\<rparr>"
  let ?u' = "?u\<lparr>url_scheme := ''https'', url_host := ''b.test''\<rparr>"
  have trace: "install s rt \<in> set (install_trace s rt)" "ls_router (install s rt) = Some rt"
    by (simp_all add: install_def install_trace_def store_router_def set_trusted_def Let_def)
  have c: "plain_host ''b.test''" "serveMITM (''b.test'' @ '':443'') True (Some 22) = Serve (Some ''b.test'') ''https'' ''b.test''"
    "mitmHandler ''https'' ''b.test'' ?req ?u = Forward (?req\<lparr>req_url := Some ?u'\<rparr>)" "normalizeHost (''b.test'' @ '':443'') = ''b.test''"
    "normalizeHost ''b.test'' = ''b.test''" "matches ''/x'' ?rule"
    by code_simp+
  have d: "(''443'' :: string) \<noteq> []" "list_all is_digit ''443''" by (simp_all add: is_digit_def)
  have i: "lemmingd_connect rt (''b.test'' @ '':'' @ ''443'') = Intercept (''b.test'' @ '':443'')"
    using s(3) c(4) by (simp add: lemmingd_connect_def Intercepts_def)
  have rw: "Rewrite rt (?req\<lparr>req_url := Some ?u'\<rparr>) ?u' = (?req\<lparr>req_url := Some (?u'\<lparr>url_scheme := ''http'', url_host := ''127.0.0.1:82''\<rparr>)\<rparr>, True)"
    using s(3) c(5,6) by (simp add: Rewrite_def request_rule_def)
  have run: "service_run ''c'' remote_config (s, example_fs)" using s(1) by (rule service_run.start)
  from routed_request_admitted [OF run trace c(1) d i c(2,3) _ refl, of ?u' None "\<lambda>a. [a]" "\<lambda>_. True"] run s(2) rw
  show ?thesis by (intro exI [of _ s] exI [of _ rt] exI [of _ "?u'\<lparr>url_scheme := ''http'', url_host := ''127.0.0.1:82''\<rparr>"]) simp
qed

end
