(* ===== verification/Platform.thy ===== *)
theory Platform
  imports Firefox
begin

text \<open>
  What differs between operating systems for the managed Firefox (\<open>lock_unix.go\<close>, \<open>platform_windows.go\<close>, \<open>platform_other.go\<close>,
  \<open>process_unix.go\<close>, \<open>process_other.go\<close>, \<open>quit_unix.go\<close>, \<open>quit_darwin.go\<close> in \<open>internal/firefox\<close>): the build constraints that choose a
  file, the test of Firefox's own lock, the attributes of the started process, and the request to quit. Outcomes of system calls and of
  the commands run are arguments.
\<close>

section \<open>Build constraints\<close>

definition unix_systems :: "string list" where
  "unix_systems = [''aix'', ''android'', ''darwin'', ''dragonfly'', ''freebsd'', ''hurd'', ''illumos'', ''ios'', ''linux'', ''netbsd'',
     ''openbsd'', ''solaris'']"

text \<open>Whether a build for \<open>goos\<close> satisfies a tag; some systems also satisfy the tag of another.\<close>

definition build_tag :: "string \<Rightarrow> string \<Rightarrow> bool" where
  "build_tag goos tag \<longleftrightarrow> goos = tag \<or> (tag = ''unix'' \<and> goos \<in> set unix_systems) \<or> (goos = ''android'' \<and> tag = ''linux'') \<or>
     (goos = ''ios'' \<and> tag = ''darwin'') \<or> (goos = ''illumos'' \<and> tag = ''solaris'')"

datatype source_file = LockUnix | PlatformWindows | PlatformOther | ProcessUnix | ProcessOther | QuitUnix | QuitDarwin

fun built :: "string \<Rightarrow> source_file \<Rightarrow> bool" where
  "built goos LockUnix \<longleftrightarrow> build_tag goos ''darwin'' \<or> build_tag goos ''linux''"
| "built goos PlatformWindows \<longleftrightarrow> build_tag goos ''windows''"
| "built goos PlatformOther \<longleftrightarrow> \<not> build_tag goos ''darwin'' \<and> \<not> build_tag goos ''linux'' \<and> \<not> build_tag goos ''windows''"
| "built goos ProcessUnix \<longleftrightarrow> build_tag goos ''unix''"
| "built goos ProcessOther \<longleftrightarrow> \<not> build_tag goos ''unix'' \<and> \<not> build_tag goos ''windows''"
| "built goos QuitUnix \<longleftrightarrow> build_tag goos ''unix'' \<and> \<not> build_tag goos ''darwin''"
| "built goos QuitDarwin \<longleftrightarrow> build_tag goos ''darwin''"

section \<open>Firefox's own lock\<close>

datatype lstat_io = LstatOk | LstatMissing | LstatFailed

fun inspect_locks :: "(string \<Rightarrow> lstat_io) \<Rightarrow> string \<Rightarrow> string list \<Rightarrow> (string, bool) result" where
  "inspect_locks lstat profile [] = Ok False"
| "inspect_locks lstat profile (name # names) =
     (case lstat (path_join (CHR ''/'') [profile, name]) of
        LstatOk \<Rightarrow> Ok True
      | LstatFailed \<Rightarrow> Err ''inspect Firefox profile lock''
      | LstatMissing \<Rightarrow> inspect_locks lstat profile names)"

definition firefoxProfileLocked_other :: "(string \<Rightarrow> lstat_io) \<Rightarrow> string \<Rightarrow> (string, bool) result" where
  "firefoxProfileLocked_other lstat profile = inspect_locks lstat profile [''lock'', ''.parentlock'', ''parent.lock'']"

text \<open>Opening a file on Windows; the error codes are those of the system.\<close>

datatype open_io = Opened | OpenMissing | SharingViolation | AccessDenied | OpenFailed

definition firefoxProfileLocked_windows :: "(string \<Rightarrow> open_io) \<Rightarrow> string \<Rightarrow> (string, bool) result" where
  "firefoxProfileLocked_windows open_file profile =
     (let err = open_file (path_join (CHR 0x5C) [profile, ''parent.lock''])
      in if err = Opened then Ok False
         else if err = OpenMissing then Ok False
         else if err = SharingViolation \<or> err = AccessDenied then Ok True
         else Err ''inspect Firefox profile lock'')"

text \<open>What the process sees of a profile, on every system.\<close>

record native_io =
  ni_kill :: "int \<Rightarrow> signal_result"
  ni_parent :: fcntl_io
  ni_link :: link_io
  ni_open :: "string \<Rightarrow> open_io"
  ni_lstat :: "string \<Rightarrow> lstat_io"

definition profileLocked :: "string \<Rightarrow> native_io \<Rightarrow> string \<Rightarrow> (string, bool) result" where
  "profileLocked goos io profile =
     (if built goos LockUnix then firefoxProfileLocked (ni_kill io) (ni_parent io) (ni_link io)
      else if built goos PlatformWindows then firefoxProfileLocked_windows (ni_open io) profile
      else firefoxProfileLocked_other (ni_lstat io) profile)"

section \<open>The started process\<close>

record sys_proc_attr =
  sa_Setpgid :: bool

definition processAttributes_unix :: "sys_proc_attr option" where
  "processAttributes_unix = Some \<lparr>sa_Setpgid = True\<rparr>"

definition processAttributes_other :: "sys_proc_attr option" where
  "processAttributes_other = None"

definition processAttributes_windows :: "sys_proc_attr option" where
  "processAttributes_windows = None"

definition processAttributes :: "string \<Rightarrow> sys_proc_attr option" where
  "processAttributes goos =
     (if built goos ProcessUnix then processAttributes_unix
      else if built goos PlatformWindows then processAttributes_windows
      else processAttributes_other)"

section \<open>Asking Firefox to quit\<close>

text \<open>The error of sending a signal, and the result of running a command: whether it works, and its output.\<close>

definition requestQuit_unix :: "(string \<Rightarrow> string option) \<Rightarrow> string option" where
  "requestQuit_unix signal = signal ''SIGTERM''"

definition requestQuit_windows :: "(string \<Rightarrow> string list \<Rightarrow> bool \<times> string) \<Rightarrow> int \<Rightarrow> string option" where
  "requestQuit_windows run pid =
     (case run ''taskkill'' [''/PID'', FormatInt pid] of
        (ok, output) \<Rightarrow> if \<not> ok then Some (''taskkill: '' @ TrimSpace output) else None)"

definition squoted :: "string \<Rightarrow> string" where
  "squoted s = [char_of (39 :: nat)] @ s @ [char_of (39 :: nat)]"

definition quit_script :: "int \<Rightarrow> string" where
  "quit_script pid = ''ObjC.import('' @ squoted ''AppKit'' @ '');'' @
     ''var app = $.NSRunningApplication.runningApplicationWithProcessIdentifier('' @ FormatInt pid @ '');'' @
     ''(!app.isNil() && app.terminate) ? '' @ squoted ''ok'' @ '' : '' @ squoted ''failed''"

definition requestQuit_darwin :: "(string \<Rightarrow> string list \<Rightarrow> bool \<times> string) \<Rightarrow> int \<Rightarrow> string option" where
  "requestQuit_darwin run pid =
     (case run ''osascript'' [''-l'', ''JavaScript'', ''-e'', quit_script pid] of
        (ok, output) \<Rightarrow>
          let result = TrimSpace output
          in if \<not> ok then Some (''osascript: '' @ result)
             else if result \<noteq> ''ok'' then Some ''macOS did not accept the quit request''
             else None)"

definition requestQuit_other :: "string option" where
  "requestQuit_other = Some ''a quit request is not available on this system''"

record quit_io =
  qi_signal :: "string \<Rightarrow> string option"
  qi_run :: "string \<Rightarrow> string list \<Rightarrow> bool \<times> string"

definition requestQuit :: "string \<Rightarrow> quit_io \<Rightarrow> int \<Rightarrow> string option" where
  "requestQuit goos io pid =
     (if built goos QuitUnix then requestQuit_unix (qi_signal io)
      else if built goos QuitDarwin then requestQuit_darwin (qi_run io) pid
      else if built goos PlatformWindows then requestQuit_windows (qi_run io) pid
      else requestQuit_other)"

section \<open>Every build has one of each\<close>

text \<open>The files that define a function of the package, in a build for \<open>goos\<close>.\<close>

abbreviation defined_in :: "string \<Rightarrow> source_file list \<Rightarrow> source_file list" where
  "defined_in goos \<equiv> filter (built goos)"

lemma windows_not_unix: "build_tag goos ''windows'' \<Longrightarrow> \<not> build_tag goos ''unix'' \<and> \<not> build_tag goos ''darwin'' \<and> \<not> build_tag goos ''linux''"
  by (auto simp: build_tag_def unix_systems_def)

lemma darwin_unix: "build_tag goos ''darwin'' \<Longrightarrow> build_tag goos ''unix'' \<and> \<not> build_tag goos ''linux''"
  by (auto simp: build_tag_def unix_systems_def)

lemma build_selects_one:
  "length (defined_in goos [LockUnix, PlatformWindows, PlatformOther]) = 1"
  "length (defined_in goos [ProcessUnix, PlatformWindows, ProcessOther]) = 1"
  "length (defined_in goos [QuitUnix, QuitDarwin, PlatformWindows, ProcessOther]) = 1"
  using windows_not_unix [of goos] darwin_unix [of goos]
  by (cases "build_tag goos ''windows''"; cases "build_tag goos ''darwin''"; cases "build_tag goos ''unix''"; simp)+

section \<open>What the lock test says\<close>

text \<open>
  A running Firefox on the profile, as Firefox documents it: on Linux and macOS it holds a write lock on \<open>.parentlock\<close>, on Windows it
  has \<open>parent.lock\<close> open without sharing, and elsewhere one of its lock files is there and can be inspected.
\<close>

definition lock_files :: "string \<Rightarrow> string list" where
  "lock_files profile = map (\<lambda>name. path_join (CHR ''/'') [profile, name]) [''lock'', ''.parentlock'', ''parent.lock'']"

definition holds_profile :: "string \<Rightarrow> native_io \<Rightarrow> string \<Rightarrow> bool" where
  "holds_profile goos io profile =
     (if built goos LockUnix then ni_parent io = LockDenied
      else if built goos PlatformWindows then
        ni_open io (path_join (CHR 0x5C) [profile, ''parent.lock'']) \<in> {SharingViolation, AccessDenied}
      else list_ex (\<lambda>p. ni_lstat io p = LstatOk) (lock_files profile))"

text \<open>Nothing on the system speaks for a running Firefox.\<close>

definition no_trace :: "string \<Rightarrow> native_io \<Rightarrow> string \<Rightarrow> bool" where
  "no_trace goos io profile =
     (if built goos LockUnix then ni_parent io \<in> {FileMissing, LockFree} \<and> symlinkLockHeld (ni_kill io) (ni_link io) = Ok False
      else if built goos PlatformWindows then ni_open io (path_join (CHR 0x5C) [profile, ''parent.lock'']) \<in> {Opened, OpenMissing}
      else list_all (\<lambda>p. ni_lstat io p = LstatMissing) (lock_files profile))"

lemma inspect_locks_iff:
  "inspect_locks lstat profile names = Ok False \<longleftrightarrow> list_all (\<lambda>n. lstat (path_join (CHR ''/'') [profile, n]) = LstatMissing) names"
  by (induction names) (simp_all split: lstat_io.split)

lemma unix_free_iff:
  "firefoxProfileLocked kill p link = Ok False \<longleftrightarrow> p \<in> {FileMissing, LockFree} \<and> symlinkLockHeld kill link = Ok False"
  by (cases p) (simp_all add: firefoxProfileLocked_def fcntlLockHeld_def)

lemma windows_free_iff:
  "firefoxProfileLocked_windows f profile = Ok False \<longleftrightarrow> f (path_join (CHR 0x5C) [profile, ''parent.lock'']) \<in> {Opened, OpenMissing}"
  by (auto simp: firefoxProfileLocked_windows_def Let_def)

lemma other_free_iff:
  "firefoxProfileLocked_other lstat profile = Ok False \<longleftrightarrow> list_all (\<lambda>p. lstat p = LstatMissing) (lock_files profile)"
  unfolding firefoxProfileLocked_other_def inspect_locks_iff lock_files_def by (simp add: list_all_iff)

lemma free_iff_no_trace: "profileLocked goos io profile = Ok False \<longleftrightarrow> no_trace goos io profile"
  by (cases "built goos LockUnix"; cases "built goos PlatformWindows";
      simp only: profileLocked_def no_trace_def unix_free_iff windows_free_iff other_free_iff if_True if_False simp_thms)

lemma held_not_free:
  assumes "holds_profile goos io profile"
  shows "\<not> no_trace goos io profile"
proof -
  have "\<not> list_all (\<lambda>p. ni_lstat io p = LstatMissing) ps" if "list_ex (\<lambda>p. ni_lstat io p = LstatOk) ps" for ps
    using that by (induction ps) auto
  then show ?thesis using assms by (auto simp: holds_profile_def no_trace_def simp del: built.simps split: if_splits)
qed

lemma launch_locked:
  assumes "prepareAndLaunch Quote fi io c W = (r, W')" "lc_locked io \<noteq> Ok False" "lc_unprep io"
  shows "(\<exists>e. r = Err e) \<and> W' = W"
  using assms(1)
proof (cases rule: prepareAndLaunch_cases)
  case (prepared certutil firefox W1)
  obtain m where "checkFirefoxProfileLock (lc_locked io) = Some m"
    using assms(2) by (cases "lc_locked io") (auto simp: checkFirefoxProfileLock_def)
  then have "r = Err [m]" "W1 = W\<lparr>fw_profile := (fw_profile W)\<lparr>pf_prep := True\<rparr>\<rparr>"
    using prepared(5) by (auto simp: launch_prepared_def)
  then show ?thesis using prepared(1,6) assms(3) by (cases W) (simp add: remove_preparation_def)
qed simp

section \<open>Properties\<close>

text \<open>
  On every system a launch respects the lock of Firefox itself. When a Firefox holds the profile in the way of its system, the launch
  fails and changes nothing: not the preferences, not the lease, no command is run. A launch that succeeds has seen nothing that speaks
  for a running Firefox; an inspection that fails counts as held.
\<close>

theorem launch_respects_native_lock:
  assumes "prepareAndLaunch Quote fi io c W = (r, W')" "lc_locked io = profileLocked (fi_goos fi) native (fc_Profile c)" "lc_unprep io"
  shows "(holds_profile (fi_goos fi) native (fc_Profile c) \<longrightarrow> (\<exists>e. r = Err e) \<and> W' = W) \<and>
    ((\<exists>b. r = Ok b) \<longrightarrow> no_trace (fi_goos fi) native (fc_Profile c)) \<and>
    ((\<exists>e. profileLocked (fi_goos fi) native (fc_Profile c) = Err e) \<longrightarrow> (\<exists>e. r = Err e) \<and> W' = W)"
proof (cases "no_trace (fi_goos fi) native (fc_Profile c)")
  case True
  moreover from this have "\<not> holds_profile (fi_goos fi) native (fc_Profile c)" using held_not_free by metis
  moreover have "profileLocked (fi_goos fi) native (fc_Profile c) = Ok False" using True unfolding free_iff_no_trace .
  ultimately show ?thesis by (simp del: built.simps)
next
  case False
  then have "(\<exists>e. r = Err e) \<and> W' = W" using launch_locked [OF assms(1) _ assms(3)] assms(2) free_iff_no_trace by simp
  then show ?thesis by auto
qed

definition windows_native :: native_io where
  "windows_native = \<lparr>ni_kill = (\<lambda>_. SignalNoProcess), ni_parent = FileMissing, ni_link = LinkMissing, ni_open = (\<lambda>_. SharingViolation), ni_lstat = (\<lambda>_. LstatMissing)\<rparr>"

lemma launch_respects_native_lock_witness:
  "snd (prepareAndLaunch id (example_finders\<lparr>fi_goos := ''windows''\<rparr>) (example_launch\<lparr>lc_locked := Ok True\<rparr>) example_ff example_world) = example_world"
proof -
  let ?fi = "example_finders\<lparr>fi_goos := ''windows''\<rparr>" and ?io = "example_launch\<lparr>lc_locked := Ok True\<rparr>"
  have io: "lc_locked ?io = profileLocked (fi_goos ?fi) windows_native (fc_Profile example_ff)" "lc_unprep ?io"
    "holds_profile (fi_goos ?fi) windows_native (fc_Profile example_ff)"
    by code_simp+
  obtain r W' where r: "prepareAndLaunch id ?fi ?io example_ff example_world = (r, W')" by (rule prod.exhaust)
  have "W' = example_world" using mp [OF conjunct1 [OF launch_respects_native_lock [OF r io(1,2)]] io(3)] by (rule conjunct2)
  then show ?thesis by (simp only: r snd_conv)
qed

end
