(* ===== verification/FirefoxRun.thy ===== *)
theory FirefoxRun
  imports Platform
begin

text \<open>
  A managed Firefox from its start to its end (\<open>internal/firefox/firefox.go\<close>): the process, the goroutine of the runner that waits for it,
  the goroutine of \<open>Launch\<close> that removes the lease of an exited Firefox, other launchers that use the profile, and \<open>Close\<close>,
  as one step relation. Every wait of \<open>Close\<close> ends with what it waits for or with its timer; when both are ready either can win.
\<close>

section \<open>Starting the process\<close>

text \<open>\<open>spawn\<close> starts a command with the attributes given and returns its process number, if it can.\<close>

definition Start_command :: "string \<Rightarrow> (string \<Rightarrow> string list \<Rightarrow> sys_proc_attr option \<Rightarrow> int option) \<Rightarrow> string \<Rightarrow> string list \<Rightarrow> int option" where
  "Start_command goos spawn name args = spawn name args (processAttributes goos)"

definition commandError :: "string \<Rightarrow> string \<Rightarrow> string \<Rightarrow> string" where
  "commandError action err output =
     (let detail = TrimSpace output
      in if detail = [] then action @ '': '' @ err else action @ '': '' @ err @ '': '' @ detail)"

section \<open>State\<close>

text \<open>
  The goroutine of \<open>Launch\<close>: waiting for the exit, about to clean up, about to close \<open>released\<close>, done. \<open>Close\<close>: not called; about to ask
  Firefox to quit; waiting for it; about to stop it; waiting again, with the error of the quit request; returned.
\<close>

datatype reaper = AwaitExit | CleanUp | Announce | Released

datatype closer = NotClosing | AskQuit | AwaitQuit | Stop "string list" | AwaitStop "string list" | Closed bool "string list"

record browser =
  bw_alive :: bool
  bw_waited :: bool
  bw_reaper :: reaper
  bw_profile :: profile
  bw_kept :: bool
  bw_closer :: closer
  bw_quits :: nat
  bw_kills :: nat
  bw_met :: close_io

text \<open>
  \<open>bw_kept\<close>: the clean-up could not do its work. \<open>bw_quits\<close>, \<open>bw_kills\<close>: the requests to quit that were sent, and the kills.
  \<open>bw_met\<close> is no state of the program: it records each outcome \<open>Close\<close> meets, in the fields of its sequential description.
\<close>

definition nothing_met :: close_io where
  "nothing_met = \<lparr>cs_running = True, cs_quit = False, cs_quits = False, cs_kill = KillFailed, cs_stops = False\<rparr>"

definition launched :: "profile \<Rightarrow> browser" where
  "launched P = \<lparr>bw_alive = True, bw_waited = False, bw_reaper = AwaitExit, bw_profile = P, bw_kept = False, bw_closer = NotClosing,
     bw_quits = 0, bw_kills = 0, bw_met = nothing_met\<rparr>"

definition Running :: "browser \<Rightarrow> bool" where
  "Running b \<longleftrightarrow> (if bw_reaper b = Released then False else True)"

section \<open>The parts of Close\<close>

definition close_begin :: "browser \<Rightarrow> closer" where
  "close_begin b = (if \<not> Running b then Closed False [] else AskQuit)"

definition close_asked :: "string option \<Rightarrow> closer" where
  "close_asked quitErr = (case quitErr of None \<Rightarrow> AwaitQuit | Some e \<Rightarrow> Stop [''ask Firefox to quit''])"

definition close_killed :: "string list \<Rightarrow> kill_outcome \<Rightarrow> closer" where
  "close_killed quitErr k = (if k = KillFailed then Closed True (quitErr @ [''stop Firefox'']) else AwaitStop quitErr)"

definition close_stopped :: "string list \<Rightarrow> bool \<Rightarrow> closer" where
  "close_stopped quitErr seen = (if seen then Closed True quitErr else Closed True (quitErr @ [''Firefox did not stop'']))"

section \<open>Steps\<close>

text \<open>
  The process and the two goroutines, and other launchers, which never write this launch's token. The exit can come at any time: the
  user quits, the request to quit works, or the kill does.
\<close>

inductive process_step :: "profileLease \<Rightarrow> browser \<Rightarrow> browser \<Rightarrow> bool" for lease where
  exits: "process_step lease b (b\<lparr>bw_alive := False\<rparr>)" if "bw_alive b"
| waits: "process_step lease b (b\<lparr>bw_waited := True\<rparr>)" if "\<not> bw_alive b" "\<not> bw_waited b"
| notices: "process_step lease b (b\<lparr>bw_reaper := CleanUp\<rparr>)" if "bw_waited b" "bw_reaper b = AwaitExit"
| cleans: "process_step lease b (b\<lparr>bw_reaper := Announce, bw_profile := removeExitedLease mkdir rd rm lease (bw_profile b),
      bw_kept := (pf_prep (bw_profile b) \<or> \<not> mkdir \<or> \<not> rd \<or> \<not> rm)\<rparr>)" if "bw_reaper b = CleanUp"
| announces: "process_step lease b (b\<lparr>bw_reaper := Released\<rparr>)" if "bw_reaper b = Announce"
| launchers: "process_step lease b (b\<lparr>bw_profile := P\<rparr>)"
    if "lease_owner P = Some (pl_token lease) \<Longrightarrow> lease_owner (bw_profile b) = Some (pl_token lease)"

text \<open>A kill finds a finished process only after its exit, and cannot work on one that has been waited for.\<close>

inductive close_step :: "string \<Rightarrow> quit_io \<Rightarrow> int \<Rightarrow> browser \<Rightarrow> browser \<Rightarrow> bool" for goos io pid where
  asks: "close_step goos io pid b (b\<lparr>bw_closer := close_asked (requestQuit goos io pid),
      bw_quits := bw_quits b + (if requestQuit goos io pid = None then 1 else 0),
      bw_met := (bw_met b)\<lparr>cs_quit := (requestQuit goos io pid = None)\<rparr>\<rparr>)" if "bw_closer b = AskQuit"
| quits: "close_step goos io pid b (b\<lparr>bw_closer := Closed False [], bw_met := (bw_met b)\<lparr>cs_quits := True\<rparr>\<rparr>)"
    if "bw_closer b = AwaitQuit" "bw_reaper b = Released"
| quit_timeout: "close_step goos io pid b (b\<lparr>bw_closer := Stop [], bw_met := (bw_met b)\<lparr>cs_quits := False\<rparr>\<rparr>)" if "bw_closer b = AwaitQuit"
| kills: "close_step goos io pid b (b\<lparr>bw_closer := close_killed quitErr k, bw_kills := bw_kills b + (if k = Killed then 1 else 0),
      bw_met := (bw_met b)\<lparr>cs_kill := k\<rparr>\<rparr>)"
    if "bw_closer b = Stop quitErr" "k = Killed \<Longrightarrow> \<not> bw_waited b" "k = ProcessDone \<Longrightarrow> \<not> bw_alive b"
| stops: "close_step goos io pid b (b\<lparr>bw_closer := close_stopped quitErr True, bw_met := (bw_met b)\<lparr>cs_stops := True\<rparr>\<rparr>)"
    if "bw_closer b = AwaitStop quitErr" "bw_reaper b = Released"
| stop_timeout: "close_step goos io pid b (b\<lparr>bw_closer := close_stopped quitErr False, bw_met := (bw_met b)\<lparr>cs_stops := False\<rparr>\<rparr>)"
    if "bw_closer b = AwaitStop quitErr"

inductive browser_step :: "string \<Rightarrow> quit_io \<Rightarrow> int \<Rightarrow> profileLease \<Rightarrow> browser \<Rightarrow> browser \<Rightarrow> bool" for goos io pid lease where
  process: "process_step lease b b' \<Longrightarrow> browser_step goos io pid lease b b'"
| begins: "bw_closer b = NotClosing \<Longrightarrow> browser_step goos io pid lease b
    (b\<lparr>bw_closer := close_begin b, bw_met := (bw_met b)\<lparr>cs_running := Running b\<rparr>\<rparr>)"
| closes: "close_step goos io pid b b' \<Longrightarrow> browser_step goos io pid lease b b'"

inductive_cases process_stepE: "process_step lease b b'"
inductive_cases close_stepE: "close_step goos io pid b b'"
inductive_cases browser_stepE: "browser_step goos io pid lease b b'"

abbreviation browser_run :: "string \<Rightarrow> quit_io \<Rightarrow> int \<Rightarrow> profileLease \<Rightarrow> browser \<Rightarrow> browser \<Rightarrow> bool" where
  "browser_run goos io pid lease \<equiv> (browser_step goos io pid lease)\<^sup>*\<^sup>*"

section \<open>The invariant\<close>

text \<open>
  What the place of \<open>Close\<close> says about the requests and kills that were sent and the outcomes it met: after the wait for
  quitting has ended without the announcement, and after the kill.
\<close>

definition asked :: "string list \<Rightarrow> nat \<Rightarrow> close_io \<Rightarrow> bool" where
  "asked quitErr q m \<longleftrightarrow> cs_running m \<and> \<not> (cs_quit m \<and> cs_quits m) \<and>
     (if cs_quit m then quitErr = [] \<and> q = 1 else quitErr = [''ask Firefox to quit''] \<and> q = 0)"

definition killed :: "nat \<Rightarrow> bool \<Rightarrow> close_io \<Rightarrow> bool" where
  "killed k alive m \<longleftrightarrow> k = (if cs_kill m = Killed then 1 else 0) \<and> (cs_kill m = ProcessDone \<longrightarrow> \<not> alive)"

fun closer_ok :: "closer \<Rightarrow> nat \<Rightarrow> nat \<Rightarrow> bool \<Rightarrow> bool \<Rightarrow> close_io \<Rightarrow> bool" where
  "closer_ok NotClosing q k released alive m \<longleftrightarrow> q = 0 \<and> k = 0"
| "closer_ok AskQuit q k released alive m \<longleftrightarrow> q = 0 \<and> k = 0 \<and> cs_running m \<and> \<not> cs_quits m"
| "closer_ok AwaitQuit q k released alive m \<longleftrightarrow> q = 1 \<and> k = 0 \<and> cs_running m \<and> cs_quit m"
| "closer_ok (Stop e) q k released alive m \<longleftrightarrow> k = 0 \<and> asked e q m"
| "closer_ok (AwaitStop e) q k released alive m \<longleftrightarrow> asked e q m \<and> killed k alive m \<and> cs_kill m \<noteq> KillFailed"
| "closer_ok (Closed forced e) q k released alive m \<longleftrightarrow>
     (if forced then killed k alive m \<and> (\<exists>qe. asked qe q m \<and>
          (if cs_kill m = KillFailed then e = qe @ [''stop Firefox'']
           else if cs_stops m then e = qe \<and> released else e = qe @ [''Firefox did not stop'']))
      else e = [] \<and> k = 0 \<and> released \<and> (if cs_running m then cs_quit m \<and> cs_quits m \<and> q = 1 else q = 0))"

definition browser_ok :: "profileLease \<Rightarrow> browser \<Rightarrow> bool" where
  "browser_ok lease b \<longleftrightarrow>
     (bw_waited b \<longrightarrow> \<not> bw_alive b) \<and>
     (bw_reaper b \<noteq> AwaitExit \<longrightarrow> bw_waited b) \<and>
     (bw_reaper b \<in> {Announce, Released} \<longrightarrow> \<not> bw_kept b \<longrightarrow> lease_owner (bw_profile b) \<noteq> Some (pl_token lease)) \<and>
     (bw_closer b = NotClosing \<longrightarrow> \<not> cs_quits (bw_met b)) \<and>
     closer_ok (bw_closer b) (bw_quits b) (bw_kills b) (bw_reaper b = Released) (bw_alive b) (bw_met b)"

lemma closer_ok_mono:
  assumes "closer_ok c q k r a m" "r \<Longrightarrow> r'" "a' \<Longrightarrow> a"
  shows "closer_ok c q k r' a' m"
  using assms by (cases c) (auto simp: killed_def split: if_splits)

lemma removeExitedLease_clears:
  assumes "\<not> pf_prep P"
  shows "lease_owner (removeExitedLease True True True lease P) \<noteq> Some (pl_token lease)"
  using assms remove_lease_owner [of lease "P\<lparr>pf_prep := True\<rparr>"]
  by (auto simp: removeExitedLease_def acquirePreparationLock_def remove_preparation_def lease_owner_def)

lemma process_step_ok:
  assumes "process_step lease b b'" "browser_ok lease b"
  shows "browser_ok lease b' \<and> bw_closer b' = bw_closer b \<and> bw_quits b' = bw_quits b \<and> bw_kills b' = bw_kills b \<and> bw_met b' = bw_met b"
  using assms
proof (cases rule: process_step.cases)
  case (cleans mkdir rd rm)
  then show ?thesis using assms(2) removeExitedLease_clears [of "bw_profile b" lease] by (auto simp: browser_ok_def)
next
  case announces
  then show ?thesis using assms(2) closer_ok_mono [of _ _ _ _ "bw_alive b" _ True "bw_alive b"] by (auto simp: browser_ok_def)
next
  case exits
  then show ?thesis using assms(2) closer_ok_mono [of _ _ _ _ True _ _ False] by (auto simp: browser_ok_def)
qed (auto simp: browser_ok_def)

lemma close_step_ok:
  assumes "close_step goos io pid b b'" "browser_ok lease b"
  shows "browser_ok lease b'"
  using assms
  by (cases rule: close_step.cases)
    (auto simp: browser_ok_def close_asked_def close_killed_def close_stopped_def asked_def killed_def split: option.splits if_splits)

lemma browser_step_ok:
  assumes "browser_step goos io pid lease b b'" "browser_ok lease b"
  shows "browser_ok lease b'"
  using assms
proof (cases rule: browser_step.cases)
  case begins
  then show ?thesis using assms(2) by (auto simp: browser_ok_def close_begin_def Running_def)
qed (use process_step_ok close_step_ok assms(2) in blast)+

lemma browser_run_ok: "browser_run goos io pid lease (launched P) b \<Longrightarrow> browser_ok lease b"
  by (induction rule: rtranclp_induct) (simp add: browser_ok_def launched_def nothing_met_def, rule browser_step_ok)

section \<open>Close ends\<close>

fun close_left :: "closer \<Rightarrow> nat" where
  "close_left (Closed forced e) = 0"
| "close_left (AwaitStop e) = 1"
| "close_left (Stop e) = 2"
| "close_left AwaitQuit = 3"
| "close_left _ = 4"

lemma close_step_left: "close_step goos io pid b b' \<Longrightarrow> close_left (bw_closer b') < close_left (bw_closer b)"
  by (cases rule: close_step.cases) (auto simp: close_asked_def close_killed_def close_stopped_def split: option.splits)

lemma close_step_enabled:
  assumes "bw_closer b \<noteq> NotClosing" "\<nexists>forced e. bw_closer b = Closed forced e"
  shows "\<exists>b'. close_step goos io pid b b'"
proof (cases "bw_closer b")
  case AskQuit
  show ?thesis by (rule exI, rule close_step.asks [OF AskQuit])
next
  case AwaitQuit
  then show ?thesis using close_step.quit_timeout by blast
next
  case (Stop e)
  then show ?thesis using close_step.kills [of b e KillFailed] by auto
next
  case (AwaitStop e)
  then show ?thesis using close_step.stop_timeout by blast
qed (use assms in auto)

text \<open>A run after the call of \<open>Close\<close>, with the number of its steps.\<close>

inductive close_run :: "string \<Rightarrow> quit_io \<Rightarrow> int \<Rightarrow> profileLease \<Rightarrow> nat \<Rightarrow> browser \<Rightarrow> browser \<Rightarrow> bool" for goos io pid lease where
  start: "close_run goos io pid lease 0 b b"
| other: "close_run goos io pid lease n b b' \<Longrightarrow> process_step lease b' b'' \<Longrightarrow> close_run goos io pid lease n b b''"
| mine: "close_run goos io pid lease n b b' \<Longrightarrow> close_step goos io pid b' b'' \<Longrightarrow> close_run goos io pid lease (Suc n) b b''"

lemma process_step_closer: "process_step lease b b' \<Longrightarrow> bw_closer b' = bw_closer b"
  by (cases rule: process_step.cases) auto

lemma close_step_not_begin: "close_step goos io pid b b' \<Longrightarrow> bw_closer b' \<noteq> NotClosing"
  by (cases rule: close_step.cases) (auto simp: close_asked_def close_killed_def close_stopped_def split: option.splits if_splits)

lemma close_run_left:
  "close_run goos io pid lease n b b' \<Longrightarrow> n + close_left (bw_closer b') \<le> close_left (bw_closer b) \<and>
     (bw_closer b \<noteq> NotClosing \<longrightarrow> bw_closer b' \<noteq> NotClosing)"
proof (induction rule: close_run.induct)
  case (other n b b' b'')
  then show ?case using process_step_closer by metis
next
  case (mine n b b' b'')
  then show ?case using close_step_left [of goos io pid b' b''] close_step_not_begin [of goos io pid b' b''] by auto
qed simp

lemma close_left_0: "close_left c = 0 \<longleftrightarrow> (\<exists>forced e. c = Closed forced e)"
  by (cases c) auto

text \<open>The goroutines never block once the process has exited.\<close>

lemma exited_announced:
  assumes "\<not> bw_alive b" "bw_reaper b \<noteq> AwaitExit \<longrightarrow> bw_waited b"
  shows "\<exists>b'. (process_step lease)\<^sup>*\<^sup>* b b' \<and> bw_reaper b' = Released \<and> bw_closer b' = bw_closer b"
proof -
  let ?ps = "(process_step lease)\<^sup>*\<^sup>*"
  let ?good = "\<lambda>b'. ?ps b b' \<and> bw_closer b' = bw_closer b"
  have step: "?good b''" if "?good b'" "process_step lease b' b''" for b' b''
    using that process_step_closer [OF that(2)] rtranclp.rtrancl_into_rtrancl [of "process_step lease"] by metis
  have announced: "\<exists>b''. ?good b'' \<and> bw_reaper b'' = Released" if "?good b'" "bw_reaper b' = Announce" for b'
    using step [OF that(1) process_step.announces [OF that(2)]] by auto
  have cleaned: "\<exists>b''. ?good b'' \<and> bw_reaper b'' = Released" if "?good b'" "bw_reaper b' = CleanUp" for b'
    using step [OF that(1) process_step.cleans [OF that(2), where mkdir = True and rd = True and rm = True]] by (intro announced) auto
  have noticed: "\<exists>b''. ?good b'' \<and> bw_reaper b'' = Released" if "?good b'" "bw_reaper b' = AwaitExit" "bw_waited b'" for b'
    using step [OF that(1) process_step.notices [OF that(3,2)]] by (intro cleaned) auto
  show ?thesis
  proof (cases "bw_reaper b")
    case AwaitExit
    show ?thesis
    proof (cases "bw_waited b")
      case False
      have "?good b" by simp
      from step [OF this process_step.waits [OF assms(1) False]] AwaitExit
      show ?thesis using noticed [of "b\<lparr>bw_waited := True\<rparr>"] by auto
    qed (use noticed [of b] AwaitExit in auto)
  qed (use cleaned [of b] announced [of b] in auto)
qed

section \<open>Properties\<close>

text \<open>Where \<open>Close\<close> has returned, the outcomes it met give its result in the sequential description.\<close>

lemma closed_sequential:
  "closer_ok (Closed forced errs) q k released alive m \<Longrightarrow> CloseBrowser m = (forced, errs)"
  by (auto simp: CloseBrowser_def asked_def split: if_splits)

text \<open>
  C39: However a closing lemmingd, its Firefox, the two goroutines and other launchers interleave, the result of \<open>Close\<close> is the one
  its sequential description gives for the outcomes it met, and these tell what was done. Not forced: no error, no kill, Firefox has
  exited, and it was asked to quit if it was running. Forced: the request to quit was sent exactly when no error tells of it, the
  kill exactly when it worked on a live process (a process that was already done counts as forced too, without a kill), the error of
  stopping tells that the kill failed, and the other one that the last wait ended first (Firefox may have exited by then).
  With neither, Firefox has exited and its lease is gone, unless the clean-up could not do its work.
\<close>

theorem close_reports:
  assumes "browser_run goos io pid lease (launched P) b" "bw_closer b = Closed forced errs"
  shows "CloseBrowser (bw_met b) = (forced, errs) \<and>
    (\<not> forced \<longrightarrow> errs = [] \<and> bw_kills b = 0 \<and> bw_quits b = (if cs_running (bw_met b) then 1 else 0)) \<and>
    (forced \<longrightarrow>
       bw_quits b = (if ''ask Firefox to quit'' \<in> set errs then 0 else 1) \<and>
       bw_kills b = (if cs_kill (bw_met b) = Killed then 1 else 0) \<and>
       (cs_kill (bw_met b) = ProcessDone \<longrightarrow> \<not> bw_alive b) \<and>
       (''stop Firefox'' \<in> set errs \<longleftrightarrow> cs_kill (bw_met b) = KillFailed) \<and>
       (''Firefox did not stop'' \<in> set errs \<longleftrightarrow> cs_kill (bw_met b) \<noteq> KillFailed \<and> \<not> cs_stops (bw_met b))) \<and>
    (''stop Firefox'' \<notin> set errs \<and> ''Firefox did not stop'' \<notin> set errs \<longrightarrow>
       \<not> Running b \<and> \<not> bw_alive b \<and> (bw_kept b \<or> lease_owner (bw_profile b) \<noteq> Some (pl_token lease)))"
proof -
  have ok: "browser_ok lease b" using browser_run_ok [OF assms(1)] .
  then have c: "closer_ok (Closed forced errs) (bw_quits b) (bw_kills b) (bw_reaper b = Released) (bw_alive b) (bw_met b)"
    unfolding browser_ok_def assms(2) by (elim conjE)
  have "bw_reaper b = Released \<Longrightarrow> \<not> Running b \<and> \<not> bw_alive b \<and> (bw_kept b \<or> lease_owner (bw_profile b) \<noteq> Some (pl_token lease))"
    using ok by (auto simp: browser_ok_def Running_def)
  moreover have "bw_reaper b = Released" if "''stop Firefox'' \<notin> set errs" "''Firefox did not stop'' \<notin> set errs"
    using c that by (auto split: if_splits)
  moreover have "if forced then
       bw_quits b = (if ''ask Firefox to quit'' \<in> set errs then 0 else 1) \<and>
       bw_kills b = (if cs_kill (bw_met b) = Killed then 1 else 0) \<and>
       (cs_kill (bw_met b) = ProcessDone \<longrightarrow> \<not> bw_alive b) \<and>
       (''stop Firefox'' \<in> set errs \<longleftrightarrow> cs_kill (bw_met b) = KillFailed) \<and>
       (''Firefox did not stop'' \<in> set errs \<longleftrightarrow> cs_kill (bw_met b) \<noteq> KillFailed \<and> \<not> cs_stops (bw_met b))
     else errs = [] \<and> bw_kills b = 0 \<and> bw_quits b = (if cs_running (bw_met b) then 1 else 0)"
    using c by (auto simp: asked_def killed_def split: if_splits)
  ultimately show ?thesis using closed_sequential [OF c] by (simp split: if_splits)
qed

text \<open>
  C40: \<open>Close\<close> returns whatever Firefox does. After its call it takes at most four steps, one of them is always possible until it has
  returned, nothing else changes where it stands; and the exit of Firefox is always announced: the goroutines cannot block.
\<close>

theorem close_returns:
  assumes "browser_run goos io pid lease (launched P) b" "bw_closer b \<noteq> NotClosing" "close_run goos io pid lease n b b'"
  shows "n \<le> 4 \<and> (n = 4 \<longrightarrow> (\<exists>forced errs. bw_closer b' = Closed forced errs)) \<and>
    ((\<exists>forced errs. bw_closer b' = Closed forced errs) \<or> (\<exists>b''. close_step goos io pid b' b'')) \<and>
    (\<not> bw_alive b \<longrightarrow> (\<exists>b''. (process_step lease)\<^sup>*\<^sup>* b b'' \<and> \<not> Running b'' \<and> bw_closer b'' = bw_closer b))"
proof -
  have "close_left (bw_closer b) \<le> 4" by (cases "bw_closer b") auto
  then have n: "n + close_left (bw_closer b') \<le> 4" "bw_closer b' \<noteq> NotClosing"
    using close_run_left [OF assms(3)] assms(2) by auto
  have "bw_reaper b \<noteq> AwaitExit \<longrightarrow> bw_waited b" using browser_run_ok [OF assms(1)] by (simp add: browser_ok_def)
  then have "\<not> bw_alive b \<longrightarrow> (\<exists>b''. (process_step lease)\<^sup>*\<^sup>* b b'' \<and> \<not> Running b'' \<and> bw_closer b'' = bw_closer b)"
    using exited_announced [of b lease] by (auto simp: Running_def)
  then show ?thesis using n close_left_0 [of "bw_closer b'"] close_step_enabled [OF n(2), of goos io pid] by auto
qed

text \<open>
  A Firefox that takes longer than the timer to quit and exits before it is killed: the kill finds no process, and \<open>Close\<close> still says
  that it stopped Firefox.
\<close>

definition example_lease :: profileLease where
  "example_lease = \<lparr>pl_state = ''running'', pl_token = ''ab''\<rparr>"

definition example_quit :: quit_io where
  "example_quit = \<lparr>qi_signal = (\<lambda>_. None), qi_run = (\<lambda>_ _. (True, []))\<rparr>"

definition leased :: profile where
  "leased = \<lparr>pf_prep = False, pf_lease = Some (contents example_lease 8)\<rparr>"

definition slow_quit :: browser where
  "slow_quit = (launched leased)\<lparr>bw_alive := False, bw_closer := Stop [], bw_quits := 1,
     bw_met := nothing_met\<lparr>cs_quit := True\<rparr>\<rparr>"

definition slow_end :: browser where
  "slow_end = slow_quit\<lparr>bw_closer := Closed True [], bw_waited := True, bw_reaper := Released, bw_profile := leased\<lparr>pf_lease := None\<rparr>,
     bw_met := nothing_met\<lparr>cs_quit := True, cs_kill := ProcessDone, cs_stops := True\<rparr>\<rparr>"

lemma run_begins:
  "browser_run goos io pid lease a b \<Longrightarrow> bw_closer b = NotClosing \<Longrightarrow> b'' = b\<lparr>bw_closer := close_begin b, bw_met := (bw_met b)\<lparr>cs_running := Running b\<rparr>\<rparr> \<Longrightarrow> browser_run goos io pid lease a b''"
  by (simp add: rtranclp.rtrancl_into_rtrancl browser_step.begins)

lemma run_process:
  "browser_run goos io pid lease a b \<Longrightarrow> process_step lease b b' \<Longrightarrow> b'' = b' \<Longrightarrow> browser_run goos io pid lease a b''"
  by (simp add: rtranclp.rtrancl_into_rtrancl browser_step.process)

lemma run_close:
  "browser_run goos io pid lease a b \<Longrightarrow> close_step goos io pid b b' \<Longrightarrow> b'' = b' \<Longrightarrow> browser_run goos io pid lease a b''"
  by (simp add: rtranclp.rtrancl_into_rtrancl browser_step.closes)

lemma slow_quit_run: "browser_run ''linux'' example_quit 8 example_lease (launched leased) slow_quit"
proof -
  let ?b = "launched leased" and ?run = "browser_run ''linux'' example_quit 8 example_lease (launched leased)"
  have q: "requestQuit ''linux'' example_quit 8 = None" by code_simp
  have "?run (?b\<lparr>bw_closer := AskQuit\<rparr>)"
    by (rule run_begins [OF rtranclp.rtrancl_refl]) (simp_all add: launched_def nothing_met_def close_begin_def Running_def)
  then have "?run (?b\<lparr>bw_closer := AwaitQuit, bw_quits := 1, bw_met := nothing_met\<lparr>cs_quit := True\<rparr>\<rparr>)"
    by (rule run_close [OF _ close_step.asks]) (simp_all add: launched_def nothing_met_def close_asked_def q)
  then have "?run (?b\<lparr>bw_closer := Stop [], bw_quits := 1, bw_met := nothing_met\<lparr>cs_quit := True\<rparr>\<rparr>)"
    by (rule run_close [OF _ close_step.quit_timeout]) (simp_all add: launched_def nothing_met_def)
  then show ?thesis by (rule run_process [OF _ process_step.exits]) (simp_all add: launched_def nothing_met_def slow_quit_def)
qed

lemma slow_end_run: "browser_run ''linux'' example_quit 8 example_lease (launched leased) slow_end"
proof -
  let ?run = "browser_run ''linux'' example_quit 8 example_lease (launched leased)"
  note defs = slow_quit_def slow_end_def launched_def nothing_met_def
  have clean: "removeExitedLease True True True example_lease leased = leased\<lparr>pf_lease := None\<rparr>" by code_simp
  have "?run (slow_quit\<lparr>bw_closer := AwaitStop [], bw_met := nothing_met\<lparr>cs_quit := True, cs_kill := ProcessDone\<rparr>\<rparr>)"
    by (rule run_close [OF slow_quit_run close_step.kills [where k = ProcessDone]]) (simp_all add: defs close_killed_def)
  then have "?run (slow_quit\<lparr>bw_closer := AwaitStop [], bw_met := nothing_met\<lparr>cs_quit := True, cs_kill := ProcessDone\<rparr>, bw_waited := True\<rparr>)"
    by (rule run_process [OF _ process_step.waits]) (simp_all add: defs)
  then have "?run (slow_quit\<lparr>bw_closer := AwaitStop [], bw_met := nothing_met\<lparr>cs_quit := True, cs_kill := ProcessDone\<rparr>, bw_waited := True, bw_reaper := CleanUp\<rparr>)"
    by (rule run_process [OF _ process_step.notices]) (simp_all add: defs)
  then have "?run (slow_quit\<lparr>bw_closer := AwaitStop [], bw_met := nothing_met\<lparr>cs_quit := True, cs_kill := ProcessDone\<rparr>, bw_waited := True, bw_reaper := Announce, bw_profile := leased\<lparr>pf_lease := None\<rparr>\<rparr>)"
    by (rule run_process [OF _ process_step.cleans [where mkdir = True and rd = True and rm = True]]) (simp_all add: defs clean, simp add: leased_def)
  then have "?run (slow_quit\<lparr>bw_closer := AwaitStop [], bw_met := nothing_met\<lparr>cs_quit := True, cs_kill := ProcessDone\<rparr>, bw_waited := True, bw_reaper := Released, bw_profile := leased\<lparr>pf_lease := None\<rparr>\<rparr>)"
    by (rule run_process [OF _ process_step.announces]) (simp_all add: defs)
  then show ?thesis by (rule run_close [OF _ close_step.stops]) (simp_all add: defs close_stopped_def)
qed

text \<open>The comment of \<open>Close\<close> promises more: here \<open>forced\<close> is true and no kill was sent.\<close>

lemma forced_without_kill:
  "\<exists>b. browser_run ''linux'' example_quit 8 example_lease (launched leased) b \<and> bw_closer b = Closed True [] \<and> bw_kills b = 0"
  by (rule exI [of _ slow_end]) (simp add: slow_end_run, simp add: slow_end_def slow_quit_def launched_def)

lemma close_reports_witness: "\<not> Running slow_end \<and> lease_owner (bw_profile slow_end) \<noteq> Some ''ab''"
proof -
  have c: "bw_closer slow_end = Closed True []" "\<not> bw_kept slow_end"
    by (simp_all add: slow_end_def slow_quit_def launched_def)
  show ?thesis using close_reports [OF slow_end_run c(1)] c(2) by (simp add: example_lease_def)
qed

lemma close_returns_witness:
  "\<exists>b. (process_step example_lease)\<^sup>*\<^sup>* slow_quit b \<and> \<not> Running b \<and> bw_closer b = bw_closer slow_quit"
proof -
  have c: "bw_closer slow_quit \<noteq> NotClosing" "\<not> bw_alive slow_quit" by (simp_all add: slow_quit_def launched_def)
  show ?thesis using close_returns [OF slow_quit_run c(1) close_run.start] c(2) by simp
qed

end
