(* ===== verification/Startup.thy ===== *)
theory Startup
  imports LemmingdRun LemmingApi FirefoxRun
begin

text \<open>
  What both commands do around serving: the version they report (\<open>internal/buildinfo\<close>), the default paths (\<open>DefaultPaths\<close> in
  \<open>internal/config/config.go\<close>), the lines a start logs (\<open>run\<close> in \<open>cmd/lemmingd/main.go\<close> and \<open>cmd/hamsterd/main.go\<close>), the facts that the status
  reports, and the pages the proxy itself answers with. A log line is a constructor with the values in it.
\<close>

section \<open>Version\<close>

text \<open>The version set by the linker, and the one of the main module, if build information was recorded.\<close>

definition build_version :: "string \<Rightarrow> string option \<Rightarrow> string" where
  "build_version linked info =
     (if linked \<noteq> ''dev'' then linked
      else case info of
        Some v \<Rightarrow> if v \<noteq> [] \<and> v \<noteq> ''(devel)'' then v else linked
      | None \<Rightarrow> linked)"

section \<open>Default paths\<close>

text \<open>\<open>filepath.Clean\<close> and \<open>filepath.Join\<close>, for systems whose separator is a slash.\<close>

fun clean_parts :: "bool \<Rightarrow> string list \<Rightarrow> string list \<Rightarrow> string list" where
  "clean_parts rooted out [] = rev out"
| "clean_parts rooted out (p # ps) =
     (if p = [] \<or> p = ''.'' then clean_parts rooted out ps
      else if p = ''..'' then
        if out \<noteq> [] \<and> hd out \<noteq> ''..'' then clean_parts rooted (tl out) ps
        else if rooted then clean_parts rooted out ps
        else clean_parts rooted (p # out) ps
      else clean_parts rooted (p # out) ps)"

definition Clean :: "string \<Rightarrow> string" where
  "Clean path =
     (if path = [] then ''.''
      else let rooted = (hd path = CHR ''/''); out = Join (clean_parts rooted [] (Split path (CHR ''/''))) ''/''
           in if rooted then ''/'' @ out else if out = [] then ''.'' else out)"

definition filepath_Join :: "string list \<Rightarrow> string" where
  "filepath_Join elems = (case dropWhile (\<lambda>e. e = []) elems of [] \<Rightarrow> [] | es \<Rightarrow> Clean (Join es ''/''))"

record paths =
  pa_Config :: string
  pa_CACert :: string
  pa_CAKey :: string
  pa_Cache :: string

definition DefaultPaths :: "string option \<Rightarrow> string option \<Rightarrow> service \<Rightarrow> (string, paths) result" where
  "DefaultPaths configDir cacheDir svc =
     (case configDir of
        None \<Rightarrow> Err ''find user config directory''
      | Some configBase \<Rightarrow>
          (case cacheDir of
             None \<Rightarrow> Err ''find user cache directory''
           | Some cacheBase \<Rightarrow>
               let dir = filepath_Join [configBase, svc]
               in Ok \<lparr>pa_Config = filepath_Join [dir, ''config.json''], pa_CACert = filepath_Join [dir, ''ca.crt''],
                      pa_CAKey = filepath_Join [dir, ''ca.key''], pa_Cache = filepath_Join [cacheBase, svc]\<rparr>))"

section \<open>What a start logs\<close>

datatype start_line = CreatedConfig string | CreatedCA string string | TrustOnlyHere | CAExpires go_time string string
  | SkippedAutoRules skip_reason string | LoadedAutoRules nat string string | PlaintextTarget string
  | RemoteClients | RemoteRefuses "int list" | EveryHostIntercepted | ControlEnabled string

definition created_lines :: "string \<Rightarrow> string \<Rightarrow> string \<Rightarrow> bool \<Rightarrow> bool \<Rightarrow> start_line list" where
  "created_lines configPath cert key configCreated caCreated =
     (if configCreated then [CreatedConfig configPath] else []) @ (if caCreated then [CreatedCA cert key, TrustOnlyHere] else [])"

definition logCAExpiry :: "'c CA \<Rightarrow> go_time \<Rightarrow> string \<Rightarrow> string \<Rightarrow> start_line list" where
  "logCAExpiry ca now cert key =
     (if ExpiresSoon ca now then (case ca_Leaf ca of Some leaf \<Rightarrow> [CAExpires (x5_notAfter leaf) cert key] | None \<Rightarrow> []) else [])"

definition AutoRulesError :: "service_state \<Rightarrow> skip_reason option" where
  "AutoRulesError s = ls_autoErr s"

definition lemmingd_lines :: "string \<Rightarrow> string \<Rightarrow> string \<Rightarrow> bool \<Rightarrow> bool \<Rightarrow> 'c CA \<Rightarrow> go_time \<Rightarrow> lemmingd_running \<Rightarrow> start_line list" where
  "lemmingd_lines configPath cert key configCreated caCreated ca now run =
     (let s = lr_service run; cfg = lr_config run in
      created_lines configPath cert key configCreated caCreated @
      logCAExpiry ca now cert key @
      (case AutoRulesError s of Some reason \<Rightarrow> [SkippedAutoRules reason configPath] | None \<Rightarrow> []) @
      (if 0 < AutoRuleCount s then [LoadedAutoRules (AutoRuleCount s) (AutoRulesPath configPath) configPath] else []) @
      (case ls_router s of Some r \<Rightarrow> map PlaintextTarget (PlaintextRemoteTargets r) | None \<Rightarrow> []) @
      (if cf_AllowRemoteClients cfg then [RemoteClients] else []) @
      (case lr_server run of Some server \<Rightarrow> [ControlEnabled (sv_path server)] | None \<Rightarrow> []))"

definition hamsterd_lines :: "string \<Rightarrow> string \<Rightarrow> string \<Rightarrow> bool \<Rightarrow> bool \<Rightarrow> 'c CA \<Rightarrow> go_time \<Rightarrow> running \<Rightarrow> start_line list" where
  "hamsterd_lines configPath cert key configCreated caCreated ca now run =
     created_lines configPath cert key configCreated caCreated @
     logCAExpiry ca now cert key @
     (if op_RemoteClients (rn_options run) then
        [RemoteClients, RemoteRefuses (connectPorts (op_ConnectPorts (rn_options run)))] @
        (if rn_domains run = [] then [EveryHostIntercepted] else [])
      else [])"

section \<open>What the status reports of a start\<close>

text \<open>\<open>New\<close> of the service adds the two paths; \<open>leaf\<close> is the authority's certificate and \<open>format\<close> prints a time.\<close>

definition start_info :: "(bytes \<Rightarrow> nat list) \<Rightarrow> (go_time \<Rightarrow> string) \<Rightarrow> string \<Rightarrow> string \<Rightarrow> config \<Rightarrow> string \<Rightarrow> x509 \<Rightarrow> info" where
  "start_info sha256 format version configPath cfg cert leaf =
     \<lparr>nf_Version = version, nf_Listen = cf_Listen cfg, nf_ProxyURL = ''http://'' @ clientAddress (cf_Listen cfg),
      nf_ConfigFile = configPath, nf_AutoRulesFile = AutoRulesPath configPath, nf_CACertFile = cert,
      nf_CAFingerprint = fingerprint sha256 (x5_raw leaf), nf_CANotAfter = format (x5_notAfter leaf)\<rparr>"

section \<open>The pages of the proxy\<close>

text \<open>The headers a handler sets and the body it writes; the library's own reply to other verbs is outside.\<close>

definition information_reply :: "service \<Rightarrow> string \<Rightarrow> page \<Rightarrow> (header \<times> string) option" where
  "information_reply svc caPEM p =
     (case p of
        Welcome \<Rightarrow>
          Some (hset [] ''Content-Type'' ''text/plain; charset=utf-8'',
            (if svc = Hamsterd then ''hamsterd caching proxy'' else ''lemmingd selective local-development proxy'') @ newline @
            ''CA certificate: /ca.crt'' @ newline @ ''Health check: /healthz'' @ newline)
      | CACert \<Rightarrow>
          Some (hset (hset [] ''Content-Type'' ''application/x-x509-ca-cert'') ''Content-Disposition''
              (''attachment; filename='' @ quoted (svc @ ''-ca.crt'')), caPEM)
      | Healthy \<Rightarrow> Some (hset [] ''Content-Type'' ''text/plain; charset=utf-8'', ''ok'' @ newline)
      | MethodNotAllowed \<Rightarrow> None)"

section \<open>Facts about paths\<close>

text \<open>A plain name, and an absolute clean path as its names.\<close>

definition plain_name :: "string \<Rightarrow> bool" where
  "plain_name n \<longleftrightarrow> n \<noteq> [] \<and> n \<noteq> ''.'' \<and> n \<noteq> ''..'' \<and> CHR ''/'' \<notin> set n"

definition abs_path :: "string list \<Rightarrow> string" where
  "abs_path ns = ''/'' @ Join ns ''/''"

lemma Split_append: "Split (s @ sep # t) sep = Split s sep @ Split t sep"
  by (induction s) (auto split: list.split)

lemma Split_Join:
  "ps \<noteq> [] \<Longrightarrow> \<forall>p \<in> set ps. sep \<notin> set p \<Longrightarrow> Split (Join ps [sep]) sep = ps"
proof (induction ps rule: induct_list012)
  case (3 x y zs)
  then show ?case using Split_append_sep [of sep x] by simp
qed (simp_all add: Split_no_sep)

lemma clean_parts_plain: "list_all plain_name ps \<Longrightarrow> clean_parts rooted out ps = rev out @ ps"
  by (induction ps arbitrary: out) (auto simp: plain_name_def)

lemma Split_names: "list_all plain_name ns \<Longrightarrow> Split (Join ns ''/'') (CHR ''/'') = (if ns = [] then [[]] else ns)"
  using Split_Join [of ns "CHR ''/''"] by (auto simp: plain_name_def list_all_iff)

lemma Join_abs_path:
  assumes "list_all plain_name ns" "plain_name n"
  shows "filepath_Join [abs_path ns, n] = abs_path (ns @ [n])"
proof -
  have parts: "Split (''/'' @ Join ns ''/'' @ CHR ''/'' # n) (CHR ''/'') = [] # (if ns = [] then [[]] else ns) @ [n]"
    using assms Split_append [of "Join ns ''/''" "CHR ''/''" n] Split_names Split_no_sep [of "CHR ''/''" n]
    by (simp add: plain_name_def)
  have "clean_parts True [] ([] # (if ns = [] then [[]] else ns) @ [n]) = ns @ [n]"
    using assms clean_parts_plain [of "ns @ [n]" True "[]"] by (cases "ns = []") simp_all
  then show ?thesis using parts by (simp add: filepath_Join_def abs_path_def Clean_def)
qed

lemma abs_path_inject:
  assumes "list_all plain_name as" "list_all plain_name bs" "abs_path as = abs_path bs"
  shows "as = bs"
proof -
  have "(if as = [] then [[]] else as) = (if bs = [] then [[]] else bs)"
    using assms(3) Split_names [OF assms(1)] Split_names [OF assms(2)] by (simp add: abs_path_def)
  then show ?thesis using assms(1,2) by (auto simp: plain_name_def split: if_splits)
qed

lemma plain_names:
  "plain_name Hamsterd" "plain_name Lemmingd" "plain_name ''config.json''" "plain_name ''ca.crt''" "plain_name ''ca.key''"
  by (simp_all add: plain_name_def Hamsterd_def Lemmingd_def)

lemma DefaultPaths_abs:
  assumes "list_all plain_name cs" "list_all plain_name xs" "plain_name svc"
  shows "DefaultPaths (Some (abs_path cs)) (Some (abs_path xs)) svc =
    Ok \<lparr>pa_Config = abs_path (cs @ [svc, ''config.json'']), pa_CACert = abs_path (cs @ [svc, ''ca.crt'']),
        pa_CAKey = abs_path (cs @ [svc, ''ca.key'']), pa_Cache = abs_path (xs @ [svc])\<rparr>"
  using assms plain_names Join_abs_path [of cs svc] Join_abs_path [of xs svc] Join_abs_path [of "cs @ [svc]"]
  by (simp add: DefaultPaths_def Let_def)

text \<open>By default the two commands share no file, whatever absolute directories the system names.\<close>

lemma default_files_separate:
  assumes "list_all plain_name cs" "list_all plain_name xs"
    "DefaultPaths (Some (abs_path cs)) (Some (abs_path xs)) Hamsterd = Ok p"
    "DefaultPaths (Some (abs_path cs)) (Some (abs_path xs)) Lemmingd = Ok q"
  shows "{pa_Config p, pa_CACert p, pa_CAKey p} \<inter> {pa_Config q, pa_CACert q, pa_CAKey q} = {} \<and> pa_Cache p \<noteq> pa_Cache q \<and>
    distinct [pa_Config p, pa_CACert p, pa_CAKey p]"
proof -
  have eq: "abs_path (cs @ [svc, f]) = abs_path (cs @ [svc', f']) \<longleftrightarrow> svc = svc' \<and> f = f'"
    if "plain_name svc" "plain_name svc'" "plain_name f" "plain_name f'" for svc svc' f f'
    using that assms(1) abs_path_inject [of "cs @ [svc, f]" "cs @ [svc', f']"] by auto
  have cache: "abs_path (xs @ [Hamsterd]) \<noteq> abs_path (xs @ [Lemmingd])"
    using assms(2) plain_names abs_path_inject [of "xs @ [Hamsterd]" "xs @ [Lemmingd]"] by (auto simp: Hamsterd_def Lemmingd_def)
  have ne: "Hamsterd \<noteq> Lemmingd" by (simp add: Hamsterd_def Lemmingd_def)
  show ?thesis using assms(3,4) DefaultPaths_abs [OF assms(1,2)] plain_names cache ne by (auto simp: eq)
qed

section \<open>Facts about a start\<close>

lemma ParseTarget_scheme: "ParseTarget raw = Ok t \<Longrightarrow> tg_Scheme t = ''http'' \<or> tg_Scheme t = ''https''"
  using ParseTarget_good by (auto simp: good_target_def)

lemma Loopback_address: "Loopback t \<longleftrightarrow> (\<exists>host port. SplitHostPort (tg_Address t) = Ok (host, port) \<and> isLoopback host)"
  by (auto simp: Loopback_def split: sum.split)

text \<open>The targets a rule list reaches over plain HTTP outside this machine.\<close>

definition plain_remote :: "redirect_rule list \<Rightarrow> string \<Rightarrow> bool" where
  "plain_remote rules t \<longleftrightarrow> (\<exists>src \<in> set rules. \<exists>tg. rr_Domains src \<noteq> [] \<and> ParseTarget (rr_Target src) = Ok tg \<and>
     tg_Scheme tg = ''http'' \<and> \<not> Loopback tg \<and> t = tg_Address tg)"

lemma New_hosts:
  assumes "New rules = Ok r"
  shows "set (hosts r) = set (all_pairs rules)"
proof -
  have p: "\<forall>src \<in> set rules. \<exists>t. ParseTarget (rr_Target src) = Ok t" "distinct (rule_hosts rules)"
    using assms New_iff by blast+
  then have d: "distinct (map fst (hosts r))" "distinct (map fst (all_pairs rules))"
    using New_table [OF assms] rule_hosts_pairs by simp_all
  have "map_of (hosts r) = map_of (all_pairs rules)" using New_table(1) [OF assms] by (simp add: host_rule_def fun_eq_iff)
  then show ?thesis using d by (metis map_of_eq_Some_iff subrelI subset_antisym)
qed

lemma all_pairs_iff:
  "(h, rule) \<in> set (all_pairs rules) \<longleftrightarrow> (\<exists>src \<in> set rules. \<exists>tg. ParseTarget (rr_Target src) = Ok tg \<and> rule = rule_of src tg \<and>
     (\<exists>d \<in> set (rr_Domains src). h = normalizeHost d))"
proof -
  have "(h, rule) \<in> set (rule_pairs src) \<longleftrightarrow> (\<exists>tg. ParseTarget (rr_Target src) = Ok tg \<and> rule = rule_of src tg \<and>
     (\<exists>d \<in> set (rr_Domains src). h = normalizeHost d))" for src
    by (cases "ParseTarget (rr_Target src)") (auto simp: rule_pairs_def)
  then show ?thesis by (simp add: all_pairs_def)
qed

lemma Plaintext_iff:
  assumes "New rules = Ok r"
  shows "t \<in> set (PlaintextRemoteTargets r) \<longleftrightarrow> plain_remote rules t"
proof -
  have loop: "Loopback \<lparr>tg_Scheme = a, tg_Address = tg_Address tg, tg_Explicit = False\<rparr> = Loopback tg" for a tg
    by (simp add: Loopback_def)
  have sel: "((if c then Some x else None) = Some y) = (c \<and> y = x)" for c :: bool and x y :: string by auto
  have "t \<in> set (PlaintextRemoteTargets r) \<longleftrightarrow> (\<exists>h rule. (h, rule) \<in> set (all_pairs rules) \<and> rl_Scheme rule = ''http'' \<and>
      \<not> Loopback \<lparr>tg_Scheme = rl_Scheme rule, tg_Address = rl_Target rule, tg_Explicit = False\<rparr> \<and> t = rl_Target rule)"
    unfolding PlaintextRemoteTargets_def set_sort set_collect New_hosts [OF assms] split_beta
    by (simp only: sel Bex_def split_paired_Ex fst_conv snd_conv conj_ac mem_Collect_eq list.set Un_empty_left)
  also have "\<dots> \<longleftrightarrow> plain_remote rules t"
  proof
    assume "\<exists>h rule. (h, rule) \<in> set (all_pairs rules) \<and> rl_Scheme rule = ''http'' \<and>
      \<not> Loopback \<lparr>tg_Scheme = rl_Scheme rule, tg_Address = rl_Target rule, tg_Explicit = False\<rparr> \<and> t = rl_Target rule"
    then obtain src tg d where "src \<in> set rules" "ParseTarget (rr_Target src) = Ok tg" "d \<in> set (rr_Domains src)"
      "tg_Scheme tg = ''http''" "\<not> Loopback tg" "t = tg_Address tg"
      unfolding all_pairs_iff by (auto simp: rule_of_def loop)
    then show "plain_remote rules t" unfolding plain_remote_def by (metis list.set_cases list.distinct(1))
  next
    assume "plain_remote rules t"
    then obtain src tg where "src \<in> set rules" "rr_Domains src \<noteq> []" "ParseTarget (rr_Target src) = Ok tg"
      "tg_Scheme tg = ''http''" "\<not> Loopback tg" "t = tg_Address tg" unfolding plain_remote_def by blast
    moreover from this have "(normalizeHost (hd (rr_Domains src)), rule_of src tg) \<in> set (all_pairs rules)"
      unfolding all_pairs_iff by (intro bexI [of _ src] exI [of _ tg]) auto
    ultimately show "\<exists>h rule. (h, rule) \<in> set (all_pairs rules) \<and> rl_Scheme rule = ''http'' \<and>
      \<not> Loopback \<lparr>tg_Scheme = rl_Scheme rule, tg_Address = rl_Target rule, tg_Explicit = False\<rparr> \<and> t = rl_Target rule"
      by (intro exI [of _ "normalizeHost (hd (rr_Domains src))"] exI [of _ "rule_of src tg"]) (simp add: rule_of_def loop)
  qed
  finally show ?thesis .
qed

lemma created_lines_only [simp]:
  "PlaintextTarget t \<notin> set (created_lines p c k a b)" "RemoteClients \<notin> set (created_lines p c k a b)"
  "SkippedAutoRules e q \<notin> set (created_lines p c k a b)" "LoadedAutoRules n q q' \<notin> set (created_lines p c k a b)"
  "RemoteRefuses ps \<notin> set (created_lines p c k a b)" "EveryHostIntercepted \<notin> set (created_lines p c k a b)"
  by (simp_all add: created_lines_def)

lemma logCAExpiry_only [simp]:
  assumes "\<And>a b d. l \<noteq> CAExpires a b d"
  shows "l \<notin> set (logCAExpiry ca now c k)"
proof (cases "ExpiresSoon ca now \<and> ca_Leaf ca \<noteq> None")
  case True
  then obtain n where "logCAExpiry ca now c k = [CAExpires n c k]" by (auto simp: logCAExpiry_def)
  then show ?thesis using assms by (metis empty_iff empty_set set_ConsD)
next
  case False
  then have "logCAExpiry ca now c k = []" unfolding logCAExpiry_def by (cases "ca_Leaf ca") simp_all
  then show ?thesis by simp
qed

lemma lemmingd_lines_mem:
  fixes configPath cert key configCreated caCreated ca now run
  defines "ls \<equiv> lemmingd_lines configPath cert key configCreated caCreated ca now run" and "s \<equiv> lr_service run"
  assumes "ls_router s = Some r"
  shows "PlaintextTarget t \<in> set ls \<longleftrightarrow> t \<in> set (PlaintextRemoteTargets r)"
    "RemoteClients \<in> set ls \<longleftrightarrow> cf_AllowRemoteClients (lr_config run)"
    "(\<exists>reason. SkippedAutoRules reason configPath \<in> set ls) \<longleftrightarrow> ls_autoErr s \<noteq> None"
    "LoadedAutoRules (length (ls_auto s)) (AutoRulesPath configPath) configPath \<in> set ls \<longleftrightarrow> ls_auto s \<noteq> []"
  using assms(3) unfolding ls_def lemmingd_lines_def Let_def AutoRulesError_def AutoRuleCount_def s_def
  by (cases "ls_autoErr (lr_service run)"; cases "lr_server run"; auto)+

section \<open>Properties\<close>

text \<open>
  C7: The lines a start of lemmingd logs hide no exposure that its rules and its configuration cause. A target is warned about exactly if
  some rule in effect sends its hosts there over plain HTTP and it is not on this machine; so every request the router rewrites uses
  HTTPS, stays on this machine, or was warned about. Without the line on remote clients the proxy listens on a loopback address. If no
  line says that the auto rules were skipped, they are in effect, and the number logged is theirs. Requests that no rule matches are
  not meant: a plain HTTP request of a client and its tunnels pass as they are.
\<close>

theorem start_lines_complete:
  assumes "lemmingd_start ux io firefoxMode fs = (Ok run, fs')"
    and lines: "ls = lemmingd_lines (li_config io) cert key configCreated caCreated ca now run"
    and r: "ls_router (lr_service run) = Some r"
  shows "(\<forall>t. PlaintextTarget t \<in> set ls \<longleftrightarrow> plain_remote (ls_base (lr_service run) @ ls_auto (lr_service run)) t) \<and>
    (\<forall>request u request'. Rewrite r request u = (request', True) \<longrightarrow>
       (\<exists>u'. req_url request' = Some u' \<and> (url_scheme u' = ''https'' \<or> PlaintextTarget (url_host u') \<in> set ls \<or>
          (\<exists>host port. SplitHostPort (url_host u') = Ok (host, port) \<and> isLoopback host)))) \<and>
    (RemoteClients \<notin> set ls \<longrightarrow> (\<exists>host port. SplitHostPort (cf_Listen (lr_config run)) = Ok (host, port) \<and> isLoopback host)) \<and>
    ((\<forall>reason. SkippedAutoRules reason (li_config io) \<notin> set ls) \<longrightarrow> ls_autoErr (lr_service run) = None) \<and>
    (ls_auto (lr_service run) \<noteq> [] \<longleftrightarrow>
       LoadedAutoRules (length (ls_auto (lr_service run))) (AutoRulesPath (li_config io)) (li_config io) \<in> set ls)"
proof -
  let ?s = "lr_service run" and ?rules = "ls_base (lr_service run) @ ls_auto (lr_service run)"
  obtain fs1 where start: "Validate (lr_config run) Lemmingd = None" "NewService (li_read io) (li_config io) (lr_config run) fs1 = Ok ?s"
    using assms(1) by (rule lemmingd_started)
  have new: "Redirect.New ?rules = Ok r" using NewService_inv [OF start(2)] r by (auto simp: service_inv_def follows_def)
  note mem = lemmingd_lines_mem [OF r, where configPath = "li_config io" and cert = cert and key = key and configCreated = configCreated and
      caCreated = caCreated and ca = ca and now = now, folded lines]
  have warned: "PlaintextTarget t \<in> set ls \<longleftrightarrow> plain_remote ?rules t" for t using mem(1) Plaintext_iff [OF new] by simp
  have routed: "\<exists>u'. req_url request' = Some u' \<and> (url_scheme u' = ''https'' \<or> PlaintextTarget (url_host u') \<in> set ls \<or>
      (\<exists>host port. SplitHostPort (url_host u') = Ok (host, port) \<and> isLoopback host))"
    if rw: "Rewrite r request u = (request', True)" for request u request'
  proof -
    obtain h rule where rule: "host_rule r h = Some rule" "req_url request' = Some (u\<lparr>url_scheme := rl_Scheme rule, url_host := rl_Target rule\<rparr>)"
      using rw by (auto simp: Rewrite_def request_rule_def split: option.splits if_splits)
    obtain src t d where t: "src \<in> set ?rules" "d \<in> set (rr_Domains src)" "ParseTarget (rr_Target src) = Ok t" "rule = rule_of src t"
      using New_host_rule_cases [OF new rule(1)] by metis
    then have "plain_remote ?rules (tg_Address t)" if "tg_Scheme t = ''http''" "\<not> Loopback t"
      using that unfolding plain_remote_def by (intro bexI [of _ src] exI [of _ t]) auto
    then show ?thesis using rule(2) t(4) warned ParseTarget_scheme [OF t(3)] Loopback_address [of t] by (auto simp: rule_of_def)
  qed
  show ?thesis using mem(2-4) warned routed Validate_local [OF start(1)] by blast
qed

text \<open>A configuration that may send a host to another machine over plain HTTP, and does.\<close>

definition remote_config :: config where
  "remote_config = (Default Lemmingd [])\<lparr>cf_AllowRemoteTargets := True, cf_Rules := [example_rule ''http://198.51.100.1:80'' ''a.test'']\<rparr>"

definition remote_fs :: "doc fs" where
  "remote_fs = (\<lambda>_. None)(''c'' \<mapsto> \<lparr>file_data = config_doc remote_config, file_perm = 384, file_regular = True\<rparr>)"

definition remote_service :: service_state where
  "remote_service = (case NewService (\<lambda>_. True) ''c'' remote_config remote_fs of Ok s \<Rightarrow> s)"

lemma remote_start:
  "lemmingd_start example_unix example_lemmingd False remote_fs =
     (Ok \<lparr>lr_config = remote_config, lr_service = remote_service, lr_server = None\<rparr>, remote_fs)"
proof -
  have valid: "Validate remote_config Lemmingd = None" and size: "cache_int64 (cf_Cache remote_config)" by code_simp+
  have "decode (config_doc remote_config) = Some remote_config" using Validate_decodable [OF valid] size by (simp add: decode_config_doc)
  moreover have "fill_defaults Lemmingd [] remote_config = remote_config" by code_simp
  moreover have "readPrivate (\<lambda>_. True) ''c'' remote_fs = Ok (config_doc remote_config)"
    by (simp add: readPrivate_def checkPrivate_def remote_fs_def)
  ultimately have load: "ConfigFile.LoadOrCreate (\<lambda>_. True) ''t'' ([], True) None ''c'' Lemmingd [] remote_fs = (Ok (remote_config, False), remote_fs)"
    using valid by (simp add: ConfigFile.LoadOrCreate_def)
  have "case NewService (\<lambda>_. True) ''c'' remote_config remote_fs of Ok s \<Rightarrow> True | Err _ \<Rightarrow> False" by code_simp
  then have new: "NewService (\<lambda>_. True) ''c'' remote_config remote_fs = Ok remote_service"
    by (auto simp: remote_service_def split: sum.splits)
  have "\<not> cf_ControlAPI remote_config" by code_simp
  then show ?thesis
    by (simp add: lemmingd_start_def example_lemmingd_def load new override_listen_def start_control_def)
qed

text \<open>The warning is logged, so the rule is one that the property speaks of.\<close>

lemma start_lines_complete_witness:
  "PlaintextTarget ''198.51.100.1:80'' \<in> set (lemmingd_lines ''c'' [] [] False False \<lparr>ca_Leaf = None, ca_PEM = ()\<rparr> 0
     \<lparr>lr_config = remote_config, lr_service = remote_service, lr_server = None\<rparr>) \<and>
   plain_remote (ls_base remote_service @ ls_auto remote_service) ''198.51.100.1:80''"
proof -
  have "case NewService (\<lambda>_. True) ''c'' remote_config remote_fs of
      Ok s \<Rightarrow> (case ls_router s of Some r \<Rightarrow> PlaintextRemoteTargets r = [''198.51.100.1:80''] | None \<Rightarrow> False) | Err _ \<Rightarrow> False" by code_simp
  then obtain r where r: "ls_router remote_service = Some r" "PlaintextRemoteTargets r = [''198.51.100.1:80'']"
    by (auto simp: remote_service_def split: option.splits sum.splits)
  let ?ca = "\<lparr>ca_Leaf = None, ca_PEM = ()\<rparr>"
  let ?run = "\<lparr>lr_config = remote_config, lr_service = remote_service, lr_server = None\<rparr>"
  have line: "PlaintextTarget ''198.51.100.1:80'' \<in> set (lemmingd_lines ''c'' [] [] False False ?ca 0 ?run)"
    by (subst lemmingd_lines_mem(1) [where r = r]) (simp_all add: r)
  have c: "li_config example_lemmingd = ''c''" by (simp add: example_lemmingd_def)
  show ?thesis using start_lines_complete [OF remote_start refl, of r "[]" "[]" False False ?ca 0] r(1) line c by simp
qed

text \<open>The same for hamsterd: without remote clients it is local, and the destinations it intercepts for remote clients are logged.\<close>

lemma hamsterd_lines_complete:
  assumes "hamsterd_start io fs = (Ok run, fs')" "ls = hamsterd_lines configPath cert key configCreated caCreated ca now run"
  shows "(RemoteClients \<notin> set ls \<longrightarrow> (\<exists>host port. SplitHostPort (rn_listen run) = Ok (host, port) \<and> isLoopback host)) \<and>
    (RemoteClients \<in> set ls \<longrightarrow> RemoteRefuses (connect_ports (rn_options run)) \<in> set ls) \<and>
    (EveryHostIntercepted \<in> set ls \<longrightarrow> (\<forall>host. hamsterd_connect (rn_domains run) host = Intercept host))"
proof -
  obtain cfg where cfg: "Validate cfg Hamsterd = None" "rn_options run = proxy_options cfg" "rn_listen run = cf_Listen cfg"
    using hamsterd_started [OF assms(1)] by blast
  have "RemoteClients \<in> set ls \<longleftrightarrow> cf_AllowRemoteClients cfg"
    by (simp add: assms(2) hamsterd_lines_def cfg(2) proxy_options_def)
  moreover have "EveryHostIntercepted \<in> set ls \<longrightarrow> rn_domains run = []"
    by (simp add: assms(2) hamsterd_lines_def)
  moreover have "RemoteClients \<in> set ls \<longrightarrow> RemoteRefuses (connect_ports (rn_options run)) \<in> set ls"
    by (simp add: assms(2) hamsterd_lines_def connectPorts_def connect_ports_def)
  ultimately show ?thesis using Validate_local [OF cfg(1)] cfg(3) by (auto simp: hamsterd_connect_def matchesDomain_def)
qed

end
