(* ===== verification/Spec2Isabelle.thy ===== *)
theory Spec2Isabelle
  imports CacheScan CacheRuns LeafIssuer Listener Mcp Startup
begin

text \<open>
  A verification library for hamsterd and lemmingd, two HTTP proxies written in Go (\<open>cmd/hamsterd\<close>, \<open>cmd/lemmingd\<close>).
  hamsterd intercepts HTTPS and caches downloads; lemmingd intercepts the hosts of its rules and sends chosen paths to local
  development servers, with a control API, a client for it and a managed Firefox.

  \<^bold>\<open>How the parts interact.\<close> A start loads or creates the configuration (\<open>internal/config\<close>) and the certificate authority
  (\<open>internal/pki/pki.go\<close>). goproxy calls the handlers of \<open>internal/proxycore/proxy.go\<close> first, which for remote clients check ports and
  destinations, then those of the command. An intercepted CONNECT is served by \<open>internal/proxycore/mitm.go\<close> with a leaf certificate
  of the issuer (\<open>internal/pki/leaf.go\<close>). hamsterd's requests go through the transport of \<open>internal/cache/cache.go\<close>; lemmingd's are rewritten
  by the router (\<open>internal/redirect\<close>) that the service (\<open>internal/lemming/service.go\<close>) builds from the configuration and the auto
  rules, and whose targets the service puts on the trust list of the destination guard. \<open>lemmingd config\<close> and \<open>lemmingd mcp\<close> reach the
  service through \<open>internal/control\<close>.

  \<^bold>\<open>Theories and the code they model.\<close>
  \<^item> \<^theory_text>\<open>Prelude\<close>: results and errors, strings and decimal numbers of the Go library, 64-bit integers and durations, list
    lemmas. \<^theory_text>\<open>GoNet\<close>: splitting addresses, IP literals, host names of URLs. \<^theory_text>\<open>GoHttp\<close>: headers, requests, URLs.
    \<^theory_text>\<open>GoJson\<close>: JSON values and the rules of \<open>encoding/json\<close> for structures. \<^theory_text>\<open>GoFile\<close>: a file system as a map from paths to
    contents and permissions, the atomic replacement of a file as a list of visible states, and the locale \<open>owned_file\<close>, the contract
    of a file that carries its writer's token, interpreted on the endpoint file and on the profile lease.
  \<^item> \<^theory_text>\<open>Config\<close>, \<^theory_text>\<open>ConfigFile\<close> (\<open>config.go\<close>), \<^theory_text>\<open>AutoRules\<close> (\<open>auto.go\<close>, locale \<open>rule_store\<close>): data, validation, the JSON form with its legacy
    names, loading, creating, saving, merging. \<^theory_text>\<open>Redirect\<close>: the router; its locale \<open>host_table\<close> is interpreted on the router's table.
  \<^item> \<^theory_text>\<open>Mitm\<close> (\<open>mitm.go\<close>), \<^theory_text>\<open>ProxyGuard\<close> (\<open>proxy.go\<close>, locale \<open>trust_store\<close>), \<^theory_text>\<open>Listener\<close> (\<open>listener.go\<close>): tunnels, the
    guard and the handlers, and connection slots and deadlines as a step relation.
  \<^item> \<^theory_text>\<open>CachePolicy\<close>, \<^theory_text>\<open>CacheStore\<close> (locale \<open>recency_index\<close>), \<^theory_text>\<open>CacheRules\<close>, \<^theory_text>\<open>CacheScan\<close>, \<^theory_text>\<open>CacheTransport\<close>, \<^theory_text>\<open>CacheRuns\<close> (\<open>cache.go\<close>): what may
    be stored and for how long; the index with its files, eviction, commit and load; opening a directory; the transport, its response
    bodies and background refreshes; and the step relation of all of them together.
  \<^item> \<^theory_text>\<open>CaStore\<close> (\<open>pki.go\<close>), \<^theory_text>\<open>LeafIssuer\<close> (\<open>leaf.go\<close>): the authority's files, and the issuer with interleaved calls.
  \<^item> \<^theory_text>\<open>Lemming\<close>, \<^theory_text>\<open>LemmingRules\<close> (\<open>service.go\<close>): state, rule changes, routes, recent requests; runs of the service as a step
    relation over state and files. \<^theory_text>\<open>Control\<close> (\<open>control.go\<close>, \<open>private_unix.go\<close>): endpoint file, server, client.
    \<^theory_text>\<open>LemmingApi\<close> (\<open>service.go\<close>): the handler of the control API. \<^theory_text>\<open>Mcp\<close> (\<open>mcp.go\<close>): the MCP tools.
  \<^item> \<^theory_text>\<open>FirefoxLease\<close>, \<^theory_text>\<open>Firefox\<close> (\<open>firefox.go\<close>, \<open>lock_unix.go\<close>): locks and lease of the managed profile with any number of
    launchers as a step relation; one launch and one close with all their outcomes, with what a launch leaves in the profile. \<^theory_text>\<open>Platform\<close> (\<open>platform_windows.go\<close>, \<open>platform_other.go\<close>,
    \<open>process_unix.go\<close>, \<open>process_other.go\<close>, \<open>quit_unix.go\<close>, \<open>quit_darwin.go\<close>): what each system does instead, and that every build has exactly one of
    each. \<^theory_text>\<open>FirefoxRun\<close> (\<open>firefox.go\<close>): the started process, the goroutines that wait for it and \<open>Close\<close> as a step relation.
  \<^item> \<^theory_text>\<open>HamsterdMain\<close>, \<^theory_text>\<open>LemmingdMain\<close>, \<^theory_text>\<open>LemmingdRun\<close> (\<open>cmd\<close>): the handlers of the two commands, their starts and exits, and
    the \<open>config\<close> commands. \<^theory_text>\<open>Startup\<close> (\<open>cmd\<close>, \<open>internal/buildinfo\<close>, \<open>DefaultPaths\<close>): the version, the default paths, the lines a start logs and
    the pages of the proxy. The properties that span components are in \<^theory_text>\<open>LemmingdRun\<close>, \<^theory_text>\<open>Startup\<close>, \<^theory_text>\<open>Mcp\<close> and the theories of the commands.

  Go names are kept; a name that would clash gets a suffix or a prefix of its receiver. A struct is a record, an error is a constructor of a
  datatype or the fixed part of its text, a pair of a value and an error is a \<open>result\<close>, and a function that returns only an error returns an
  option. The functions read as the Go functions do, one branch per early return.

  \<^bold>\<open>What the lemmas show.\<close> Runs: every reachable state of the service, the cache, the issuer, the listener and the launchers satisfies the
  invariant of its theory, whatever interleaves and whatever fails, except that in the runs of the cache the removal of a file is taken to
  succeed. Safety: rewritten requests stay on loopback targets unless remote targets
  are allowed; the guard dials no denied address; tunnels stay on their host and port, but for IPv6 literals on the default port,
  for which lemmas show that they do not; cached answers are complete downloads under the same key
  within their limits; the control token stays on the machine; no start, save or merge destroys a rule, a configuration or a CA file. Functions: adding,
  removing and merging rules, routing, loading and saving do exactly what they say on success and on every error. Composition: a start of
  lemmingd yields parts that agree with each other, an MCP tool does through client, server and handler what the operation of the
  service does while request and answer are within their limits, the guard refuses no request that a rule for a host name or IPv4 literal routes, in
  any state of a run, and a start of lemmingd logs a line for every rule that leaves the machine over plain HTTP, for remote clients and for
  skipped auto rules. Ends: closing Firefox returns after at most four steps whatever Firefox does, with the result that the outcomes it
  met give.

  \<^bold>\<open>Parameters and bounds.\<close> Code that is not in the repository is an argument: the text form of JSON, \<open>http.ParseTime\<close>, \<open>url.Parse\<close> and
  \<open>URL.EscapedPath\<close>, SHA-256, X.509 and TLS, \<open>strconv.Quote\<close>, name resolution and dialing. A system call that can fail is an outcome in an
  \<open>_io\<close> record or an argument; each outcome can be chosen freely, so a property over them covers every failure. Machine integers whose
  overflow matters (durations, the sizes computed from the configuration at a start, ages, certificate times) are 64-bit words; the byte counters of
  the cache, and other counters that are bounded by memory or disk, are natural numbers or integers. A time is an integer that counts from the zero time.
  The eviction loop is a partial function, whose value is \<open>None\<close> where it does not return, and a property shows that it returns for every
  consistent store; waiting for Firefox is a recursion over the rounds that occur, which its timer ends; parsers of numbers and durations are recursions with a
  termination proof; all other loops are structural recursions on lists. A temporary file's name is an argument, which the properties take to be new where \<open>os.CreateTemp\<close>
  guarantees it. \<open>strings.ToLower\<close> and \<open>EqualFold\<close> are modelled on ASCII letters (also not the two other characters that fold to s and k). A header map
  is never nil. One operation on a file, one critical section and one system call is one step, and in the cache one lookup, one arrival of an
  answer and one part of a read between two critical sections; crashes are states between two steps of an atomic write.

  \<^bold>\<open>Not modelled.\<close> The exemption of Windows from the permission check of configuration files, the white space in JSON text (an empty legacy section
  with spaces is read like one without), the control API on systems without Unix permissions (\<open>private_other.go\<close>, whose checks always succeed), path
  separators other than a slash in \<open>DefaultPaths\<close>, flag parsing, the wording of errors beyond their fixed part, the limits and time-outs set on the HTTP
  transport and servers, the descriptions of the MCP tools, and the goproxy, TLS, MCP and HTTP server libraries. A launcher that is killed
  while it prepares a profile is not a step of the launchers' relation.
\<close>

end
